theory Spec2Isabelle
  imports Complex_Main
begin

section \<open>The description format (caffe.proto, as net.cpp reads it)\<close>

text \<open>
  The protobuf messages appear in net.cpp only through their accessors.  Each message is
  a record with one field per accessor the code calls; an optional field that the code
  guards with \<open>has_...()\<close> is an \<open>option\<close>; a repeated field is a list.  The field
  names are the protobuf names with the message's initials in front, since several
  messages have a \<open>name\<close> and a \<open>phase\<close>.
\<close>

datatype Phase = TRAIN | TEST

text \<open>
  The elements of a buffer have the type \<open>real_t\<close>.  The functions below only copy
  them, so any type with two distinct values would do.
\<close>

type_synonym real_t = real

record NetState =
  ns_phase :: Phase
  ns_level :: int
  ns_stage :: "string list"

record NetStateRule =
  nsr_phase :: "Phase option"
  nsr_min_level :: "int option"
  nsr_max_level :: "int option"
  nsr_stage :: "string list"
  nsr_not_stage :: "string list"

record BlobProto =
  bp_shape :: "int list"
  bp_data :: "real_t list"

record LayerParameter =
  lp_name :: string
  lp_type :: string
  lp_bottom :: "string list"
  lp_top :: "string list"
  lp_include :: "NetStateRule list"
  lp_exclude :: "NetStateRule list"
  lp_blobs :: "BlobProto list"

record NetParameter =
  np_name :: string
  np_state :: NetState
  np_layer :: "LayerParameter list"

section \<open>Failures\<close>

text \<open>
  Every \<open>CHECK\<close> and \<open>LOG(FATAL)\<close> of the functions modelled below is one
  constructor, carrying the values its message prints.  All of them are fatal: the call
  does not return.  The last
  constructor is not a check of the source: it marks the places where the C++ would index
  a vector out of range (undefined behaviour), so that the model says so instead of
  returning an arbitrary value.
\<close>

datatype error =
    PhaseNotTest
  | IncludeAndExclude
  | UnknownBottomBlob string string nat
  | TopProducedByMultipleSources string
  | FirstLayerNotInput
  | StartBelowZero
  | EndNotBelowSize
  | IncompatibleNumberOfBlobs string
  | ShapeMismatch nat string "int list" "int list"
  | BlobNotAvailable string
  | UnknownBlobName string
  | UnknownLayerName string
  | OutOfRange

text \<open>
  A loop whose body may fail: the bodies run in order and the first failure ends the
  loop.  \<open>for_each body [0..<n] s\<close> is \<open>for (i = 0; i < n; ++i) body\<close>.
\<close>

fun for_each :: "('i \<Rightarrow> 's \<Rightarrow> error + 's) \<Rightarrow> 'i list \<Rightarrow> 's \<Rightarrow> error + 's" where
  "for_each body [] s = Inr s"
| "for_each body (i # is) s =
     (case body i s of Inl e \<Rightarrow> Inl e | Inr s' \<Rightarrow> for_each body is s')"

section \<open>The rule evaluator: StateMeetsRule\<close>

text \<open>
  The inner loop \<open>for (j = 0; !has_stage && j < state.stage_size(); ++j)\<close>: it stops at
  the first stage of the state equal to the wanted one.
\<close>

fun has_stage :: "string \<Rightarrow> string list \<Rightarrow> bool" where
  "has_stage wanted [] = False"
| "has_stage wanted (s # ss) = (if wanted = s then True else has_stage wanted ss)"

text \<open>The loop over \<open>rule.stage(i)\<close>: returns false at the first stage the state lacks.\<close>

fun stage_loop :: "NetState \<Rightarrow> string list \<Rightarrow> bool" where
  "stage_loop state [] = True"
| "stage_loop state (r # rs) =
     (if \<not> has_stage r (ns_stage state) then False else stage_loop state rs)"

text \<open>The loop over \<open>rule.not_stage(i)\<close>: returns false at the first one the state has.\<close>

fun not_stage_loop :: "NetState \<Rightarrow> string list \<Rightarrow> bool" where
  "not_stage_loop state [] = True"
| "not_stage_loop state (r # rs) =
     (if has_stage r (ns_stage state) then False else not_stage_loop state rs)"

text \<open>The layer name is only printed in the log lines; it is kept as an argument.\<close>

definition StateMeetsRule :: "NetState \<Rightarrow> NetStateRule \<Rightarrow> string \<Rightarrow> bool" where
  "StateMeetsRule state rule layer_name =
     (if (case nsr_phase rule of None \<Rightarrow> False | Some p \<Rightarrow> p \<noteq> ns_phase state) then False
      else if (case nsr_min_level rule of None \<Rightarrow> False | Some l \<Rightarrow> ns_level state < l)
        then False
      else if (case nsr_max_level rule of None \<Rightarrow> False | Some l \<Rightarrow> ns_level state > l)
        then False
      else if \<not> stage_loop state (nsr_stage rule) then False
      else if \<not> not_stage_loop state (nsr_not_stage rule) then False
      else True)"

section \<open>The graph filter: Net::FilterNet\<close>

text \<open>
  \<open>for (j = 0; layer_included && j < exclude_size; ++j)\<close>: the flag is the loop's state,
  and the loop stops as soon as the flag is false.
\<close>

fun exclude_loop :: "NetState \<Rightarrow> string \<Rightarrow> NetStateRule list \<Rightarrow> bool \<Rightarrow> bool" where
  "exclude_loop net_state layer_name [] layer_included = layer_included"
| "exclude_loop net_state layer_name (r # rs) layer_included =
     (if layer_included
      then exclude_loop net_state layer_name rs
             (if StateMeetsRule net_state r layer_name then False else layer_included)
      else layer_included)"

text \<open>\<open>for (j = 0; !layer_included && j < include_size; ++j)\<close>.\<close>

fun include_loop :: "NetState \<Rightarrow> string \<Rightarrow> NetStateRule list \<Rightarrow> bool \<Rightarrow> bool" where
  "include_loop net_state layer_name [] layer_included = layer_included"
| "include_loop net_state layer_name (r # rs) layer_included =
     (if \<not> layer_included
      then include_loop net_state layer_name rs
             (if StateMeetsRule net_state r layer_name then True else layer_included)
      else layer_included)"

text \<open>
  The body of the loop over the layers.  Its state is the layer list of
  \<open>param_filtered\<close>, which \<open>add_layer()\<close> extends at the end.
\<close>

definition FilterNet_layer ::
  "NetState \<Rightarrow> LayerParameter \<Rightarrow> LayerParameter list \<Rightarrow> error + LayerParameter list" where
  "FilterNet_layer net_state layer_param filtered =
     (let layer_name = lp_name layer_param in
      if \<not> (lp_include layer_param = [] \<or> lp_exclude layer_param = [])
      then Inl IncludeAndExclude
      else
        let layer_included = (lp_include layer_param = []);
            layer_included =
              exclude_loop net_state layer_name (lp_exclude layer_param) layer_included;
            layer_included =
              include_loop net_state layer_name (lp_include layer_param) layer_included
        in Inr (if layer_included then filtered @ [layer_param] else filtered))"

definition FilterNet :: "NetParameter \<Rightarrow> error + NetParameter" where
  "FilterNet param =
     (let net_state = np_state param in
      case for_each (FilterNet_layer net_state) (np_layer param) [] of
        Inl e \<Rightarrow> Inl e
      | Inr filtered \<Rightarrow> Inr (param\<lparr>np_layer := filtered\<rparr>))"

section \<open>Tensor buffers and layers\<close>

text \<open>
  Modelled from the spec: class Blob, whose implementation (blob.cpp) is not part of
  net.cpp.  Section 3 of the specification gives a buffer a shape and raw storage.
\<close>

record Blob =
  blob_shape :: "int list"
  blob_data :: "real_t list"

text \<open>
  Modelled from the spec: the state of a buffer made by \<open>new Blob\<close>, which has no
  shape and no storage before a layer's setup reshapes it.
\<close>

definition new_Blob :: Blob where
  "new_Blob = \<lparr>blob_shape = [], blob_data = []\<rparr>"

text \<open>
  Modelled from the spec: Blob::ShapeEquals, the "shape equality check" of section 6,
  between a buffer and a serialized buffer.
\<close>

definition ShapeEquals :: "Blob \<Rightarrow> BlobProto \<Rightarrow> bool" where
  "ShapeEquals blob proto \<longleftrightarrow> blob_shape blob = bp_shape proto"

text \<open>
  Modelled from the spec: Blob::FromProto, the "load-from-serialized-form (with an
  explicit reshape-or-not flag)" of section 6.  With the flag the buffer takes the
  serialized shape; in both cases the raw data is copied verbatim (section 4.7).
\<close>

definition FromProto :: "BlobProto \<Rightarrow> bool \<Rightarrow> Blob \<Rightarrow> Blob" where
  "FromProto proto reshape blob =
     (if reshape then blob\<lparr>blob_shape := bp_shape proto, blob_data := bp_data proto\<rparr>
      else blob\<lparr>blob_data := bp_data proto\<rparr>)"

text \<open>
  A layer object, as far as the functions below look at it: \<open>type()\<close> and
  \<open>blobs()\<close>, its learnable buffers.  What \<open>Forward\<close>, \<open>SetUp\<close> and \<open>Reshape\<close>
  compute is outside net.cpp.
\<close>

record Layer =
  layer_type :: string
  layer_blobs :: "Blob list"

section \<open>The graph: class Net\<close>

text \<open>
  The members of Net that the functions below read or write, named as in net.cpp but
  without the trailing underscore, which Isabelle does not accept.  Buffers and layers are
  identified by their position in \<open>blobs_\<close> and \<open>layers_\<close>.  The vectors of raw pointers
  (\<open>bottom_vecs_\<close>, \<open>top_vecs_\<close>, \<open>net_input_blobs_\<close>) hold \<open>blobs_[id].get()\<close> for the
  ids of the matching id vectors and are not kept apart; the parameter table
  (\<open>params_\<close>, \<open>param_display_names_\<close>, \<open>param_id_vecs_\<close>, written by AppendParam) and the
  output lists (\<open>net_output_blobs_\<close>, \<open>net_output_blob_indices_\<close>) are left out, as no
  function below reads them.
\<close>

record Net =
  net_name :: string
  layers :: "Layer list"
  layer_names :: "string list"
  blobs :: "Blob list"
  blob_names :: "string list"
  blob_life_time :: "nat list"
  bottom_id_vecs :: "nat list list"
  top_id_vecs :: "nat list list"
  net_input_blob_indices :: "nat list"
  blob_names_index :: "string \<rightharpoonup> nat"
  layer_names_index :: "string \<rightharpoonup> nat"

text \<open>A default-constructed Net: every member is empty.\<close>

definition empty_Net :: Net where
  "empty_Net = \<lparr>net_name = [], layers = [], layer_names = [], blobs = [], blob_names = [],
     blob_life_time = [], bottom_id_vecs = [], top_id_vecs = [],
     net_input_blob_indices = [], blob_names_index = Map.empty,
     layer_names_index = Map.empty\<rparr>"

text \<open>
  The state of the assembly loop of Init: the graph under construction and the two
  locals \<open>available_blobs\<close> (a \<open>std::set<string>\<close>) and \<open>blob_name_to_idx\<close> (a
  \<open>std::map<string, int>\<close>).  Init is the only caller of AppendTop and AppendBottom and
  passes the addresses of these locals, so the pointers are never null.
\<close>

type_synonym assembly = "Net \<times> string set \<times> (string \<rightharpoonup> nat)"

text \<open>
  \<open>m[key]\<close> on a \<open>std::map<string, int>\<close>: a missing key is inserted with the value 0.
\<close>

definition map_subscript :: "(string \<rightharpoonup> nat) \<Rightarrow> string \<Rightarrow> nat \<times> (string \<rightharpoonup> nat)" where
  "map_subscript m key = (case m key of Some v \<Rightarrow> (v, m) | None \<Rightarrow> (0, m(key \<mapsto> 0)))"

subsection \<open>Net::AppendTop\<close>

definition AppendTop :: "NetParameter \<Rightarrow> nat \<Rightarrow> nat \<Rightarrow> assembly \<Rightarrow> error + assembly" where
  "AppendTop param layer_id top_id a =
     (case a of (net, available_blobs, blob_name_to_idx) \<Rightarrow>
      if \<not> layer_id < length (np_layer param) then Inl OutOfRange
      else
        let layer_param = np_layer param ! layer_id;
            blob_name = (if length (lp_top layer_param) > top_id
                         then lp_top layer_param ! top_id else ''(automatic)'')
        in
        if length (lp_bottom layer_param) > top_id \<and>
           blob_name = lp_bottom layer_param ! top_id
        then
          (case map_subscript blob_name_to_idx blob_name of (blob_id, blob_name_to_idx) \<Rightarrow>
           if \<not> (blob_id < length (blobs net) \<and> blob_id < length (blob_life_time net) \<and>
                 layer_id < length (top_id_vecs net))
           then Inl OutOfRange
           else Inr
             (net\<lparr>top_id_vecs :=
                    (top_id_vecs net)[layer_id := top_id_vecs net ! layer_id @ [blob_id]],
                  blob_life_time :=
                    (blob_life_time net)
                      [blob_id := max (blob_life_time net ! blob_id) (layer_id + 1)]\<rparr>,
              insert blob_name available_blobs, blob_name_to_idx))
        else if blob_name_to_idx blob_name \<noteq> None
        then Inl (TopProducedByMultipleSources blob_name)
        else
          (let blob_id = length (blobs net) in
           if \<not> layer_id < length (top_id_vecs net) then Inl OutOfRange
           else Inr
             (net\<lparr>blobs := blobs net @ [new_Blob],
                  blob_names := blob_names net @ [blob_name],
                  blob_life_time := blob_life_time net @ [layer_id + 1],
                  top_id_vecs :=
                    (top_id_vecs net)[layer_id := top_id_vecs net ! layer_id @ [blob_id]]\<rparr>,
              insert blob_name available_blobs, blob_name_to_idx(blob_name \<mapsto> blob_id))))"

subsection \<open>Net::AppendBottom\<close>

text \<open>The result is the \<open>blob_id\<close> the function returns, with the state it leaves.\<close>

definition AppendBottom ::
  "NetParameter \<Rightarrow> nat \<Rightarrow> nat \<Rightarrow> assembly \<Rightarrow> error + (nat \<times> assembly)" where
  "AppendBottom param layer_id bottom_id a =
     (case a of (net, available_blobs, blob_name_to_idx) \<Rightarrow>
      if \<not> layer_id < length (np_layer param) then Inl OutOfRange
      else
        let layer_param = np_layer param ! layer_id in
        if \<not> bottom_id < length (lp_bottom layer_param) then Inl OutOfRange
        else
          let blob_name = lp_bottom layer_param ! bottom_id in
          if blob_name \<notin> available_blobs
          then Inl (UnknownBottomBlob blob_name (lp_name layer_param) bottom_id)
          else
            (case map_subscript blob_name_to_idx blob_name of
               (blob_id, blob_name_to_idx) \<Rightarrow>
               if \<not> (blob_id < length (blobs net) \<and> blob_id < length (blob_life_time net) \<and>
                     layer_id < length (bottom_id_vecs net))
               then Inl OutOfRange
               else Inr (blob_id,
                 net\<lparr>bottom_id_vecs :=
                        (bottom_id_vecs net)
                          [layer_id := bottom_id_vecs net ! layer_id @ [blob_id]],
                      blob_life_time :=
                        (blob_life_time net)
                          [blob_id := max (blob_life_time net ! blob_id) layer_id]\<rparr>,
                 available_blobs - {blob_name}, blob_name_to_idx)))"

subsection \<open>Net::Init and the constructor\<close>

text \<open>The body of the loop over the bottoms: Init drops the returned id.\<close>

definition Init_bottom :: "NetParameter \<Rightarrow> nat \<Rightarrow> nat \<Rightarrow> assembly \<Rightarrow> error + assembly" where
  "Init_bottom param layer_id bottom_id a =
     (case AppendBottom param layer_id bottom_id a of
        Inl e \<Rightarrow> Inl e
      | Inr (blob_id, a') \<Rightarrow> Inr a')"

text \<open>
  The body of the loop over the tops: AppendTop, then the last buffer of \<open>blobs_\<close> is
  recorded as a graph input when the layer's type is Input.
\<close>

definition Init_top :: "NetParameter \<Rightarrow> nat \<Rightarrow> nat \<Rightarrow> assembly \<Rightarrow> error + assembly" where
  "Init_top param layer_id top_id a =
     (case AppendTop param layer_id top_id a of
        Inl e \<Rightarrow> Inl e
      | Inr (net, available_blobs, blob_name_to_idx) \<Rightarrow>
          if lp_type (np_layer param ! layer_id) = ''Input''
          then
            if blobs net = [] then Inl OutOfRange
            else
              let blob_id = length (blobs net) - 1 in
              Inr (net\<lparr>net_input_blob_indices := net_input_blob_indices net @ [blob_id]\<rparr>,
                   available_blobs, blob_name_to_idx)
          else Inr (net, available_blobs, blob_name_to_idx))"

text \<open>
  The body of the loop over the layers.  \<open>CreateLayer\<close> stands for the layer registry
  together with the layer's \<open>SetUp\<close>, both outside net.cpp: it gives the layer object
  that ends up in \<open>layers_\<close>.  The calls of AppendParam only fill the parameter table.
\<close>

definition Init_layer ::
  "(LayerParameter \<Rightarrow> Layer) \<Rightarrow> NetParameter \<Rightarrow> nat \<Rightarrow> assembly \<Rightarrow> error + assembly" where
  "Init_layer CreateLayer param layer_id a =
     (case a of (net, available_blobs, blob_name_to_idx) \<Rightarrow>
      let layer_param = np_layer param ! layer_id;
          net = net\<lparr>layers := layers net @ [CreateLayer layer_param],
                    layer_names := layer_names net @ [lp_name layer_param]\<rparr>;
          num_bottom = length (lp_bottom layer_param)
      in
      case for_each (Init_bottom param layer_id) [0..<num_bottom]
             (net, available_blobs, blob_name_to_idx) of
        Inl e \<Rightarrow> Inl e
      | Inr a' \<Rightarrow>
          let num_top = length (lp_top layer_param) in
          for_each (Init_top param layer_id) [0..<num_top] a')"

text \<open>\<open>blob_life_time_[blob_id] = layers_.size()\<close> for one id of \<open>top_id_vecs_[0]\<close>.\<close>

definition pin_blob :: "nat \<Rightarrow> Net \<Rightarrow> error + Net" where
  "pin_blob blob_id net =
     (if \<not> blob_id < length (blob_life_time net) then Inl OutOfRange
      else Inr (net\<lparr>blob_life_time :=
                      (blob_life_time net)[blob_id := length (layers net)]\<rparr>))"

text \<open>The two loops that fill the name indexes: a later position overwrites an earlier one.\<close>

definition build_index :: "string list \<Rightarrow> (string \<rightharpoonup> nat) \<Rightarrow> (string \<rightharpoonup> nat)" where
  "build_index names index =
     fold (\<lambda>id index. index(names ! id \<mapsto> id)) [0..<length names] index"

text \<open>
  Init.  \<open>InsertSplits\<close> (util/insert_splits.cpp) is outside net.cpp and is a parameter.
  The graph is built in a fresh Net; when a check fails the constructor does not return
  and there is no graph.  The loop that collects the remaining available names as the
  graph's outputs writes only the output lists, which are not modelled.
\<close>

definition Init ::
  "(NetParameter \<Rightarrow> NetParameter) \<Rightarrow> (LayerParameter \<Rightarrow> Layer) \<Rightarrow> NetParameter \<Rightarrow> error + Net" where
  "Init InsertSplits CreateLayer in_param =
     (if ns_phase (np_state in_param) \<noteq> TEST then Inl PhaseNotTest
      else
        case FilterNet in_param of
          Inl e \<Rightarrow> Inl e
        | Inr filtered_param \<Rightarrow>
            let param = InsertSplits filtered_param;
                layer_size = length (np_layer param);
                net = empty_Net\<lparr>net_name := np_name param,
                        bottom_id_vecs := replicate layer_size [],
                        top_id_vecs := replicate layer_size []\<rparr>
            in
            case for_each (Init_layer CreateLayer param) [0..<layer_size]
                   (net, {}, Map.empty) of
              Inl e \<Rightarrow> Inl e
            | Inr (net, available_blobs, blob_name_to_idx) \<Rightarrow>
                if layers net = [] then Inl OutOfRange
                else if layer_type (layers net ! 0) \<noteq> ''Input'' then Inl FirstLayerNotInput
                else if top_id_vecs net = [] then Inl OutOfRange
                else
                  case for_each pin_blob (top_id_vecs net ! 0) net of
                    Inl e \<Rightarrow> Inl e
                  | Inr net \<Rightarrow>
                      Inr (net\<lparr>blob_names_index :=
                                 build_index (blob_names net) (blob_names_index net),
                               layer_names_index :=
                                 build_index (layer_names net) (layer_names_index net)\<rparr>))"

text \<open>
  The constructor \<open>Net(param_file)\<close>, from the description that
  \<open>ReadNetParamsFromTextFileOrDie\<close> has read.
\<close>

definition Net_ctor ::
  "(NetParameter \<Rightarrow> NetParameter) \<Rightarrow> (LayerParameter \<Rightarrow> Layer) \<Rightarrow> NetParameter \<Rightarrow> error + Net" where
  "Net_ctor InsertSplits CreateLayer param =
     Init InsertSplits CreateLayer (param\<lparr>np_state := (np_state param)\<lparr>ns_phase := TEST\<rparr>\<rparr>)"

section \<open>The executor: Net::ForwardFromTo\<close>

text \<open>
  What a forward pass does is a sequence of calls into the profiler, the layers and the
  buffers, all outside net.cpp; the pass writes no member of Net.  The model returns
  the calls in the order they are made.
\<close>

datatype call =
    ScopeStart string
  | LayerForward nat
  | ScopeEnd
  | BlobRelease nat

text \<open>The body of \<open>for (int blob_idx : bottom_id_vecs_[i])\<close>.\<close>

definition release_bottom :: "Net \<Rightarrow> nat \<Rightarrow> nat \<Rightarrow> call list \<Rightarrow> error + call list" where
  "release_bottom net i blob_idx calls =
     (if \<not> blob_idx < length (blob_life_time net) then Inl OutOfRange
      else if blob_life_time net ! blob_idx \<le> i
      then (if \<not> blob_idx < length (blobs net) then Inl OutOfRange
            else Inr (calls @ [BlobRelease blob_idx]))
      else Inr calls)"

text \<open>The body of the loop over the layers.\<close>

definition ForwardFromTo_layer :: "Net \<Rightarrow> nat \<Rightarrow> call list \<Rightarrow> error + call list" where
  "ForwardFromTo_layer net i calls =
     (if \<not> (i < length (layer_names net) \<and> i < length (layers net) \<and>
            i < length (bottom_id_vecs net))
      then Inl OutOfRange
      else for_each (release_bottom net i) (bottom_id_vecs net ! i)
             (calls @ [ScopeStart (layer_names net ! i), LayerForward i, ScopeEnd]))"

text \<open>
  \<open>CHECK_LT(end, layers_.size())\<close> compares an \<open>int\<close> with a \<open>size_t\<close>, so a negative
  \<open>end\<close> is converted to a huge unsigned value and fails the check too.  After the two
  checks \<open>i\<close> runs over the naturals from \<open>start\<close> to \<open>end\<close>.
\<close>

definition ForwardFromTo :: "Net \<Rightarrow> int \<Rightarrow> int \<Rightarrow> error + call list" where
  "ForwardFromTo net start end =
     (if \<not> start \<ge> 0 then Inl StartBelowZero
      else if \<not> (0 \<le> end \<and> end < int (length (layers net))) then Inl EndNotBelowSize
      else for_each (ForwardFromTo_layer net) [nat start..<Suc (nat end)] [])"

definition ForwardFrom :: "Net \<Rightarrow> int \<Rightarrow> error + call list" where
  "ForwardFrom net start = ForwardFromTo net start (int (length (layers net)) - 1)"

definition ForwardTo :: "Net \<Rightarrow> int \<Rightarrow> error + call list" where
  "ForwardTo net end = ForwardFromTo net 0 end"

section \<open>Pinning outputs: Net::MarkOutputs\<close>

definition MarkOutputs_name :: "string \<Rightarrow> Net \<Rightarrow> error + Net" where
  "MarkOutputs_name name net =
     (case blob_names_index net name of
        None \<Rightarrow> Inl (BlobNotAvailable name)
      | Some blob_id \<Rightarrow>
          if \<not> blob_id < length (blob_life_time net) then Inl OutOfRange
          else Inr (net\<lparr>blob_life_time :=
                          (blob_life_time net)[blob_id := length (layers net)]\<rparr>))"

definition MarkOutputs :: "Net \<Rightarrow> string list \<Rightarrow> error + Net" where
  "MarkOutputs net outs = for_each MarkOutputs_name outs net"

section \<open>The weight loader: Net::CopyTrainedLayersFrom\<close>

text \<open>
  A loop on a graph that exists: when a check fails, the graph keeps what the loop has
  written so far.  The result is the failure, if any, with the state the loop leaves.
\<close>

fun for_each_st ::
  "('i \<Rightarrow> 's \<Rightarrow> error option \<times> 's) \<Rightarrow> 'i list \<Rightarrow> 's \<Rightarrow> error option \<times> 's" where
  "for_each_st body [] s = (None, s)"
| "for_each_st body (i # is) s =
     (case body i s of
        (Some e, s') \<Rightarrow> (Some e, s')
      | (None, s') \<Rightarrow> for_each_st body is s')"

text \<open>
  The \<open>while\<close> loop that looks for the source layer's name, on the names from
  \<open>target_layer_id\<close> on: the result is the number of increments, which is the position
  of the first equal name, or the number of names when there is none.
\<close>

fun find_target_layer :: "string list \<Rightarrow> string \<Rightarrow> nat" where
  "find_target_layer [] source_layer_name = 0"
| "find_target_layer (n # ns) source_layer_name =
     (if n \<noteq> source_layer_name then Suc (find_target_layer ns source_layer_name) else 0)"

text \<open>The body of the loop over \<open>j\<close>; its state is the target layer's buffer vector.\<close>

definition copy_blob ::
  "LayerParameter \<Rightarrow> nat \<Rightarrow> Blob list \<Rightarrow> error option \<times> Blob list" where
  "copy_blob source_layer j target_blobs =
     (if \<not> ShapeEquals (target_blobs ! j) (lp_blobs source_layer ! j)
      then
        let source_blob = FromProto (lp_blobs source_layer ! j) True new_Blob in
        (Some (ShapeMismatch j (lp_name source_layer) (blob_shape source_blob)
                 (blob_shape (target_blobs ! j))),
         target_blobs)
      else (None, target_blobs[j := FromProto (lp_blobs source_layer ! j) False
                                     (target_blobs ! j)]))"

text \<open>The body of the loop over the source layers.\<close>

definition CopyTrainedLayersFrom_layer :: "LayerParameter \<Rightarrow> Net \<Rightarrow> error option \<times> Net" where
  "CopyTrainedLayersFrom_layer source_layer net =
     (let source_layer_name = lp_name source_layer;
          target_layer_id = find_target_layer (layer_names net) source_layer_name
      in
      if target_layer_id = length (layer_names net) then (None, net)
      else if \<not> target_layer_id < length (layers net) then (Some OutOfRange, net)
      else
        let target_blobs = layer_blobs (layers net ! target_layer_id) in
        if length target_blobs \<noteq> length (lp_blobs source_layer)
        then (Some (IncompatibleNumberOfBlobs source_layer_name), net)
        else
          case for_each_st (copy_blob source_layer) [0..<length target_blobs] target_blobs of
            (r, target_blobs') \<Rightarrow>
              (r, net\<lparr>layers := (layers net)
                    [target_layer_id :=
                       (layers net ! target_layer_id)\<lparr>layer_blobs := target_blobs'\<rparr>]\<rparr>))"

definition CopyTrainedLayersFrom :: "NetParameter \<Rightarrow> Net \<Rightarrow> error option \<times> Net" where
  "CopyTrainedLayersFrom param net =
     for_each_st CopyTrainedLayersFrom_layer (np_layer param) net"

section \<open>The name index: has_blob, blob_by_name, has_layer, layer_by_name\<close>

definition has_blob :: "Net \<Rightarrow> string \<Rightarrow> bool" where
  "has_blob net blob_name \<longleftrightarrow> blob_names_index net blob_name \<noteq> None"

text \<open>
  The shared pointer that blob_by_name returns is the one stored at a position of
  \<open>blobs_\<close>; the model returns the position.
\<close>

definition blob_by_name :: "Net \<Rightarrow> string \<Rightarrow> error + nat" where
  "blob_by_name net blob_name =
     (if \<not> has_blob net blob_name then Inl (UnknownBlobName blob_name)
      else
        let id = the (blob_names_index net blob_name) in
        if \<not> id < length (blobs net) then Inl OutOfRange else Inr id)"

definition has_layer :: "Net \<Rightarrow> string \<Rightarrow> bool" where
  "has_layer net layer_name \<longleftrightarrow> layer_names_index net layer_name \<noteq> None"

definition layer_by_name :: "Net \<Rightarrow> string \<Rightarrow> error + nat" where
  "layer_by_name net layer_name =
     (if \<not> has_layer net layer_name then Inl (UnknownLayerName layer_name)
      else
        let id = the (layer_names_index net layer_name) in
        if \<not> id < length (layers net) then Inl OutOfRange else Inr id)"

section \<open>Invariants and examples for the proofs\<close>

text \<open>A rule with only a list of required and a list of forbidden stages.\<close>

definition example_rule :: "string list \<Rightarrow> string list \<Rightarrow> NetStateRule" where
  "example_rule stages not_stages =
     \<lparr>nsr_phase = None, nsr_min_level = None, nsr_max_level = None,
      nsr_stage = stages, nsr_not_stage = not_stages\<rparr>"

text \<open>The context of section 8 of the specification: phase TEST, level 0, stage "test".\<close>

definition example_state :: NetState where
  "example_state = \<lparr>ns_phase = TEST, ns_level = 0, ns_stage = [''test'']\<rparr>"

text \<open>
  A description in that context: the first layer has no rules, the second is excluded
  in stage "test", the third is included in stage "test", the fourth is included only in
  stage "train".
\<close>

definition example_filter_param :: NetParameter where
  "example_filter_param =
     \<lparr>np_name = ''filter'', np_state = example_state,
      np_layer =
        [\<lparr>lp_name = ''a'', lp_type = ''Input'', lp_bottom = [], lp_top = [''a''],
          lp_include = [], lp_exclude = [], lp_blobs = []\<rparr>,
         \<lparr>lp_name = ''b'', lp_type = ''ReLU'', lp_bottom = [''a''], lp_top = [''a''],
          lp_include = [], lp_exclude = [example_rule [''test''] []], lp_blobs = []\<rparr>,
         \<lparr>lp_name = ''c'', lp_type = ''ReLU'', lp_bottom = [''a''], lp_top = [''a''],
          lp_include = [example_rule [''train''] [], example_rule [''test''] []],
          lp_exclude = [], lp_blobs = []\<rparr>,
         \<lparr>lp_name = ''d'', lp_type = ''ReLU'', lp_bottom = [''a''], lp_top = [''a''],
          lp_include = [example_rule [''train''] []], lp_exclude = [], lp_blobs = []\<rparr>]\<rparr>"

text \<open>
  The invariant of the assembly loops.  \<open>B i\<close> and \<open>T i\<close> are the input and output
  names of layer \<open>i\<close> wired so far, \<open>S\<close> the names bound to a buffer so far.  The
  parallel vectors have one length; the buffer names are distinct and are the names
  bound so far; the map sends exactly each name to its position; every available name
  is bound; the ids wired for a layer are the positions of its names; and a buffer's
  last-use index is at least the index of each layer it is an input of, and more than
  the index of each layer it is an output of.
\<close>

definition wired ::
  "(nat \<Rightarrow> string list) \<Rightarrow> (nat \<Rightarrow> string list) \<Rightarrow> string set \<Rightarrow> assembly \<Rightarrow> bool" where
  "wired B T S a \<longleftrightarrow>
     (case a of (net, av, idx) \<Rightarrow>
        length (blobs net) = length (blob_names net) \<and>
        length (blob_life_time net) = length (blob_names net) \<and>
        length (top_id_vecs net) = length (bottom_id_vecs net) \<and>
        distinct (blob_names net) \<and>
        set (blob_names net) = S \<and>
        (\<forall>name id. idx name = Some id \<longleftrightarrow>
           id < length (blob_names net) \<and> blob_names net ! id = name) \<and>
        av \<subseteq> S \<and>
        (\<forall>i<length (bottom_id_vecs net).
           map ((!) (blob_names net)) (bottom_id_vecs net ! i) = B i \<and>
           (\<forall>b\<in>set (bottom_id_vecs net ! i).
              b < length (blob_names net) \<and> i \<le> blob_life_time net ! b)) \<and>
        (\<forall>i<length (bottom_id_vecs net).
           map ((!) (blob_names net)) (top_id_vecs net ! i) = T i \<and>
           (\<forall>b\<in>set (top_id_vecs net ! i).
              b < length (blob_names net) \<and> Suc i \<le> blob_life_time net ! b)))"

text \<open>
  The invariant of the assembly loops on the set of available names, for the input names
  \<open>B i\<close> and output names \<open>T i\<close> of layer \<open>i\<close> wired so far.  A name that a layer has
  consumed is not available unless that layer or a later one has produced it since; and
  between two consumptions of one name there is a production of it.
\<close>

definition consumed_once ::
  "(nat \<Rightarrow> string list) \<Rightarrow> (nat \<Rightarrow> string list) \<Rightarrow> string set \<Rightarrow> bool" where
  "consumed_once B T av \<longleftrightarrow>
     (\<forall>i nm. nm \<in> set (B i) \<and> (\<forall>i'\<ge>i. nm \<notin> set (T i')) \<longrightarrow> nm \<notin> av) \<and>
     (\<forall>i1 k1 i2 k2.
        k1 < length (B i1) \<and> k2 < length (B i2) \<and> B i1 ! k1 = B i2 ! k2 \<and>
        (i1 < i2 \<or> (i1 = i2 \<and> k1 < k2)) \<longrightarrow>
        (\<exists>i. i1 \<le> i \<and> i < i2 \<and> B i1 ! k1 \<in> set (T i)))"

text \<open>
  The names among the first \<open>n\<close> outputs of a layer that are not in place: those for
  which AppendTop makes a new buffer.
\<close>

definition new_tops :: "LayerParameter \<Rightarrow> nat \<Rightarrow> string set" where
  "new_tops lp n =
     {lp_top lp ! k | k. k < n \<and> \<not> (k < length (lp_bottom lp) \<and> lp_top lp ! k = lp_bottom lp ! k)}"

text \<open>The invariant of the loop over the layers, before the layer with index \<open>L\<close>.\<close>

definition assembled_upto ::
  "(LayerParameter \<Rightarrow> Layer) \<Rightarrow> LayerParameter list \<Rightarrow> nat \<Rightarrow> assembly \<Rightarrow> bool" where
  "assembled_upto CL ls L a \<longleftrightarrow>
     wired (\<lambda>i. if i < L then lp_bottom (ls ! i) else [])
           (\<lambda>i. if i < L then lp_top (ls ! i) else [])
           (\<Union>i<L. new_tops (ls ! i) (length (lp_top (ls ! i)))) a \<and>
     (case a of (net, av, idx) \<Rightarrow>
        consumed_once (\<lambda>i. if i < L then lp_bottom (ls ! i) else [])
          (\<lambda>i. if i < L then lp_top (ls ! i) else []) av \<and>
        layers net = map CL (take L ls) \<and> layer_names net = map lp_name (take L ls) \<and>
        length (bottom_id_vecs net) = length ls \<and>
        blob_names_index net = Map.empty \<and> layer_names_index net = Map.empty)"

text \<open>The invariant of one layer's loops: the frame and the wiring so far.\<close>

definition in_layer ::
  "Net \<Rightarrow> (nat \<Rightarrow> string list) \<Rightarrow> (nat \<Rightarrow> string list) \<Rightarrow> string set \<Rightarrow> assembly \<Rightarrow> bool" where
  "in_layer net0 B T S a \<longleftrightarrow>
     wired B T S a \<and>
     (case a of (net, av, idx) \<Rightarrow>
        consumed_once B T av \<and>
        layers net = layers net0 \<and> layer_names net = layer_names net0 \<and>
        length (bottom_id_vecs net) = length (bottom_id_vecs net0) \<and>
        blob_names_index net = blob_names_index net0 \<and>
        layer_names_index net = layer_names_index net0)"

text \<open>What holds of the graph after the loop over the layers.\<close>

definition assembled :: "(LayerParameter \<Rightarrow> Layer) \<Rightarrow> LayerParameter list \<Rightarrow> Net \<Rightarrow> bool" where
  "assembled CL ls net \<longleftrightarrow>
     (\<exists>av idx.
        wired (\<lambda>i. if i < length ls then lp_bottom (ls ! i) else [])
              (\<lambda>i. if i < length ls then lp_top (ls ! i) else [])
              (\<Union>i<length ls. new_tops (ls ! i) (length (lp_top (ls ! i)))) (net, av, idx) \<and>
        consumed_once (\<lambda>i. if i < length ls then lp_bottom (ls ! i) else [])
              (\<lambda>i. if i < length ls then lp_top (ls ! i) else []) av) \<and>
     layers net = map CL ls \<and> layer_names net = map lp_name ls \<and>
     length (bottom_id_vecs net) = length ls"

text \<open>The calls of one iteration of the forward loop.\<close>

definition layer_calls :: "Net \<Rightarrow> nat \<Rightarrow> call list" where
  "layer_calls net i =
     [ScopeStart (layer_names net ! i), LayerForward i, ScopeEnd] @
     map BlobRelease (filter (\<lambda>b. blob_life_time net ! b \<le> i) (bottom_id_vecs net ! i))"

text \<open>
  What the forward loop needs of a graph: the vectors indexed by layer have the length
  of \<open>layers_\<close>, and every input id is a position of \<open>blobs_\<close> and
  \<open>blob_life_time_\<close> whose last-use index is at least the layer's index.
\<close>

definition forward_ready :: "Net \<Rightarrow> bool" where
  "forward_ready net \<longleftrightarrow>
     length (layer_names net) = length (layers net) \<and>
     length (bottom_id_vecs net) = length (layers net) \<and>
     (\<forall>i<length (layers net). \<forall>b\<in>set (bottom_id_vecs net ! i).
        b < length (blobs net) \<and> b < length (blob_life_time net) \<and>
        i \<le> blob_life_time net ! b)"

text \<open>
  An example description: an Input layer, a convolution, a ReLU in place on the
  convolution's output, and an inner product on the result.
\<close>

definition example_layer :: "string \<Rightarrow> string \<Rightarrow> string list \<Rightarrow> string list \<Rightarrow> LayerParameter" where
  "example_layer name type bottoms tops =
     \<lparr>lp_name = name, lp_type = type, lp_bottom = bottoms, lp_top = tops,
      lp_include = [], lp_exclude = [], lp_blobs = []\<rparr>"

definition example_param :: NetParameter where
  "example_param =
     \<lparr>np_name = ''example'',
      np_state = \<lparr>ns_phase = TEST, ns_level = 0, ns_stage = []\<rparr>,
      np_layer =
        [example_layer ''data'' ''Input'' [] [''data''],
         example_layer ''conv1'' ''Convolution'' [''data''] [''conv1''],
         example_layer ''relu1'' ''ReLU'' [''conv1''] [''conv1''],
         example_layer ''fc'' ''InnerProduct'' [''conv1''] [''fc'']]\<rparr>"

text \<open>A registry whose layers have the type of their description and no learnable buffers.\<close>

definition example_CreateLayer :: "LayerParameter \<Rightarrow> Layer" where
  "example_CreateLayer layer_param = \<lparr>layer_type = lp_type layer_param, layer_blobs = []\<rparr>"

text \<open>The graph that Init assembles from the example.\<close>

definition example_net :: Net where
  "example_net =
     \<lparr>net_name = ''example'',
      layers = [\<lparr>layer_type = ''Input'', layer_blobs = []\<rparr>,
                \<lparr>layer_type = ''Convolution'', layer_blobs = []\<rparr>,
                \<lparr>layer_type = ''ReLU'', layer_blobs = []\<rparr>,
                \<lparr>layer_type = ''InnerProduct'', layer_blobs = []\<rparr>],
      layer_names = [''data'', ''conv1'', ''relu1'', ''fc''],
      blobs = [new_Blob, new_Blob, new_Blob],
      blob_names = [''data'', ''conv1'', ''fc''],
      blob_life_time = [4, 3, 4],
      bottom_id_vecs = [[], [0], [1], [1]],
      top_id_vecs = [[0], [1], [1], [2]],
      net_input_blob_indices = [0],
      blob_names_index = [''data'' \<mapsto> 0, ''conv1'' \<mapsto> 1, ''fc'' \<mapsto> 2],
      layer_names_index = [''data'' \<mapsto> 0, ''conv1'' \<mapsto> 1, ''relu1'' \<mapsto> 2, ''fc'' \<mapsto> 3]\<rparr>"

text \<open>
  The target layer's buffers after the first \<open>n\<close> of them have taken the data of the
  source layer's buffers.
\<close>

definition copied :: "LayerParameter \<Rightarrow> nat \<Rightarrow> Blob list \<Rightarrow> Blob list" where
  "copied source_layer n target_blobs =
     map (\<lambda>j. if j < n then (target_blobs ! j)\<lparr>blob_data := bp_data (lp_blobs source_layer ! j)\<rparr>
               else target_blobs ! j) [0..<length target_blobs]"

text \<open>
  A registry whose convolution and inner-product layers have two learnable buffers, a
  weight of shape [2] and a bias of shape [1], both zero.
\<close>

definition weights_CreateLayer :: "LayerParameter \<Rightarrow> Layer" where
  "weights_CreateLayer layer_param =
     \<lparr>layer_type = lp_type layer_param,
      layer_blobs =
        (if lp_type layer_param = ''Convolution'' \<or> lp_type layer_param = ''InnerProduct''
         then [\<lparr>blob_shape = [2], blob_data = [0, 0]\<rparr>, \<lparr>blob_shape = [1], blob_data = [0]\<rparr>]
         else [])\<rparr>"

text \<open>The graph that Init assembles from the example with this registry.\<close>

definition weights_net :: Net where
  "weights_net = example_net\<lparr>layers := map weights_CreateLayer (np_layer example_param)\<rparr>"

text \<open>A serialized layer with the given name and learnable buffers.\<close>

definition source_layer_of :: "string \<Rightarrow> BlobProto list \<Rightarrow> LayerParameter" where
  "source_layer_of name source_blobs =
     \<lparr>lp_name = name, lp_type = [], lp_bottom = [], lp_top = [],
      lp_include = [], lp_exclude = [], lp_blobs = source_blobs\<rparr>"

text \<open>
  Three foreign descriptions for this graph.  The first names a layer the graph does not
  have and then "conv1" with matching buffers.  The second names "conv1" with a bias of
  another shape.  The third names "conv1" with matching buffers and then "fc" with one
  buffer instead of two.
\<close>

definition foreign_superset :: NetParameter where
  "foreign_superset =
     \<lparr>np_name = ''trained'', np_state = \<lparr>ns_phase = TEST, ns_level = 0, ns_stage = []\<rparr>,
      np_layer =
        [source_layer_of ''extra'' [\<lparr>bp_shape = [7], bp_data = [9]\<rparr>],
         source_layer_of ''conv1''
           [\<lparr>bp_shape = [2], bp_data = [1, 2]\<rparr>, \<lparr>bp_shape = [1], bp_data = [3]\<rparr>]]\<rparr>"

definition foreign_shape :: NetParameter where
  "foreign_shape =
     \<lparr>np_name = ''trained'', np_state = \<lparr>ns_phase = TEST, ns_level = 0, ns_stage = []\<rparr>,
      np_layer =
        [source_layer_of ''conv1''
           [\<lparr>bp_shape = [2], bp_data = [1, 2]\<rparr>, \<lparr>bp_shape = [3], bp_data = [3, 4, 5]\<rparr>]]\<rparr>"

definition foreign_count :: NetParameter where
  "foreign_count =
     \<lparr>np_name = ''trained'', np_state = \<lparr>ns_phase = TEST, ns_level = 0, ns_stage = []\<rparr>,
      np_layer =
        [source_layer_of ''conv1''
           [\<lparr>bp_shape = [2], bp_data = [1, 2]\<rparr>, \<lparr>bp_shape = [1], bp_data = [3]\<rparr>],
         source_layer_of ''fc'' [\<lparr>bp_shape = [2], bp_data = [4, 5]\<rparr>]]\<rparr>"

text \<open>A rule that asks for a phase and for nothing else.\<close>

definition phase_rule :: "Phase \<Rightarrow> NetStateRule" where
  "phase_rule p =
     \<lparr>nsr_phase = Some p, nsr_min_level = None, nsr_max_level = None,
      nsr_stage = [], nsr_not_stage = []\<rparr>"

text \<open>
  The example description as a training file would have it: the phase of its state is
  TRAIN, and it has a loss layer that is included in phase TRAIN only.
\<close>

definition train_file_param :: NetParameter where
  "train_file_param =
     example_param\<lparr>np_state := \<lparr>ns_phase = TRAIN, ns_level = 0, ns_stage = []\<rparr>,
       np_layer := np_layer example_param @
         [(example_layer ''loss'' ''SoftmaxWithLoss'' [''fc''] [''loss''])
            \<lparr>lp_include := [phase_rule TRAIN]\<rparr>]\<rparr>"

text \<open>
  A description without a split: the layers "a" and "b" both consume "data", which only
  the input layer produces.
\<close>

definition fanout_param :: NetParameter where
  "fanout_param =
     \<lparr>np_name = ''fanout'',
      np_state = \<lparr>ns_phase = TEST, ns_level = 0, ns_stage = []\<rparr>,
      np_layer =
        [example_layer ''data'' ''Input'' [] [''data''],
         example_layer ''a'' ''ReLU'' [''data''] [''a''],
         example_layer ''b'' ''ReLU'' [''data''] [''b'']]\<rparr>"

text \<open>The state of the assembly of this description after its first two layers.\<close>

definition fanout_net :: Net where
  "fanout_net =
     \<lparr>net_name = ''fanout'',
      layers = [\<lparr>layer_type = ''Input'', layer_blobs = []\<rparr>,
                \<lparr>layer_type = ''ReLU'', layer_blobs = []\<rparr>],
      layer_names = [''data'', ''a''],
      blobs = [new_Blob, new_Blob],
      blob_names = [''data'', ''a''],
      blob_life_time = [1, 2],
      bottom_id_vecs = [[], [0], []],
      top_id_vecs = [[0], [1], []],
      net_input_blob_indices = [0],
      blob_names_index = Map.empty,
      layer_names_index = Map.empty\<rparr>"

text \<open>A description in which two layers produce "data", the second not in place.\<close>

definition duplicate_param :: NetParameter where
  "duplicate_param =
     \<lparr>np_name = ''duplicate'',
      np_state = \<lparr>ns_phase = TEST, ns_level = 0, ns_stage = []\<rparr>,
      np_layer =
        [example_layer ''data'' ''Input'' [] [''data''],
         example_layer ''again'' ''Input'' [] [''data'']]\<rparr>"

text \<open>The state of the assembly of this description after its first layer.\<close>

definition duplicate_net :: Net where
  "duplicate_net =
     \<lparr>net_name = ''duplicate'',
      layers = [\<lparr>layer_type = ''Input'', layer_blobs = []\<rparr>],
      layer_names = [''data''],
      blobs = [new_Blob],
      blob_names = [''data''],
      blob_life_time = [1],
      bottom_id_vecs = [[], []],
      top_id_vecs = [[0], []],
      net_input_blob_indices = [0],
      blob_names_index = Map.empty,
      layer_names_index = Map.empty\<rparr>"

text \<open>
  The graph under assembly from the description without a split when the input of "a"
  is wired: the input layer is done and "a" is in the layer list.
\<close>

definition fanout_at_a :: Net where
  "fanout_at_a =
     \<lparr>net_name = ''fanout'',
      layers = [\<lparr>layer_type = ''Input'', layer_blobs = []\<rparr>,
                \<lparr>layer_type = ''ReLU'', layer_blobs = []\<rparr>],
      layer_names = [''data'', ''a''],
      blobs = [new_Blob],
      blob_names = [''data''],
      blob_life_time = [1],
      bottom_id_vecs = [[], [], []],
      top_id_vecs = [[0], [], []],
      net_input_blob_indices = [0],
      blob_names_index = Map.empty,
      layer_names_index = Map.empty\<rparr>"

section \<open>Properties of the rule evaluator\<close>

lemma has_stage_iff: "has_stage wanted ss \<longleftrightarrow> wanted \<in> set ss"
  by (induction ss) auto

lemma stage_loop_iff: "stage_loop state rs \<longleftrightarrow> set rs \<subseteq> set (ns_stage state)"
  by (induction rs) (auto simp: has_stage_iff)

lemma not_stage_loop_iff:
  "not_stage_loop state rs \<longleftrightarrow> set rs \<inter> set (ns_stage state) = {}"
  by (induction rs) (auto simp: has_stage_iff)

text \<open>
  C5.  For every context and every rule, StateMeetsRule returns true exactly when the
  rule's phase, if it has one, is the context's phase; the context's level is at least
  the rule's min level, if it has one, and at most its max level, if it has one; every
  stage the rule requires is among the context's stages; and no stage the rule forbids
  is among them.
\<close>

theorem StateMeetsRule_iff:
  "StateMeetsRule state rule layer_name \<longleftrightarrow>
     (case nsr_phase rule of None \<Rightarrow> True | Some p \<Rightarrow> p = ns_phase state) \<and>
     (case nsr_min_level rule of None \<Rightarrow> True | Some l \<Rightarrow> l \<le> ns_level state) \<and>
     (case nsr_max_level rule of None \<Rightarrow> True | Some l \<Rightarrow> ns_level state \<le> l) \<and>
     set (nsr_stage rule) \<subseteq> set (ns_stage state) \<and>
     set (nsr_not_stage rule) \<inter> set (ns_stage state) = {}"
  by (auto simp: StateMeetsRule_def stage_loop_iff not_stage_loop_iff split: option.splits)

text \<open>
  The two rules of section 8 of the specification, in the context with the one stage
  "test": requiring "train" is not met, forbidding "train" is met.
\<close>

theorem StateMeetsRule_iff_witness:
  "\<not> StateMeetsRule example_state (example_rule [''train''] []) ''layer'' \<and>
   StateMeetsRule example_state (example_rule [] [''train'']) ''layer''"
  using StateMeetsRule_iff[of example_state "example_rule [''train''] []" "''layer''"]
    StateMeetsRule_iff[of example_state "example_rule [] [''train'']" "''layer''"]
  by (simp add: example_state_def example_rule_def)

section \<open>Properties of the graph filter\<close>

lemma exclude_loop_iff:
  "exclude_loop st nm rs inc \<longleftrightarrow> inc \<and> \<not> (\<exists>r\<in>set rs. StateMeetsRule st r nm)"
  by (induction rs arbitrary: inc) auto

lemma include_loop_iff:
  "include_loop st nm rs inc \<longleftrightarrow> inc \<or> (\<exists>r\<in>set rs. StateMeetsRule st r nm)"
  by (induction rs arbitrary: inc) auto

lemma FilterNet_layer_eq:
  "FilterNet_layer st l acc =
     (if lp_include l \<noteq> [] \<and> lp_exclude l \<noteq> [] then Inl IncludeAndExclude
      else Inr (if (if lp_include l = []
                    then \<not> (\<exists>r\<in>set (lp_exclude l). StateMeetsRule st r (lp_name l))
                    else (\<exists>r\<in>set (lp_include l). StateMeetsRule st r (lp_name l)))
                then acc @ [l] else acc))"
  by (auto simp: FilterNet_layer_def Let_def exclude_loop_iff include_loop_iff)

lemma for_each_FilterNet_layer:
  "for_each (FilterNet_layer st) ls acc =
     (if \<exists>l\<in>set ls. lp_include l \<noteq> [] \<and> lp_exclude l \<noteq> [] then Inl IncludeAndExclude
      else Inr (acc @ filter (\<lambda>l. if lp_include l = []
                    then \<not> (\<exists>r\<in>set (lp_exclude l). StateMeetsRule st r (lp_name l))
                    else (\<exists>r\<in>set (lp_include l). StateMeetsRule st r (lp_name l))) ls))"
  by (induction ls arbitrary: acc) (auto simp: FilterNet_layer_eq)

text \<open>
  C6.  For every node list and context, FilterNet fails (the check "Specify either
  include rules or exclude rules; not both") when some node has both inclusion and
  exclusion rules.  Otherwise it returns the description with the node list filtered,
  in the original order: a node without inclusion rules (so also a node without any
  rule) is kept unless some exclusion rule is met, and a node with inclusion rules is
  kept exactly when some inclusion rule is met.
\<close>

theorem FilterNet_spec:
  "FilterNet param =
     (if \<exists>l\<in>set (np_layer param). lp_include l \<noteq> [] \<and> lp_exclude l \<noteq> []
      then Inl IncludeAndExclude
      else Inr (param\<lparr>np_layer :=
        filter (\<lambda>l. if lp_include l = []
                    then \<not> (\<exists>r\<in>set (lp_exclude l). StateMeetsRule (np_state param) r (lp_name l))
                    else (\<exists>r\<in>set (lp_include l). StateMeetsRule (np_state param) r (lp_name l)))
          (np_layer param)\<rparr>))"
  unfolding FilterNet_def Let_def for_each_FilterNet_layer by simp

text \<open>
  On the example the layers "a" and "c" are kept, in this order; with a layer that has
  both kinds of rules in front, the filter fails.
\<close>

theorem FilterNet_spec_witness:
  "FilterNet example_filter_param =
     Inr (example_filter_param\<lparr>np_layer :=
       [np_layer example_filter_param ! 0, np_layer example_filter_param ! 2]\<rparr>) \<and>
   FilterNet (example_filter_param\<lparr>np_layer :=
       \<lparr>lp_name = ''e'', lp_type = ''ReLU'', lp_bottom = [], lp_top = [],
        lp_include = [example_rule [] []], lp_exclude = [example_rule [] []],
        lp_blobs = []\<rparr> # np_layer example_filter_param\<rparr>) = Inl IncludeAndExclude"
  using FilterNet_spec[of example_filter_param]
    FilterNet_spec[of "example_filter_param\<lparr>np_layer :=
       \<lparr>lp_name = ''e'', lp_type = ''ReLU'', lp_bottom = [], lp_top = [],
        lp_include = [example_rule [] []], lp_exclude = [example_rule [] []],
        lp_blobs = []\<rparr> # np_layer example_filter_param\<rparr>"]
  by (simp add: example_filter_param_def example_state_def example_rule_def
      StateMeetsRule_def)

section \<open>Loops\<close>

lemma for_each_append:
  "for_each f (xs @ ys) s = (case for_each f xs s of Inl e \<Rightarrow> Inl e | Inr s' \<Rightarrow> for_each f ys s')"
  by (induction xs arbitrary: s) (auto split: sum.splits)

lemma for_each_invariant:
  assumes "for_each f xs s = Inr s'" and "P s"
    and "\<And>x t t'. x \<in> set xs \<Longrightarrow> P t \<Longrightarrow> f x t = Inr t' \<Longrightarrow> P t'"
  shows "P s'"
  using assms
proof (induction xs arbitrary: s)
  case Nil
  then show ?case by simp
next
  case (Cons x xs)
  from Cons.prems(1) obtain t where t: "f x s = Inr t" and r: "for_each f xs t = Inr s'"
    by (auto split: sum.splits)
  have "P t" using Cons.prems(3)[of x s t] Cons.prems(2) t by simp
  then show ?case using Cons.IH[OF r] Cons.prems(3) by auto
qed

lemma for_each_upt_invariant:
  assumes "for_each f [0..<n] s = Inr s'" and "P 0 s"
    and "\<And>k t t'. k < n \<Longrightarrow> P k t \<Longrightarrow> f k t = Inr t' \<Longrightarrow> P (Suc k) t'"
  shows "P n s'"
  using assms
proof (induction n arbitrary: s')
  case 0
  then show ?case by simp
next
  case (Suc n)
  from Suc.prems(1) obtain t where t: "for_each f [0..<n] s = Inr t" and t': "f n t = Inr s'"
    by (auto simp: for_each_append split: sum.splits)
  have "P n t"
    by (rule Suc.IH[OF t Suc.prems(2)]) (use Suc.prems(3) in auto)
  then show ?case using Suc.prems(3)[of n t s'] t' by simp
qed

section \<open>Properties of the assembly\<close>

subsection \<open>What a successful step has done\<close>

lemma AppendBottom_InrD:
  assumes "AppendBottom param L k (net, av, idx) = Inr (b, a')"
  shows "L < length (np_layer param) \<and> k < length (lp_bottom (np_layer param ! L)) \<and>
         lp_bottom (np_layer param ! L) ! k \<in> av \<and>
         b < length (blobs net) \<and> b < length (blob_life_time net) \<and>
         L < length (bottom_id_vecs net) \<and>
         b = fst (map_subscript idx (lp_bottom (np_layer param ! L) ! k)) \<and>
         a' = (net\<lparr>bottom_id_vecs := (bottom_id_vecs net)[L := bottom_id_vecs net ! L @ [b]],
                   blob_life_time := (blob_life_time net)[b := max (blob_life_time net ! b) L]\<rparr>,
               av - {lp_bottom (np_layer param ! L) ! k},
               snd (map_subscript idx (lp_bottom (np_layer param ! L) ! k)))"
  using assms
  by (auto simp: AppendBottom_def Let_def split: if_splits prod.splits)

lemma AppendTop_InrD:
  assumes "AppendTop param L k (net, av, idx) = Inr a'"
    and "k < length (lp_top (np_layer param ! L))"
  shows "L < length (np_layer param) \<and> L < length (top_id_vecs net) \<and>
    (let nm = lp_top (np_layer param ! L) ! k in
     if k < length (lp_bottom (np_layer param ! L)) \<and> nm = lp_bottom (np_layer param ! L) ! k
     then (let b = fst (map_subscript idx nm) in
        b < length (blobs net) \<and> b < length (blob_life_time net) \<and>
        a' = (net\<lparr>top_id_vecs := (top_id_vecs net)[L := top_id_vecs net ! L @ [b]],
                  blob_life_time := (blob_life_time net)[b := max (blob_life_time net ! b) (L + 1)]\<rparr>,
              insert nm av, snd (map_subscript idx nm)))
     else idx nm = None \<and>
        a' = (net\<lparr>blobs := blobs net @ [new_Blob],
                  blob_names := blob_names net @ [nm],
                  blob_life_time := blob_life_time net @ [L + 1],
                  top_id_vecs := (top_id_vecs net)[L := top_id_vecs net ! L @ [length (blobs net)]]\<rparr>,
              insert nm av, idx(nm \<mapsto> length (blobs net))))"
  using assms
  by (auto simp: AppendTop_def Let_def split: if_splits prod.splits)

subsection \<open>The wiring invariant\<close>

lemma life_update_mono:
  "b < length life \<Longrightarrow> n \<le> life ! b \<Longrightarrow> n \<le> (life[c := max (life ! c) m]) ! (b::nat)" for life :: "nat list"
  by (cases "b = c") auto

lemma wired_idx_Some:
  assumes "wired B T S (net, av, idx)" and "nm \<in> S"
  shows "\<exists>b. idx nm = Some b \<and> b < length (blob_names net) \<and> blob_names net ! b = nm \<and>
             map_subscript idx nm = (b, idx)"
proof -
  from assms have "nm \<in> set (blob_names net)" by (simp add: wired_def)
  then obtain b where b: "b < length (blob_names net)" "blob_names net ! b = nm"
    by (auto simp: in_set_conv_nth)
  with assms(1) have "idx nm = Some b" by (simp add: wired_def)
  with b show ?thesis by (simp add: map_subscript_def)
qed

lemma wired_AppendBottom:
  assumes w: "wired B T S (net, av, idx)"
    and ab: "AppendBottom param L k (net, av, idx) = Inr (b, a')"
  shows "wired (B(L := B L @ [lp_bottom (np_layer param ! L) ! k])) T S a'"
proof -
  let ?nm = "lp_bottom (np_layer param ! L) ! k"
  note d = AppendBottom_InrD[OF ab]
  from d have nm_av: "?nm \<in> av" by simp
  with w have nm_S: "?nm \<in> S" by (auto simp: wired_def)
  from wired_idx_Some[OF w nm_S] obtain c where
    c: "idx ?nm = Some c" "c < length (blob_names net)" "blob_names net ! c = ?nm"
      "map_subscript idx ?nm = (c, idx)" by blast
  from d c have bc: "b = c" by simp
  let ?net' = "net\<lparr>bottom_id_vecs := (bottom_id_vecs net)[L := bottom_id_vecs net ! L @ [b]],
                   blob_life_time := (blob_life_time net)[b := max (blob_life_time net ! b) L]\<rparr>"
  from d c have a': "a' = (?net', av - {?nm}, idx)" by simp
  from d have L: "L < length (bottom_id_vecs net)" by simp
  from w have len: "length (blob_life_time net) = length (blob_names net)" by (simp add: wired_def)
  have bot: "map ((!) (blob_names net)) (bottom_id_vecs ?net' ! i) =
               (B(L := B L @ [?nm])) i \<and>
             (\<forall>x\<in>set (bottom_id_vecs ?net' ! i).
                x < length (blob_names net) \<and> i \<le> blob_life_time ?net' ! x)"
    if i: "i < length (bottom_id_vecs net)" for i
  proof (cases "i = L")
    case True
    from w i have old: "map ((!) (blob_names net)) (bottom_id_vecs net ! L) = B L"
      "\<forall>x\<in>set (bottom_id_vecs net ! L). x < length (blob_names net) \<and> L \<le> blob_life_time net ! x"
      using True by (auto simp: wired_def)
    show ?thesis using True L old c bc len by (auto simp: life_update_mono)
  next
    case False
    from w i have old: "map ((!) (blob_names net)) (bottom_id_vecs net ! i) = B i"
      "\<forall>x\<in>set (bottom_id_vecs net ! i). x < length (blob_names net) \<and> i \<le> blob_life_time net ! x"
      by (auto simp: wired_def)
    show ?thesis using False L old len by (auto simp: life_update_mono)
  qed
  have top: "map ((!) (blob_names net)) (top_id_vecs ?net' ! i) = T i \<and>
             (\<forall>x\<in>set (top_id_vecs ?net' ! i).
                x < length (blob_names net) \<and> Suc i \<le> blob_life_time ?net' ! x)"
    if i: "i < length (bottom_id_vecs net)" for i
  proof -
    from w i have old: "map ((!) (blob_names net)) (top_id_vecs net ! i) = T i"
      "\<forall>x\<in>set (top_id_vecs net ! i). x < length (blob_names net) \<and> Suc i \<le> blob_life_time net ! x"
      by (auto simp: wired_def)
    show ?thesis using old len by (auto simp: life_update_mono)
  qed
  from w have rest: "length (blobs net) = length (blob_names net)"
    "length (top_id_vecs net) = length (bottom_id_vecs net)"
    "distinct (blob_names net)" "set (blob_names net) = S"
    "\<forall>name id. idx name = Some id \<longleftrightarrow> id < length (blob_names net) \<and> blob_names net ! id = name"
    "av \<subseteq> S"
    by (simp_all add: wired_def)
  show ?thesis
    unfolding a' wired_def prod.case
    using rest len bot top by (auto simp del: fun_upd_apply)
qed

lemma wired_bottom_names:
  assumes "wired B T S (net, av, idx)" and "L < length (bottom_id_vecs net)"
  shows "set (B L) \<subseteq> S"
proof -
  from assms have m: "map ((!) (blob_names net)) (bottom_id_vecs net ! L) = B L"
    and r: "\<forall>b\<in>set (bottom_id_vecs net ! L). b < length (blob_names net)"
    and S: "set (blob_names net) = S"
    by (auto simp: wired_def)
  have "set (map ((!) (blob_names net)) (bottom_id_vecs net ! L)) \<subseteq> set (blob_names net)"
    using r by auto
  with m S show ?thesis by simp
qed

lemma wired_AppendTop:
  assumes w: "wired B T S (net, av, idx)"
    and at: "AppendTop param L k (net, av, idx) = Inr a'"
    and k: "k < length (lp_top (np_layer param ! L))"
    and BL: "B L = lp_bottom (np_layer param ! L)"
  shows "wired B (T(L := T L @ [lp_top (np_layer param ! L) ! k]))
           (if k < length (lp_bottom (np_layer param ! L)) \<and>
               lp_top (np_layer param ! L) ! k = lp_bottom (np_layer param ! L) ! k
            then S else insert (lp_top (np_layer param ! L) ! k) S) a'"
proof -
  let ?nm = "lp_top (np_layer param ! L) ! k"
  let ?inplace = "k < length (lp_bottom (np_layer param ! L)) \<and>
                  ?nm = lp_bottom (np_layer param ! L) ! k"
  note d = AppendTop_InrD[OF at k]
  from d have L: "L < length (top_id_vecs net)" by simp
  from w have len: "length (blob_life_time net) = length (blob_names net)"
    and lenb: "length (blobs net) = length (blob_names net)"
    and lent: "length (top_id_vecs net) = length (bottom_id_vecs net)"
    and dist: "distinct (blob_names net)" and S: "set (blob_names net) = S"
    and idx: "\<forall>name id. idx name = Some id \<longleftrightarrow>
                id < length (blob_names net) \<and> blob_names net ! id = name"
    and av: "av \<subseteq> S"
    by (simp_all add: wired_def)
  have oldb: "map ((!) (blob_names net)) (bottom_id_vecs net ! i) = B i"
    "\<forall>x\<in>set (bottom_id_vecs net ! i). x < length (blob_names net) \<and> i \<le> blob_life_time net ! x"
    if "i < length (bottom_id_vecs net)" for i
    using w that by (auto simp: wired_def)
  have oldt: "map ((!) (blob_names net)) (top_id_vecs net ! i) = T i"
    "\<forall>x\<in>set (top_id_vecs net ! i). x < length (blob_names net) \<and> Suc i \<le> blob_life_time net ! x"
    if "i < length (bottom_id_vecs net)" for i
    using w that by (auto simp: wired_def)
  show ?thesis
  proof (cases ?inplace)
    case True
    with BL have "?nm \<in> set (B L)" by (metis nth_mem)
    with wired_bottom_names[OF w] L lent have nm_S: "?nm \<in> S" by auto
    from wired_idx_Some[OF w nm_S] obtain c where
      c: "idx ?nm = Some c" "c < length (blob_names net)" "blob_names net ! c = ?nm"
        "map_subscript idx ?nm = (c, idx)" by blast
    let ?net' = "net\<lparr>top_id_vecs := (top_id_vecs net)[L := top_id_vecs net ! L @ [c]],
                     blob_life_time := (blob_life_time net)[c := max (blob_life_time net ! c) (L + 1)]\<rparr>"
    from d True c have a': "a' = (?net', insert ?nm av, idx)" by (simp add: Let_def)
    have bot: "map ((!) (blob_names net)) (bottom_id_vecs ?net' ! i) = B i \<and>
               (\<forall>x\<in>set (bottom_id_vecs ?net' ! i).
                  x < length (blob_names net) \<and> i \<le> blob_life_time ?net' ! x)"
      if i: "i < length (bottom_id_vecs net)" for i
      using oldb[OF i] len by (auto simp: life_update_mono)
    have top: "map ((!) (blob_names net)) (top_id_vecs ?net' ! i) =
                 (T(L := T L @ [?nm])) i \<and>
               (\<forall>x\<in>set (top_id_vecs ?net' ! i).
                  x < length (blob_names net) \<and> Suc i \<le> blob_life_time ?net' ! x)"
      if i: "i < length (bottom_id_vecs net)" for i
    proof (cases "i = L")
      case True
      show ?thesis using True L oldt[OF i] c len by (auto simp: life_update_mono)
    next
      case False
      show ?thesis using False L oldt[OF i] len by (auto simp: life_update_mono)
    qed
    show ?thesis
      unfolding a' wired_def prod.case
      using True len lenb lent dist S idx av nm_S bot top by (auto simp del: fun_upd_apply)
  next
    case False
    let ?net' = "net\<lparr>blobs := blobs net @ [new_Blob],
                  blob_names := blob_names net @ [?nm],
                  blob_life_time := blob_life_time net @ [L + 1],
                  top_id_vecs := (top_id_vecs net)[L := top_id_vecs net ! L @ [length (blobs net)]]\<rparr>"
    from d False have none: "idx ?nm = None"
      and a': "a' = (?net', insert ?nm av, idx(?nm \<mapsto> length (blobs net)))"
      by (auto simp: Let_def)
    have fresh: "?nm \<notin> set (blob_names net)"
    proof
      assume "?nm \<in> set (blob_names net)"
      then obtain c where "c < length (blob_names net)" "blob_names net ! c = ?nm"
        by (auto simp: in_set_conv_nth)
      with idx have "idx ?nm = Some c" by blast
      with none show False by simp
    qed
    have bot: "map ((!) (blob_names net @ [?nm])) (bottom_id_vecs ?net' ! i) = B i \<and>
               (\<forall>x\<in>set (bottom_id_vecs ?net' ! i).
                  x < length (blob_names net @ [?nm]) \<and> i \<le> blob_life_time ?net' ! x)"
      if i: "i < length (bottom_id_vecs net)" for i
    proof -
      have "map ((!) (blob_names net @ [?nm])) (bottom_id_vecs net ! i) =
            map ((!) (blob_names net)) (bottom_id_vecs net ! i)"
        using oldb(2)[OF i] by (auto simp: nth_append)
      with oldb(1)[OF i]
      have eq: "map ((!) (blob_names net @ [?nm])) (bottom_id_vecs net ! i) = B i" by simp
      show ?thesis using eq oldb(2)[OF i] len by (auto simp: nth_append)
    qed
    have top: "map ((!) (blob_names net @ [?nm])) (top_id_vecs ?net' ! i) =
                 (T(L := T L @ [?nm])) i \<and>
               (\<forall>x\<in>set (top_id_vecs ?net' ! i).
                  x < length (blob_names net @ [?nm]) \<and> Suc i \<le> blob_life_time ?net' ! x)"
      if i: "i < length (bottom_id_vecs net)" for i
    proof -
      have "map ((!) (blob_names net @ [?nm])) (top_id_vecs net ! i) =
            map ((!) (blob_names net)) (top_id_vecs net ! i)"
        using oldt(2)[OF i] by (auto simp: nth_append)
      with oldt(1)[OF i]
      have eq: "map ((!) (blob_names net @ [?nm])) (top_id_vecs net ! i) = T i" by simp
      show ?thesis
      proof (cases "i = L")
        case True
        show ?thesis using True L eq oldt(2)[OF i] len lenb by (auto simp: nth_append)
      next
        case False
        show ?thesis using False L eq oldt(2)[OF i] len by (auto simp: nth_append)
      qed
    qed
    have idx': "\<forall>name id. (idx(?nm \<mapsto> length (blobs net))) name = Some id \<longleftrightarrow>
                id < length (blob_names net @ [?nm]) \<and> (blob_names net @ [?nm]) ! id = name"
    proof -
      have fresh': "blob_names net ! id \<noteq> ?nm" if "id < length (blob_names net)" for id
        using fresh that by (metis nth_mem)
      show ?thesis using idx fresh' lenb by (auto simp: nth_append less_Suc_eq)
    qed
    show ?thesis
      unfolding a' wired_def prod.case
      using False len lenb lent dist S av fresh bot top idx'
      by (auto simp del: fun_upd_apply)
  qed
qed

subsection \<open>The invariant of the available names\<close>

lemma consumed_AppendBottom:
  assumes c: "consumed_once B T av"
    and ab: "AppendBottom param L k (net, av, idx) = Inr (b, net', av', idx')"
    and sB: "\<forall>i>L. B i = []" and sT: "\<forall>i\<ge>L. T i = []"
  shows "consumed_once (B(L := B L @ [lp_bottom (np_layer param ! L) ! k])) T av'"
proof -
  let ?nm = "lp_bottom (np_layer param ! L) ! k"
  let ?B = "B(L := B L @ [?nm])"
  from AppendBottom_InrD[OF ab] have nm: "?nm \<in> av" and av': "av' = av - {?nm}" by simp_all
  from c have J: "\<And>i nm. nm \<in> set (B i) \<Longrightarrow> \<forall>i'\<ge>i. nm \<notin> set (T i') \<Longrightarrow> nm \<notin> av"
    and K: "\<And>i1 k1 i2 k2. k1 < length (B i1) \<Longrightarrow> k2 < length (B i2) \<Longrightarrow>
              B i1 ! k1 = B i2 ! k2 \<Longrightarrow> i1 < i2 \<or> (i1 = i2 \<and> k1 < k2) \<Longrightarrow>
              \<exists>i. i1 \<le> i \<and> i < i2 \<and> B i1 ! k1 \<in> set (T i)"
    unfolding consumed_once_def by blast+
  have J': "nm \<notin> av'" if "nm \<in> set (?B i)" "\<forall>i'\<ge>i. nm \<notin> set (T i')" for i nm
  proof (cases "nm = ?nm")
    case True
    then show ?thesis by (simp add: av')
  next
    case False
    with that(1) have "nm \<in> set (B i)" by (auto split: if_splits)
    from J[OF this that(2)] show ?thesis by (simp add: av')
  qed
  have K': "\<exists>i. i1 \<le> i \<and> i < i2 \<and> ?B i1 ! k1 \<in> set (T i)"
    if k1: "k1 < length (?B i1)" and k2: "k2 < length (?B i2)"
      and eq: "?B i1 ! k1 = ?B i2 ! k2" and ord: "i1 < i2 \<or> (i1 = i2 \<and> k1 < k2)"
    for i1 k1 i2 k2
  proof -
    have i2L: "i2 \<le> L"
    proof (rule ccontr)
      assume "\<not> i2 \<le> L"
      with sB k2 show False by simp
    qed
    have old1: "k1 < length (B i1)"
      using k1 k2 ord i2L by (auto split: if_splits)
    then have n1: "?B i1 ! k1 = B i1 ! k1" by (cases "i1 = L") (simp_all add: nth_append)
    show ?thesis
    proof (cases "i2 = L \<and> k2 = length (B L)")
      case False
      with k2 have old2: "k2 < length (B i2)" by (auto split: if_splits)
      then have "?B i2 ! k2 = B i2 ! k2" by (cases "i2 = L") (simp_all add: nth_append)
      with K[OF old1 old2 _ ord] eq n1 show ?thesis by simp
    next
      case True
      with eq n1 have is_nm: "B i1 ! k1 = ?nm" by simp
      with old1 have mem: "?nm \<in> set (B i1)" by (metis nth_mem)
      from J[OF mem] nm obtain i' where i': "i' \<ge> i1" "?nm \<in> set (T i')" by blast
      from i'(2) sT have "i' < L" by (cases "i' < L") auto
      with i' True is_nm n1 show ?thesis by auto
    qed
  qed
  from J' K' show ?thesis unfolding consumed_once_def by blast
qed

lemma consumed_AppendTop:
  assumes c: "consumed_once B T av"
    and at: "AppendTop param L k (net, av, idx) = Inr (net', av', idx')"
    and k: "k < length (lp_top (np_layer param ! L))"
    and sB: "\<forall>i>L. B i = []"
  shows "consumed_once B (T(L := T L @ [lp_top (np_layer param ! L) ! k])) av'"
proof -
  let ?nm = "lp_top (np_layer param ! L) ! k"
  let ?T = "T(L := T L @ [?nm])"
  from AppendTop_InrD[OF at k] have av': "av' = insert ?nm av"
    by (auto simp: Let_def split: if_splits)
  from c have J: "\<And>i nm. nm \<in> set (B i) \<Longrightarrow> \<forall>i'\<ge>i. nm \<notin> set (T i') \<Longrightarrow> nm \<notin> av"
    and K: "\<And>i1 k1 i2 k2. k1 < length (B i1) \<Longrightarrow> k2 < length (B i2) \<Longrightarrow>
              B i1 ! k1 = B i2 ! k2 \<Longrightarrow> i1 < i2 \<or> (i1 = i2 \<and> k1 < k2) \<Longrightarrow>
              \<exists>i. i1 \<le> i \<and> i < i2 \<and> B i1 ! k1 \<in> set (T i)"
    unfolding consumed_once_def by blast+
  have sub: "set (T i) \<subseteq> set (?T i)" for i by auto
  have J': "nm \<notin> av'" if mem: "nm \<in> set (B i)" and no: "\<forall>i'\<ge>i. nm \<notin> set (?T i')" for i nm
  proof -
    have iL: "i \<le> L"
    proof (rule ccontr)
      assume "\<not> i \<le> L"
      with sB mem show False by simp
    qed
    with no have "nm \<notin> set (?T L)" by blast
    then have ne: "nm \<noteq> ?nm" by auto
    from no sub have "\<forall>i'\<ge>i. nm \<notin> set (T i')" by blast
    from J[OF mem this] ne show ?thesis by (simp add: av')
  qed
  have K': "\<exists>i. i1 \<le> i \<and> i < i2 \<and> B i1 ! k1 \<in> set (?T i)"
    if "k1 < length (B i1)" "k2 < length (B i2)" "B i1 ! k1 = B i2 ! k2"
      "i1 < i2 \<or> (i1 = i2 \<and> k1 < k2)" for i1 k1 i2 k2
    using K[OF that] sub by blast
  from J' K' show ?thesis unfolding consumed_once_def by blast
qed

lemma consumed_once_init: "consumed_once (\<lambda>i. []) (\<lambda>i. []) {}"
  by (simp add: consumed_once_def)

lemma new_tops_Suc:
  "new_tops lp (Suc k) =
     (if k < length (lp_bottom lp) \<and> lp_top lp ! k = lp_bottom lp ! k
      then new_tops lp k else insert (lp_top lp ! k) (new_tops lp k))"
  by (auto simp: new_tops_def less_Suc_eq)

lemma new_tops_0: "new_tops lp 0 = {}"
  by (simp add: new_tops_def)

lemma AppendBottom_frame:
  assumes "AppendBottom param L k (net, av, idx) = Inr (b, net', av', idx')"
  shows "layers net' = layers net \<and> layer_names net' = layer_names net \<and>
         length (bottom_id_vecs net') = length (bottom_id_vecs net) \<and>
         net_name net' = net_name net \<and>
         blob_names_index net' = blob_names_index net \<and>
         layer_names_index net' = layer_names_index net"
  using AppendBottom_InrD[OF assms] by simp

lemma AppendTop_frame:
  assumes "AppendTop param L k (net, av, idx) = Inr (net', av', idx')"
  shows "layers net' = layers net \<and> layer_names net' = layer_names net \<and>
         bottom_id_vecs net' = bottom_id_vecs net \<and>
         net_name net' = net_name net \<and>
         blob_names_index net' = blob_names_index net \<and>
         layer_names_index net' = layer_names_index net"
  using assms
  by (auto simp: AppendTop_def Let_def split: if_splits prod.splits)

lemma wired_net_input [simp]:
  "wired B T S (net\<lparr>net_input_blob_indices := x\<rparr>, av, idx) = wired B T S (net, av, idx)"
  by (simp add: wired_def)

lemma wired_layers [simp]:
  "wired B T S (net\<lparr>layers := x, layer_names := y\<rparr>, av, idx) = wired B T S (net, av, idx)"
  by (simp add: wired_def)

lemma Init_bottom_step:
  assumes "in_layer net0 (B(L := take k (lp_bottom (np_layer param ! L)))) T S a"
    and "Init_bottom param L k a = Inr a'"
    and sB: "\<forall>i>L. B i = []" and sT: "\<forall>i\<ge>L. T i = []"
  shows "in_layer net0 (B(L := take (Suc k) (lp_bottom (np_layer param ! L)))) T S a'"
proof -
  obtain net av idx where a: "a = (net, av, idx)" by (cases a)
  from assms(2) obtain b where ab: "AppendBottom param L k (net, av, idx) = Inr (b, a')"
    by (auto simp: Init_bottom_def a split: sum.splits)
  obtain net' av' idx' where a': "a' = (net', av', idx')" by (cases a')
  note d = AppendBottom_InrD[OF ab]
  from d have k: "k < length (lp_bottom (np_layer param ! L))" by simp
  from assms(1) have w: "wired (B(L := take k (lp_bottom (np_layer param ! L)))) T S (net, av, idx)"
    by (simp add: in_layer_def a)
  have "wired (B(L := take (Suc k) (lp_bottom (np_layer param ! L)))) T S a'"
    using wired_AppendBottom[OF w ab] k by (simp add: take_Suc_conv_app_nth)
  moreover from assms(1)
  have "consumed_once (B(L := take k (lp_bottom (np_layer param ! L)))) T av"
    by (simp add: in_layer_def a)
  from consumed_AppendBottom[OF this ab[unfolded a'] _ sT] sB k
  have "consumed_once (B(L := take (Suc k) (lp_bottom (np_layer param ! L)))) T av'"
    by (simp add: take_Suc_conv_app_nth)
  moreover note AppendBottom_frame[OF ab[unfolded a']]
  ultimately show ?thesis using assms(1) by (simp add: in_layer_def a a')
qed

lemma Init_top_step:
  assumes "in_layer net0 B (T(L := take k (lp_top (np_layer param ! L))))
             (S \<union> new_tops (np_layer param ! L) k) a"
    and "Init_top param L k a = Inr a'"
    and k: "k < length (lp_top (np_layer param ! L))"
    and BL: "B L = lp_bottom (np_layer param ! L)"
    and sB: "\<forall>i>L. B i = []"
  shows "in_layer net0 B (T(L := take (Suc k) (lp_top (np_layer param ! L))))
             (S \<union> new_tops (np_layer param ! L) (Suc k)) a'"
proof -
  obtain net av idx where a: "a = (net, av, idx)" by (cases a)
  from assms(2) obtain net1 av1 idx1 where
    at: "AppendTop param L k (net, av, idx) = Inr (net1, av1, idx1)"
    and a': "a' = (net1, av1, idx1) \<or>
             a' = (net1\<lparr>net_input_blob_indices := net_input_blob_indices net1 @ [length (blobs net1) - 1]\<rparr>, av1, idx1)"
    by (auto simp: Init_top_def a Let_def split: sum.splits if_splits)
  let ?T = "T(L := take k (lp_top (np_layer param ! L)))"
  from assms(1) have w: "wired B ?T (S \<union> new_tops (np_layer param ! L) k) (net, av, idx)"
    by (simp add: in_layer_def a)
  have "wired B (?T(L := ?T L @ [lp_top (np_layer param ! L) ! k]))
          (if k < length (lp_bottom (np_layer param ! L)) \<and>
              lp_top (np_layer param ! L) ! k = lp_bottom (np_layer param ! L) ! k
           then S \<union> new_tops (np_layer param ! L) k
           else insert (lp_top (np_layer param ! L) ! k) (S \<union> new_tops (np_layer param ! L) k))
          (net1, av1, idx1)"
    by (rule wired_AppendTop[OF w at k BL])
  then have w1: "wired B (T(L := take (Suc k) (lp_top (np_layer param ! L))))
             (S \<union> new_tops (np_layer param ! L) (Suc k)) (net1, av1, idx1)"
    using k by (auto simp: take_Suc_conv_app_nth new_tops_Suc split: if_splits)
  note f = AppendTop_frame[OF at]
  from assms(1) have "consumed_once B ?T av" by (simp add: in_layer_def a)
  from consumed_AppendTop[OF this at k sB] k
  have c1: "consumed_once B (T(L := take (Suc k) (lp_top (np_layer param ! L)))) av1"
    by (simp add: take_Suc_conv_app_nth)
  from a' show ?thesis
    using w1 c1 f assms(1) by (auto simp: in_layer_def a)
qed

lemma Init_layer_step:
  assumes L: "L < length (np_layer param)"
    and inv: "assembled_upto CL (np_layer param) L a"
    and step: "Init_layer CL param L a = Inr a'"
  shows "assembled_upto CL (np_layer param) (Suc L) a'"
proof -
  let ?ls = "np_layer param"
  let ?lp = "?ls ! L"
  let ?B = "\<lambda>i. if i < L then lp_bottom (?ls ! i) else []"
  let ?T = "\<lambda>i. if i < L then lp_top (?ls ! i) else []"
  let ?S = "\<Union>i<L. new_tops (?ls ! i) (length (lp_top (?ls ! i)))"
  obtain net av idx where a: "a = (net, av, idx)" by (cases a)
  let ?net1 = "net\<lparr>layers := layers net @ [CL ?lp],
                    layer_names := layer_names net @ [lp_name ?lp]\<rparr>"
  from step obtain a1 where
    bots: "for_each (Init_bottom param L) [0..<length (lp_bottom ?lp)] (?net1, av, idx) = Inr a1"
    and tops: "for_each (Init_top param L) [0..<length (lp_top ?lp)] a1 = Inr a'"
    by (auto simp: Init_layer_def a Let_def split: sum.splits)
  from inv have w: "wired ?B ?T ?S (net, av, idx)"
    and co: "consumed_once ?B ?T av"
    and fr: "layers net = map CL (take L ?ls)" "layer_names net = map lp_name (take L ?ls)"
      "length (bottom_id_vecs net) = length ?ls"
      "blob_names_index net = Map.empty" "layer_names_index net = Map.empty"
    by (simp_all add: assembled_upto_def a)
  have B0: "?B(L := take 0 (lp_bottom ?lp)) = ?B" by auto
  have "in_layer ?net1 (?B(L := take 0 (lp_bottom ?lp))) ?T ?S (?net1, av, idx)"
    unfolding B0 using w co by (simp add: in_layer_def)
  then have "in_layer ?net1 (?B(L := take (length (lp_bottom ?lp)) (lp_bottom ?lp))) ?T ?S a1"
    by (rule for_each_upt_invariant[OF bots, where P = "\<lambda>k. in_layer ?net1 (?B(L := take k (lp_bottom ?lp))) ?T ?S"])
       (rule Init_bottom_step, simp_all)
  then have i1: "in_layer ?net1 (?B(L := lp_bottom ?lp)) ?T ?S a1" by simp
  let ?B' = "?B(L := lp_bottom ?lp)"
  have T0: "?T(L := take 0 (lp_top ?lp)) = ?T" by auto
  have "in_layer ?net1 ?B' (?T(L := take 0 (lp_top ?lp))) (?S \<union> new_tops ?lp 0) a1"
    unfolding T0 using i1 by (simp add: new_tops_0)
  then have "in_layer ?net1 ?B' (?T(L := take (length (lp_top ?lp)) (lp_top ?lp)))
               (?S \<union> new_tops ?lp (length (lp_top ?lp))) a'"
    by (rule for_each_upt_invariant[OF tops, where P = "\<lambda>k. in_layer ?net1 ?B' (?T(L := take k (lp_top ?lp))) (?S \<union> new_tops ?lp k)"])
       (rule Init_top_step, simp_all)
  then have i2: "in_layer ?net1 ?B' (?T(L := lp_top ?lp))
               (?S \<union> new_tops ?lp (length (lp_top ?lp))) a'" by simp
  have B': "?B' = (\<lambda>i. if i < Suc L then lp_bottom (?ls ! i) else [])"
    by (auto simp: less_Suc_eq)
  have T': "?T(L := lp_top ?lp) = (\<lambda>i. if i < Suc L then lp_top (?ls ! i) else [])"
    by (auto simp: less_Suc_eq)
  have S': "?S \<union> new_tops ?lp (length (lp_top ?lp)) =
            (\<Union>i<Suc L. new_tops (?ls ! i) (length (lp_top (?ls ! i))))"
    by (auto simp: less_Suc_eq)
  obtain net' av' idx' where a': "a' = (net', av', idx')" by (cases a')
  from i2 show ?thesis
    unfolding B' T' S' assembled_upto_def in_layer_def a'
    using fr L by (simp add: take_Suc_conv_app_nth)
qed

lemma assembled_upto_init:
  "assembled_upto CL ls 0
     (empty_Net\<lparr>net_name := nm, bottom_id_vecs := replicate (length ls) [],
                top_id_vecs := replicate (length ls) []\<rparr>, {}, Map.empty)"
  by (simp add: assembled_upto_def wired_def empty_Net_def consumed_once_init)

lemma Init_layers_assembled:
  assumes "for_each (Init_layer CL param) [0..<length (np_layer param)]
             (empty_Net\<lparr>net_name := nm, bottom_id_vecs := replicate (length (np_layer param)) [],
                top_id_vecs := replicate (length (np_layer param)) []\<rparr>, {}, Map.empty) = Inr a"
  shows "assembled_upto CL (np_layer param) (length (np_layer param)) a"
  by (rule for_each_upt_invariant[OF assms, where P = "assembled_upto CL (np_layer param)"])
     (rule assembled_upto_init, rule Init_layer_step)

subsection \<open>The end of Init\<close>

lemma wired_index [simp]:
  "wired B T S (net\<lparr>blob_names_index := x, layer_names_index := y\<rparr>, av, idx) =
   wired B T S (net, av, idx)"
  by (simp add: wired_def)

lemma wired_pin:
  assumes w: "wired B T S (net, av, idx)"
    and n: "length (bottom_id_vecs net) \<le> n"
    and c: "c < length (blob_life_time net)"
  shows "wired B T S (net\<lparr>blob_life_time := (blob_life_time net)[c := n]\<rparr>, av, idx)"
proof -
  have mono: "m \<le> (blob_life_time net)[c := n] ! b"
    if "m \<le> blob_life_time net ! b" "b < length (blob_names net)" "m \<le> n" for m b
    using that c by (cases "b = c") auto
  have mono': "m < (blob_life_time net)[c := n] ! b"
    if "m < blob_life_time net ! b" "b < length (blob_names net)" "m < n" for m b
    using that c by (cases "b = c") auto
  from w n show ?thesis
    unfolding wired_def prod.case
    by (auto intro!: mono mono')
qed

lemma pin_blob_assembled:
  assumes "assembled CL ls net" and "pin_blob b net = Inr net'"
  shows "assembled CL ls net'"
proof -
  from assms(2) have b: "b < length (blob_life_time net)"
    and net': "net' = net\<lparr>blob_life_time := (blob_life_time net)[b := length (layers net)]\<rparr>"
    by (auto simp: pin_blob_def split: if_splits)
  from assms(1) obtain av idx where
    w: "wired (\<lambda>i. if i < length ls then lp_bottom (ls ! i) else [])
              (\<lambda>i. if i < length ls then lp_top (ls ! i) else [])
              (\<Union>i<length ls. new_tops (ls ! i) (length (lp_top (ls ! i)))) (net, av, idx)"
    and co: "consumed_once (\<lambda>i. if i < length ls then lp_bottom (ls ! i) else [])
              (\<lambda>i. if i < length ls then lp_top (ls ! i) else []) av"
    and fr: "layers net = map CL ls" "layer_names net = map lp_name ls"
      "length (bottom_id_vecs net) = length ls"
    by (auto simp: assembled_def)
  have "length (bottom_id_vecs net) \<le> length (layers net)" using fr by simp
  from wired_pin[OF w this b] co fr show ?thesis
    unfolding net' assembled_def by auto
qed

lemma pin_blob_frame:
  assumes "pin_blob b net = Inr net'"
  shows "blob_names_index net' = blob_names_index net \<and>
         layer_names_index net' = layer_names_index net \<and>
         blob_names net' = blob_names net \<and> layer_names net' = layer_names net"
  using assms by (auto simp: pin_blob_def split: if_splits)

lemma for_each_pin_assembled:
  assumes "for_each pin_blob bs net = Inr net'" and "assembled CL ls net"
  shows "assembled CL ls net' \<and> blob_names_index net' = blob_names_index net \<and>
         layer_names_index net' = layer_names_index net"
  by (rule for_each_invariant[OF assms(1), where
        P = "\<lambda>n. assembled CL ls n \<and> blob_names_index n = blob_names_index net \<and>
                 layer_names_index n = layer_names_index net"])
     (use assms(2) pin_blob_assembled pin_blob_frame in auto)

lemma assembled_index [simp]:
  "assembled CL ls (net\<lparr>blob_names_index := x, layer_names_index := y\<rparr>) = assembled CL ls net"
  by (simp add: assembled_def)

lemma Init_InrD:
  assumes "Init IS CL p = Inr net"
  shows "\<exists>fp. ns_phase (np_state p) = TEST \<and> FilterNet p = Inr fp \<and>
           np_layer (IS fp) \<noteq> [] \<and>
           assembled CL (np_layer (IS fp)) net \<and>
           layer_type (layers net ! 0) = ''Input'' \<and>
           blob_names_index net = build_index (blob_names net) Map.empty \<and>
           layer_names_index net = build_index (layer_names net) Map.empty"
proof -
  from assms have ph: "ns_phase (np_state p) = TEST"
    by (auto simp: Init_def split: if_splits)
  from assms ph obtain fp where fp: "FilterNet p = Inr fp"
    by (auto simp: Init_def split: sum.splits)
  let ?ls = "np_layer (IS fp)"
  let ?n0 = "empty_Net\<lparr>net_name := np_name (IS fp),
               bottom_id_vecs := replicate (length ?ls) [],
               top_id_vecs := replicate (length ?ls) []\<rparr>"
  from assms ph fp obtain net1 av idx net2 where
    loop: "for_each (Init_layer CL (IS fp)) [0..<length ?ls] (?n0, {}, Map.empty) =
             Inr (net1, av, idx)"
    and ne: "layers net1 \<noteq> []"
    and ty: "layer_type (layers net1 ! 0) = ''Input''"
    and pins: "for_each pin_blob (top_id_vecs net1 ! 0) net1 = Inr net2"
    and net: "net = net2\<lparr>blob_names_index := build_index (blob_names net2) (blob_names_index net2),
                         layer_names_index := build_index (layer_names net2) (layer_names_index net2)\<rparr>"
    by (auto simp: Init_def Let_def split: sum.splits if_splits)
  from Init_layers_assembled[OF loop]
  have up: "assembled_upto CL ?ls (length ?ls) (net1, av, idx)" .
  then have as1: "assembled CL ?ls net1"
    and ix1: "blob_names_index net1 = Map.empty" "layer_names_index net1 = Map.empty"
    unfolding assembled_upto_def assembled_def by auto
  from for_each_pin_assembled[OF pins as1] ix1
  have as2: "assembled CL ?ls net2"
    and ix2: "blob_names_index net2 = Map.empty" "layer_names_index net2 = Map.empty"
    by simp_all
  from as1 ne have ls: "?ls \<noteq> []" by (auto simp: assembled_def)
  from as1 as2 have "layers net2 = layers net1" by (simp add: assembled_def)
  with ty have ty2: "layer_type (layers net2 ! 0) = ''Input''" by simp
  show ?thesis
    using ph fp ls as2 ix2 ty2 unfolding net by (intro exI[of _ fp]) simp
qed

section \<open>Properties of the executor\<close>

lemma release_loop:
  assumes "\<forall>b\<in>set bs. b < length (blobs net) \<and> b < length (blob_life_time net)"
  shows "for_each (release_bottom net i) bs calls =
           Inr (calls @ map BlobRelease (filter (\<lambda>b. blob_life_time net ! b \<le> i) bs))"
  using assms by (induction bs arbitrary: calls) (auto simp: release_bottom_def)

lemma ForwardFromTo_layer_ready:
  assumes "forward_ready net" and "i < length (layers net)"
  shows "ForwardFromTo_layer net i calls = Inr (calls @ layer_calls net i)"
proof -
  from assms have "\<forall>b\<in>set (bottom_id_vecs net ! i).
      b < length (blobs net) \<and> b < length (blob_life_time net)"
    by (auto simp: forward_ready_def)
  from release_loop[OF this] assms show ?thesis
    by (simp add: ForwardFromTo_layer_def forward_ready_def layer_calls_def)
qed

lemma forward_loop:
  assumes "forward_ready net" and "\<forall>i\<in>set is. i < length (layers net)"
  shows "for_each (ForwardFromTo_layer net) is calls =
           Inr (calls @ concat (map (layer_calls net) is))"
  using assms(2)
  by (induction "is" arbitrary: calls) (simp_all add: ForwardFromTo_layer_ready[OF assms(1)])

lemma ForwardFromTo_ready:
  assumes "forward_ready net" and "0 \<le> start" and "0 \<le> end" and "end < int (length (layers net))"
  shows "ForwardFromTo net start end =
           Inr (concat (map (layer_calls net) [nat start..<Suc (nat end)]))"
proof -
  have "\<forall>i\<in>set [nat start..<Suc (nat end)]. i < length (layers net)"
    using assms by auto
  from forward_loop[OF assms(1) this, of "[]"] assms show ?thesis
    by (simp add: ForwardFromTo_def)
qed

lemma layer_calls_not_Forward_head:
  "concat (map (layer_calls net) is) \<noteq> LayerForward j # post"
  by (cases "is") (simp_all add: layer_calls_def)

lemma Forward_in_calls:
  "LayerForward j \<in> set (concat (map (layer_calls net) is)) \<Longrightarrow> j \<in> set is"
  by (auto simp: layer_calls_def)

lemma Release_in_layer_calls:
  "BlobRelease b \<in> set (layer_calls net i) \<longleftrightarrow>
     b \<in> set (bottom_id_vecs net ! i) \<and> blob_life_time net ! b \<le> i"
  by (auto simp: layer_calls_def)

lemma layer_calls_split:
  assumes "layer_calls net i = pre @ LayerForward j # us"
  shows "pre = [ScopeStart (layer_names net ! i)] \<and> j = i"
  using assms
  by (auto simp: layer_calls_def append_eq_Cons_conv Cons_eq_append_conv
      map_eq_append_conv)

lemma release_before_forward:
  assumes "concat (map (layer_calls net) is) = pre @ LayerForward j # post"
    and "sorted_wrt (<) is" and "BlobRelease b \<in> set pre"
  shows "\<exists>i\<in>set is. i < j \<and> b \<in> set (bottom_id_vecs net ! i) \<and> blob_life_time net ! b \<le> i"
  using assms
proof (induction "is" arbitrary: pre)
  case Nil
  then show ?case by simp
next
  case (Cons i0 rest)
  let ?C = "concat (map (layer_calls net) rest)"
  from Cons.prems(1) have "layer_calls net i0 @ ?C = pre @ LayerForward j # post" by simp
  then obtain us where
    "(layer_calls net i0 = pre @ us \<and> us @ ?C = LayerForward j # post) \<or>
     (layer_calls net i0 @ us = pre \<and> ?C = us @ LayerForward j # post)"
    by (auto simp: append_eq_append_conv2)
  then show ?case
  proof
    assume h: "layer_calls net i0 = pre @ us \<and> us @ ?C = LayerForward j # post"
    show ?thesis
    proof (cases us)
      case Nil
      with h layer_calls_not_Forward_head show ?thesis by auto
    next
      case (Cons u us')
      with h have "layer_calls net i0 = pre @ LayerForward j # us'" by simp
      from layer_calls_split[OF this] Cons.prems(3) show ?thesis by simp
    qed
  next
    assume h: "layer_calls net i0 @ us = pre \<and> ?C = us @ LayerForward j # post"
    then have "LayerForward j \<in> set ?C" by simp
    then have jr: "j \<in> set rest" by (rule Forward_in_calls)
    with Cons.prems(2) have i0j: "i0 < j" by auto
    from h Cons.prems(3) have "BlobRelease b \<in> set (layer_calls net i0) \<or> BlobRelease b \<in> set us"
      by auto
    then show ?thesis
    proof
      assume "BlobRelease b \<in> set (layer_calls net i0)"
      with i0j show ?thesis by (auto simp: Release_in_layer_calls)
    next
      assume r: "BlobRelease b \<in> set us"
      from h have "?C = us @ LayerForward j # post" by simp
      from Cons.IH[OF this _ r] Cons.prems(2) show ?thesis by auto
    qed
  qed
qed

lemma assembled_forward_ready:
  assumes "assembled CL ls net"
  shows "forward_ready net"
  using assms
  unfolding assembled_def forward_ready_def wired_def prod.case
  by (auto simp: Ball_def)

lemma MarkOutputs_name_ready:
  assumes "forward_ready net" and "MarkOutputs_name nm net = Inr net'"
  shows "forward_ready net'"
proof -
  from assms(2) obtain c where c: "c < length (blob_life_time net)"
    and net': "net' = net\<lparr>blob_life_time := (blob_life_time net)[c := length (layers net)]\<rparr>"
    by (auto simp: MarkOutputs_name_def split: option.splits if_splits)
  have "i \<le> (blob_life_time net)[c := length (layers net)] ! b"
    if "i \<le> blob_life_time net ! b" "i < length (layers net)" for i b
    using that c by (cases "b = c") auto
  with assms(1) show ?thesis
    unfolding net' forward_ready_def by simp
qed

lemma MarkOutputs_ready:
  assumes "MarkOutputs net outs = Inr net'" and "forward_ready net"
  shows "forward_ready net'"
  using assms(1) unfolding MarkOutputs_def
  by (rule for_each_invariant) (use assms(2) MarkOutputs_name_ready in auto)

text \<open>
  C3.  For every graph that Init has assembled, with any outputs pinned afterwards by
  MarkOutputs, the full forward pass ForwardFromTo(0, size - 1) passes its checks and
  makes, for each node i in increasing order, the calls ScopeStart, Forward of node i,
  ScopeEnd and then Release on every input buffer of node i whose recorded last-use
  index is at most i, and no other call.  No buffer is released before a node that reads
  it has run: whenever the Forward of node j is called and b is one of its input
  buffers, no Release of b has been called before.  This holds of every buffer, pinned
  or not.
\<close>

theorem forward_releases:
  assumes "Init InsertSplits CreateLayer in_param = Inr net0"
    and "MarkOutputs net0 outs = Inr net"
  shows "\<exists>calls.
     ForwardFromTo net 0 (int (length (layers net)) - 1) = Inr calls \<and>
     calls = concat (map (\<lambda>i.
         [ScopeStart (layer_names net ! i), LayerForward i, ScopeEnd] @
         map BlobRelease (filter (\<lambda>b. blob_life_time net ! b \<le> i) (bottom_id_vecs net ! i)))
       [0..<length (layers net)]) \<and>
     (\<forall>pre post j b. calls = pre @ LayerForward j # post \<and> b \<in> set (bottom_id_vecs net ! j)
        \<longrightarrow> BlobRelease b \<notin> set pre)"
proof -
  from Init_InrD[OF assms(1)] obtain fp where
    ne: "np_layer (InsertSplits fp) \<noteq> []"
    and as: "assembled CreateLayer (np_layer (InsertSplits fp)) net0" by blast
  from as have r0: "forward_ready net0" by (rule assembled_forward_ready)
  from MarkOutputs_ready[OF assms(2) r0] have r: "forward_ready net" .
  have "layers net = layers net0"
    using assms(2) unfolding MarkOutputs_def
    by (rule for_each_invariant[where P = "\<lambda>n. layers n = layers net0"])
       (auto simp: MarkOutputs_name_def split: option.splits if_splits)
  with as ne have pos: "0 < length (layers net)" by (simp add: assembled_def)
  let ?calls = "concat (map (layer_calls net) [0..<length (layers net)])"
  have fw: "ForwardFromTo net 0 (int (length (layers net)) - 1) = Inr ?calls"
  proof -
    have "Suc (nat (int (length (layers net)) - 1)) = length (layers net)" using pos by linarith
    with ForwardFromTo_ready[OF r, of 0 "int (length (layers net)) - 1"] pos
    show ?thesis by simp
  qed
  have safe: "BlobRelease b \<notin> set pre"
    if "?calls = pre @ LayerForward j # post" and "b \<in> set (bottom_id_vecs net ! j)"
    for pre post j b
  proof
    assume "BlobRelease b \<in> set pre"
    from release_before_forward[OF that(1) _ this]
    obtain i where i: "i < j" "blob_life_time net ! b \<le> i" by auto
    from that(1) have "LayerForward j \<in> set ?calls" by simp
    then have "j \<in> set [0..<length (layers net)]" by (rule Forward_in_calls)
    then have "j < length (layers net)" by simp
    with r that(2) have "j \<le> blob_life_time net ! b" by (auto simp: forward_ready_def)
    with i show False by simp
  qed
  show ?thesis
    using fw safe by (intro exI[of _ ?calls]) (auto simp: layer_calls_def[abs_def])
qed

section \<open>Properties of the name index\<close>

lemma build_index_fold_dom:
  "k \<le> length names \<Longrightarrow>
   dom (fold (\<lambda>id index. index(names ! id \<mapsto> id)) [0..<k] m) = dom m \<union> set (take k names)"
  by (induction k) (auto simp: take_Suc_conv_app_nth)

lemma dom_build_index: "dom (build_index names m) = dom m \<union> set names"
  using build_index_fold_dom[of "length names" names m] by (simp add: build_index_def)

text \<open>
  C2, as the code has it.  In an assembled graph has_blob and has_layer hold exactly of
  the names of the graph's buffers and layers.  For a name that is not present has_blob
  returns false, and blob_by_name does not return a reference or a not-found value: its
  check fails with "Unknown blob name" and the name, which is fatal.  The same holds of
  has_layer and layer_by_name.
\<close>

theorem unknown_name_lookup:
  assumes "Init InsertSplits CreateLayer in_param = Inr net"
  shows "(has_blob net name \<longleftrightarrow> name \<in> set (blob_names net)) \<and>
         (has_layer net name \<longleftrightarrow> name \<in> set (layer_names net)) \<and>
         (name \<notin> set (blob_names net) \<longrightarrow>
            \<not> has_blob net name \<and> blob_by_name net name = Inl (UnknownBlobName name)) \<and>
         (name \<notin> set (layer_names net) \<longrightarrow>
            \<not> has_layer net name \<and> layer_by_name net name = Inl (UnknownLayerName name))"
proof -
  from Init_InrD[OF assms] have
    b: "blob_names_index net = build_index (blob_names net) Map.empty"
    and l: "layer_names_index net = build_index (layer_names net) Map.empty" by auto
  have hb: "has_blob net name \<longleftrightarrow> name \<in> set (blob_names net)"
    using dom_build_index[of "blob_names net" Map.empty] b
    by (auto simp: has_blob_def dom_def)
  have hl: "has_layer net name \<longleftrightarrow> name \<in> set (layer_names net)"
    using dom_build_index[of "layer_names net" Map.empty] l
    by (auto simp: has_layer_def dom_def)
  show ?thesis using hb hl by (simp add: blob_by_name_def layer_by_name_def)
qed

section \<open>In-place outputs and the number of buffers\<close>

text \<open>
  C4.  In an assembled graph, for every node i of the filtered and split-adjusted
  description and every position k where the node's k-th output name equals its k-th
  input name, the output id is the input id at that position, so no buffer was made for
  it, and the buffer's last-use index is at least i + 1.  The number of buffers of the
  graph is the number of distinct names that some node produces not in place.
\<close>

theorem in_place_reuses_buffer:
  assumes init: "Init InsertSplits CreateLayer in_param = Inr net"
    and fp: "FilterNet in_param = Inr filtered_param"
    and ls: "ls = np_layer (InsertSplits filtered_param)"
  shows "(\<forall>i k. i < length ls \<and> k < length (lp_top (ls ! i)) \<and> k < length (lp_bottom (ls ! i)) \<and>
            lp_top (ls ! i) ! k = lp_bottom (ls ! i) ! k \<longrightarrow>
            top_id_vecs net ! i ! k = bottom_id_vecs net ! i ! k \<and>
            i + 1 \<le> blob_life_time net ! (top_id_vecs net ! i ! k)) \<and>
         length (blobs net) =
           card {lp_top (ls ! i) ! k | i k. i < length ls \<and> k < length (lp_top (ls ! i)) \<and>
                   \<not> (k < length (lp_bottom (ls ! i)) \<and>
                      lp_top (ls ! i) ! k = lp_bottom (ls ! i) ! k)}"
proof -
  from Init_InrD[OF init] fp ls have as: "assembled CreateLayer ls net" by auto
  then obtain av idx where
    w: "wired (\<lambda>i. if i < length ls then lp_bottom (ls ! i) else [])
              (\<lambda>i. if i < length ls then lp_top (ls ! i) else [])
              (\<Union>i<length ls. new_tops (ls ! i) (length (lp_top (ls ! i)))) (net, av, idx)"
    and len: "length (bottom_id_vecs net) = length ls"
    by (auto simp: assembled_def)
  from w have dist: "distinct (blob_names net)"
    and lenb: "length (blobs net) = length (blob_names net)"
    and S: "set (blob_names net) = (\<Union>i<length ls. new_tops (ls ! i) (length (lp_top (ls ! i))))"
    by (simp_all add: wired_def)
  have bot: "map ((!) (blob_names net)) (bottom_id_vecs net ! i) = lp_bottom (ls ! i)"
    "\<forall>b\<in>set (bottom_id_vecs net ! i). b < length (blob_names net)"
    if "i < length ls" for i
    using w len that by (auto simp: wired_def)
  have top: "map ((!) (blob_names net)) (top_id_vecs net ! i) = lp_top (ls ! i)"
    "\<forall>b\<in>set (top_id_vecs net ! i). b < length (blob_names net) \<and> Suc i \<le> blob_life_time net ! b"
    if "i < length ls" for i
    using w len that by (auto simp: wired_def)
  have inplace: "top_id_vecs net ! i ! k = bottom_id_vecs net ! i ! k \<and>
                 i + 1 \<le> blob_life_time net ! (top_id_vecs net ! i ! k)"
    if i: "i < length ls" and kt: "k < length (lp_top (ls ! i))"
      and kb: "k < length (lp_bottom (ls ! i))"
      and eq: "lp_top (ls ! i) ! k = lp_bottom (ls ! i) ! k" for i k
  proof -
    from top(1)[OF i] have lt: "length (top_id_vecs net ! i) = length (lp_top (ls ! i))"
      by (metis length_map)
    from bot(1)[OF i] have lb: "length (bottom_id_vecs net ! i) = length (lp_bottom (ls ! i))"
      by (metis length_map)
    let ?t = "top_id_vecs net ! i ! k" and ?b = "bottom_id_vecs net ! i ! k"
    from lt kt have tm: "?t \<in> set (top_id_vecs net ! i)" by simp
    from lb kb have bm: "?b \<in> set (bottom_id_vecs net ! i)" by simp
    have "blob_names net ! ?t = lp_top (ls ! i) ! k"
      using top(1)[OF i] lt kt by (metis nth_map)
    moreover have "blob_names net ! ?b = lp_bottom (ls ! i) ! k"
      using bot(1)[OF i] lb kb by (metis nth_map)
    ultimately have "blob_names net ! ?t = blob_names net ! ?b" using eq by simp
    moreover from top(2)[OF i] tm have "?t < length (blob_names net)" by blast
    moreover from bot(2)[OF i] bm have "?b < length (blob_names net)" by blast
    ultimately have "?t = ?b" using dist by (simp add: nth_eq_iff_index_eq)
    moreover from top(2)[OF i] tm have "Suc i \<le> blob_life_time net ! ?t" by blast
    ultimately show ?thesis by simp
  qed
  have "(\<Union>i<length ls. new_tops (ls ! i) (length (lp_top (ls ! i)))) =
        {lp_top (ls ! i) ! k | i k. i < length ls \<and> k < length (lp_top (ls ! i)) \<and>
                   \<not> (k < length (lp_bottom (ls ! i)) \<and>
                      lp_top (ls ! i) ! k = lp_bottom (ls ! i) ! k)}"
    by (auto simp: new_tops_def)
  with S dist lenb have count: "length (blobs net) =
           card {lp_top (ls ! i) ! k | i k. i < length ls \<and> k < length (lp_top (ls ! i)) \<and>
                   \<not> (k < length (lp_bottom (ls ! i)) \<and>
                      lp_top (ls ! i) ! k = lp_bottom (ls ! i) ! k)}"
    by (metis distinct_card)
  from inplace count show ?thesis by blast
qed

section \<open>The example graph\<close>

lemma upt_4: "[0..<4] = [0, 1, 2, 3]" "[0..<3] = [0,1,2]" "[0..<2] = [0,1]" "[0..<1] = [0]"
  by (simp_all add: upt_rec)

lemma FilterNet_example: "FilterNet example_param = Inr example_param"
  by (simp add: FilterNet_def example_param_def example_layer_def FilterNet_layer_def)

lemma Init_example: "Init id example_CreateLayer example_param = Inr example_net"
  unfolding Init_def FilterNet_example
  by (simp add: example_param_def example_layer_def example_CreateLayer_def example_net_def
      Init_layer_def Init_bottom_def Init_top_def AppendBottom_def AppendTop_def
      map_subscript_def pin_blob_def build_index_def empty_Net_def upt_4 Let_def
      numeral_2_eq_2 numeral_3_eq_3)

lemma MarkOutputs_nothing: "MarkOutputs net [] = Inr net"
  by (simp add: MarkOutputs_def)

text \<open>
  On the example the only release of the full pass is that of buffer 1, the
  convolution's output, after the last layer.
\<close>

theorem forward_releases_witness:
  "Init id example_CreateLayer example_param = Inr example_net \<and>
   MarkOutputs example_net [] = Inr example_net \<and>
   ForwardFromTo example_net 0 (int (length (layers example_net)) - 1) =
     Inr [ScopeStart ''data'', LayerForward 0, ScopeEnd,
          ScopeStart ''conv1'', LayerForward 1, ScopeEnd,
          ScopeStart ''relu1'', LayerForward 2, ScopeEnd,
          ScopeStart ''fc'', LayerForward 3, ScopeEnd, BlobRelease 1]"
  using forward_releases[OF Init_example MarkOutputs_nothing] Init_example
  by (auto simp: example_net_def upt_4 MarkOutputs_def)

text \<open>On the example, "nonexistent" is no buffer and no layer, "conv1" is both.\<close>

theorem unknown_name_lookup_witness:
  "Init id example_CreateLayer example_param = Inr example_net \<and>
   has_blob example_net ''conv1'' \<and> has_layer example_net ''conv1'' \<and>
   \<not> has_blob example_net ''nonexistent'' \<and>
   blob_by_name example_net ''nonexistent'' = Inl (UnknownBlobName ''nonexistent'') \<and>
   \<not> has_layer example_net ''nonexistent'' \<and>
   layer_by_name example_net ''nonexistent'' = Inl (UnknownLayerName ''nonexistent'')"
  using unknown_name_lookup[OF Init_example, of "''nonexistent''"]
    unknown_name_lookup[OF Init_example, of "''conv1''"] Init_example
  by (simp add: example_net_def)

text \<open>
  C2 as stated asks blob_by_name to report the miss without failing.  On the example
  graph the call with the name "nonexistent" returns nothing: it ends in the fatal check.
\<close>

theorem blob_by_name_miss_is_fatal:
  "Init id example_CreateLayer example_param = Inr example_net \<and>
   ''nonexistent'' \<notin> set (blob_names example_net) \<and>
   blob_by_name example_net ''nonexistent'' = Inl (UnknownBlobName ''nonexistent'') \<and>
   isl (blob_by_name example_net ''nonexistent'')"
  using Init_example
  by (simp add: example_net_def blob_by_name_def has_blob_def)

text \<open>
  On the example the ReLU, node 2, has its output in place: its output id is its input
  id, buffer 1, whose last-use index is 3.
\<close>

theorem in_place_reuses_buffer_witness:
  "Init id example_CreateLayer example_param = Inr example_net \<and>
   FilterNet example_param = Inr example_param \<and>
   top_id_vecs example_net ! 2 ! 0 = bottom_id_vecs example_net ! 2 ! 0 \<and>
   2 + 1 \<le> blob_life_time example_net ! (top_id_vecs example_net ! 2 ! 0)"
proof -
  have "2 < length (np_layer (id example_param)) \<and>
        0 < length (lp_top (np_layer (id example_param) ! 2)) \<and>
        0 < length (lp_bottom (np_layer (id example_param) ! 2)) \<and>
        lp_top (np_layer (id example_param) ! 2) ! 0 =
        lp_bottom (np_layer (id example_param) ! 2) ! 0"
    by (simp add: example_param_def example_layer_def)
  with in_place_reuses_buffer[OF Init_example FilterNet_example refl]
  show ?thesis using Init_example FilterNet_example by blast
qed

section \<open>Properties of the weight loader\<close>

lemma for_each_st_append:
  "for_each_st f (xs @ ys) s =
     (case for_each_st f xs s of (Some e, s') \<Rightarrow> (Some e, s') | (None, s') \<Rightarrow> for_each_st f ys s')"
  by (induction xs arbitrary: s) (auto split: prod.splits option.splits)

lemma for_each_st_invariant:
  assumes "for_each_st f xs s = (r, s')" and "P s"
    and "\<And>x t q t'. x \<in> set xs \<Longrightarrow> P t \<Longrightarrow> f x t = (q, t') \<Longrightarrow> P t'"
  shows "P s'"
  using assms
proof (induction xs arbitrary: s)
  case Nil
  then show ?case by simp
next
  case (Cons x xs)
  obtain q t where step: "f x s = (q, t)" by (cases "f x s")
  have Pt: "P t" using Cons.prems(3)[of x s q t] Cons.prems(2) step by simp
  show ?case
  proof (cases q)
    case None
    with Cons.prems(1) step have "for_each_st f xs t = (r, s')" by simp
    from Cons.IH[OF this Pt] Cons.prems(3) show ?thesis by auto
  next
    case (Some e)
    with Cons.prems(1) step Pt show ?thesis by simp
  qed
qed

lemma for_each_st_stops:
  assumes "j < n" and "for_each_st f [0..<j] s = (None, t)" and "f j t = (Some e, t')"
  shows "for_each_st f [0..<n] s = (Some e, t')"
  using assms(1)
proof (induction n)
  case 0
  then show ?case by simp
next
  case (Suc n)
  show ?case
  proof (cases "j = n")
    case True
    with assms(2,3) show ?thesis by (simp add: for_each_st_append)
  next
    case False
    with Suc have "for_each_st f [0..<n] s = (Some e, t')" by simp
    then show ?thesis by (simp add: for_each_st_append)
  qed
qed

lemma find_target_layer_le: "find_target_layer names nm \<le> length names"
  by (induction names) auto

lemma find_target_layer_miss:
  "find_target_layer names nm = length names \<longleftrightarrow> nm \<notin> set names"
proof (induction names)
  case Nil
  then show ?case by simp
next
  case (Cons n ns)
  then show ?case using find_target_layer_le[of ns nm] by auto
qed

lemma find_target_layer_hit:
  "find_target_layer names nm < length names \<Longrightarrow> names ! find_target_layer names nm = nm"
  by (induction names) (auto split: if_splits)

lemma copied_0 [simp]: "copied source_layer 0 target_blobs = target_blobs"
  by (simp add: copied_def map_nth)

lemma length_copied [simp]: "length (copied source_layer n target_blobs) = length target_blobs"
  by (simp add: copied_def)

lemma nth_copied:
  "j < length target_blobs \<Longrightarrow>
   copied source_layer n target_blobs ! j =
     (if j < n then (target_blobs ! j)\<lparr>blob_data := bp_data (lp_blobs source_layer ! j)\<rparr>
      else target_blobs ! j)"
  by (simp add: copied_def)

lemma copied_Suc:
  assumes "n < length target_blobs"
  shows "(copied source_layer n target_blobs)
           [n := FromProto (lp_blobs source_layer ! n) False (copied source_layer n target_blobs ! n)] =
         copied source_layer (Suc n) target_blobs"
  using assms
  by (intro nth_equalityI) (auto simp: nth_copied nth_list_update FromProto_def less_Suc_eq)

lemma copy_loop_ok:
  assumes "n \<le> length target_blobs"
    and "\<forall>j<n. blob_shape (target_blobs ! j) = bp_shape (lp_blobs source_layer ! j)"
  shows "for_each_st (copy_blob source_layer) [0..<n] target_blobs =
           (None, copied source_layer n target_blobs)"
  using assms
proof (induction n)
  case 0
  then show ?case by simp
next
  case (Suc n)
  then have IH: "for_each_st (copy_blob source_layer) [0..<n] target_blobs =
           (None, copied source_layer n target_blobs)" by simp
  from Suc.prems have n: "n < length target_blobs"
    and eq: "blob_shape (target_blobs ! n) = bp_shape (lp_blobs source_layer ! n)" by simp_all
  have "copy_blob source_layer n (copied source_layer n target_blobs) =
          (None, copied source_layer (Suc n) target_blobs)"
    using n eq copied_Suc[OF n, of source_layer]
    by (simp add: copy_blob_def ShapeEquals_def nth_copied)
  with IH show ?case by (simp add: for_each_st_append)
qed

lemma copy_loop_mismatch:
  assumes "j < n" and "n \<le> length target_blobs"
    and "\<forall>i<j. blob_shape (target_blobs ! i) = bp_shape (lp_blobs source_layer ! i)"
    and "blob_shape (target_blobs ! j) \<noteq> bp_shape (lp_blobs source_layer ! j)"
  shows "for_each_st (copy_blob source_layer) [0..<n] target_blobs =
           (Some (ShapeMismatch j (lp_name source_layer) (bp_shape (lp_blobs source_layer ! j))
                    (blob_shape (target_blobs ! j))),
            copied source_layer j target_blobs)"
proof -
  from assms have pre: "for_each_st (copy_blob source_layer) [0..<j] target_blobs =
           (None, copied source_layer j target_blobs)"
    by (intro copy_loop_ok) auto
  have "copy_blob source_layer j (copied source_layer j target_blobs) =
          (Some (ShapeMismatch j (lp_name source_layer) (bp_shape (lp_blobs source_layer ! j))
                    (blob_shape (target_blobs ! j))),
           copied source_layer j target_blobs)"
    using assms by (simp add: copy_blob_def ShapeEquals_def nth_copied FromProto_def Let_def)
  from for_each_st_stops[OF assms(1) pre this] show ?thesis .
qed

lemma length_copy_blob:
  "copy_blob source_layer j target_blobs = (q, target_blobs') \<Longrightarrow>
   length target_blobs' = length target_blobs"
  by (auto simp: copy_blob_def Let_def split: if_splits)

lemma copy_loop_length:
  assumes "for_each_st (copy_blob source_layer) js target_blobs = (r, target_blobs')"
  shows "length target_blobs' = length target_blobs"
  by (rule for_each_st_invariant[OF assms, where P = "\<lambda>bs. length bs = length target_blobs"])
     (auto dest: length_copy_blob)

lemma copy_loop_error:
  assumes "for_each_st (copy_blob source_layer) js target_blobs = (Some e, target_blobs')"
  shows "\<exists>j nm s1 s2. e = ShapeMismatch j nm s1 s2"
  using assms
  by (induction js arbitrary: target_blobs)
     (auto simp: copy_blob_def Let_def split: if_splits prod.splits option.splits)

lemma CopyTrainedLayersFrom_layer_skip:
  "lp_name source_layer \<notin> set (layer_names net) \<Longrightarrow>
   CopyTrainedLayersFrom_layer source_layer net = (None, net)"
  by (simp add: CopyTrainedLayersFrom_layer_def find_target_layer_miss)

lemma CopyTrainedLayersFrom_layer_count:
  assumes "length (layers net) = length (layer_names net)"
    and "find_target_layer (layer_names net) (lp_name source_layer) < length (layer_names net)"
    and "length (layer_blobs (layers net ! find_target_layer (layer_names net) (lp_name source_layer)))
           \<noteq> length (lp_blobs source_layer)"
  shows "CopyTrainedLayersFrom_layer source_layer net =
           (Some (IncompatibleNumberOfBlobs (lp_name source_layer)), net)"
  using assms by (simp add: CopyTrainedLayersFrom_layer_def Let_def)

lemma CopyTrainedLayersFrom_layer_shape:
  assumes "length (layers net) = length (layer_names net)"
    and "t = find_target_layer (layer_names net) (lp_name source_layer)"
    and "t < length (layer_names net)"
    and "length (layer_blobs (layers net ! t)) = length (lp_blobs source_layer)"
    and "j < length (lp_blobs source_layer)"
    and "\<forall>i<j. blob_shape (layer_blobs (layers net ! t) ! i) = bp_shape (lp_blobs source_layer ! i)"
    and "blob_shape (layer_blobs (layers net ! t) ! j) \<noteq> bp_shape (lp_blobs source_layer ! j)"
  shows "CopyTrainedLayersFrom_layer source_layer net =
           (Some (ShapeMismatch j (lp_name source_layer) (bp_shape (lp_blobs source_layer ! j))
                    (blob_shape (layer_blobs (layers net ! t) ! j))),
            net\<lparr>layers := (layers net)
                  [t := (layers net ! t)\<lparr>layer_blobs :=
                          copied source_layer j (layer_blobs (layers net ! t))\<rparr>]\<rparr>)"
proof -
  have "for_each_st (copy_blob source_layer) [0..<length (layer_blobs (layers net ! t))]
          (layer_blobs (layers net ! t)) =
        (Some (ShapeMismatch j (lp_name source_layer) (bp_shape (lp_blobs source_layer ! j))
                    (blob_shape (layer_blobs (layers net ! t) ! j))),
         copied source_layer j (layer_blobs (layers net ! t)))"
    using assms by (intro copy_loop_mismatch) auto
  with assms(1-4) show ?thesis
    by (simp add: CopyTrainedLayersFrom_layer_def Let_def)
qed

lemma CopyTrainedLayersFrom_layer_copy:
  assumes "length (layers net) = length (layer_names net)"
    and "t = find_target_layer (layer_names net) (lp_name source_layer)"
    and "t < length (layer_names net)"
    and "length (layer_blobs (layers net ! t)) = length (lp_blobs source_layer)"
    and "\<forall>i<length (lp_blobs source_layer).
           blob_shape (layer_blobs (layers net ! t) ! i) = bp_shape (lp_blobs source_layer ! i)"
  shows "CopyTrainedLayersFrom_layer source_layer net =
           (None,
            net\<lparr>layers := (layers net)
                  [t := (layers net ! t)\<lparr>layer_blobs :=
                          copied source_layer (length (lp_blobs source_layer))
                            (layer_blobs (layers net ! t))\<rparr>]\<rparr>)"
proof -
  have "for_each_st (copy_blob source_layer) [0..<length (layer_blobs (layers net ! t))]
          (layer_blobs (layers net ! t)) =
        (None, copied source_layer (length (layer_blobs (layers net ! t)))
                 (layer_blobs (layers net ! t)))"
    using assms by (intro copy_loop_ok) auto
  with assms(1-4) show ?thesis
    by (simp add: CopyTrainedLayersFrom_layer_def Let_def)
qed

text \<open>A step of the load writes only the buffers of the layer it has found.\<close>

lemma CopyTrainedLayersFrom_layer_frame:
  assumes "CopyTrainedLayersFrom_layer source_layer net = (r, net')"
  shows "layer_names net' = layer_names net \<and> length (layers net') = length (layers net) \<and>
         (\<forall>t. length (layer_blobs (layers net' ! t)) = length (layer_blobs (layers net ! t))) \<and>
         (\<forall>t. layer_names net ! t \<noteq> lp_name source_layer \<longrightarrow> layers net' ! t = layers net ! t) \<and>
         (\<exists>ls. net' = net\<lparr>layers := ls\<rparr>)"
proof -
  let ?t = "find_target_layer (layer_names net) (lp_name source_layer)"
  show ?thesis
  proof (cases "?t < length (layer_names net) \<and> ?t < length (layers net) \<and>
                length (layer_blobs (layers net ! ?t)) = length (lp_blobs source_layer)")
    case False
    then have "net' = net"
      using assms find_target_layer_le[of "layer_names net" "lp_name source_layer"]
      by (auto simp: CopyTrainedLayersFrom_layer_def Let_def split: if_splits)
    moreover have "net = net\<lparr>layers := layers net\<rparr>" by simp
    ultimately show ?thesis by metis
  next
    case True
    obtain q bs where loop: "for_each_st (copy_blob source_layer)
        [0..<length (layer_blobs (layers net ! ?t))] (layer_blobs (layers net ! ?t)) = (q, bs)"
      by (cases "for_each_st (copy_blob source_layer)
        [0..<length (layer_blobs (layers net ! ?t))] (layer_blobs (layers net ! ?t))")
    from copy_loop_length[OF loop] have len: "length bs = length (layer_blobs (layers net ! ?t))" .
    from assms True loop have net': "net' = net\<lparr>layers := (layers net)
        [?t := (layers net ! ?t)\<lparr>layer_blobs := bs\<rparr>]\<rparr>"
      by (auto simp: CopyTrainedLayersFrom_layer_def Let_def)
    from True have hit: "layer_names net ! ?t = lp_name source_layer"
      by (simp add: find_target_layer_hit)
    have "length (layer_blobs (layers net' ! t)) = length (layer_blobs (layers net ! t))" for t
      using True len unfolding net' by (cases "t = ?t") auto
    moreover have "layers net' ! t = layers net ! t"
      if "layer_names net ! t \<noteq> lp_name source_layer" for t
      using that hit unfolding net' by (cases "t = ?t") auto
    ultimately show ?thesis unfolding net' by auto
  qed
qed

lemma CopyTrainedLayersFrom_layer_error:
  assumes "CopyTrainedLayersFrom_layer source_layer net = (Some e, net')"
    and "length (layers net) = length (layer_names net)"
  shows "(\<exists>nm. e = IncompatibleNumberOfBlobs nm) \<or> (\<exists>j nm s1 s2. e = ShapeMismatch j nm s1 s2)"
  using assms find_target_layer_le[of "layer_names net" "lp_name source_layer"]
  by (auto simp: CopyTrainedLayersFrom_layer_def Let_def split: if_splits prod.splits
      dest: copy_loop_error)

text \<open>What a whole load leaves alone.\<close>

lemma load_frame:
  assumes "for_each_st CopyTrainedLayersFrom_layer sources net = (r, net')"
  shows "layer_names net' = layer_names net \<and> length (layers net') = length (layers net) \<and>
         (\<forall>t. length (layer_blobs (layers net' ! t)) = length (layer_blobs (layers net ! t))) \<and>
         (\<forall>t. layer_names net ! t \<notin> lp_name ` set sources \<longrightarrow> layers net' ! t = layers net ! t) \<and>
         (\<exists>ls. net' = net\<lparr>layers := ls\<rparr>)"
proof (rule for_each_st_invariant[OF assms, where P = "\<lambda>n.
         layer_names n = layer_names net \<and> length (layers n) = length (layers net) \<and>
         (\<forall>t. length (layer_blobs (layers n ! t)) = length (layer_blobs (layers net ! t))) \<and>
         (\<forall>t. layer_names net ! t \<notin> lp_name ` set sources \<longrightarrow> layers n ! t = layers net ! t) \<and>
         (\<exists>ls. n = net\<lparr>layers := ls\<rparr>)"])
  have "net = net\<lparr>layers := layers net\<rparr>" by simp
  then show "layer_names net = layer_names net \<and> length (layers net) = length (layers net) \<and>
         (\<forall>t. length (layer_blobs (layers net ! t)) = length (layer_blobs (layers net ! t))) \<and>
         (\<forall>t. layer_names net ! t \<notin> lp_name ` set sources \<longrightarrow> layers net ! t = layers net ! t) \<and>
         (\<exists>ls. net = net\<lparr>layers := ls\<rparr>)" by metis
next
  fix x t q t'
  assume x: "x \<in> set sources"
    and P: "layer_names t = layer_names net \<and> length (layers t) = length (layers net) \<and>
         (\<forall>u. length (layer_blobs (layers t ! u)) = length (layer_blobs (layers net ! u))) \<and>
         (\<forall>u. layer_names net ! u \<notin> lp_name ` set sources \<longrightarrow> layers t ! u = layers net ! u) \<and>
         (\<exists>ls. t = net\<lparr>layers := ls\<rparr>)"
    and step: "CopyTrainedLayersFrom_layer x t = (q, t')"
  note f = CopyTrainedLayersFrom_layer_frame[OF step]
  from P obtain ls where t: "t = net\<lparr>layers := ls\<rparr>" by blast
  from f obtain ls' where t': "t' = t\<lparr>layers := ls'\<rparr>" by blast
  have ex: "\<exists>ls. t' = net\<lparr>layers := ls\<rparr>" unfolding t' t by (rule exI[of _ ls']) simp
  have keep: "layers t' ! u = layers net ! u" if "layer_names net ! u \<notin> lp_name ` set sources" for u
  proof -
    from that x have "layer_names t ! u \<noteq> lp_name x" using P by auto
    with f have "layers t' ! u = layers t ! u" by blast
    with P that show ?thesis by simp
  qed
  show "layer_names t' = layer_names net \<and> length (layers t') = length (layers net) \<and>
         (\<forall>u. length (layer_blobs (layers t' ! u)) = length (layer_blobs (layers net ! u))) \<and>
         (\<forall>u. layer_names net ! u \<notin> lp_name ` set sources \<longrightarrow> layers t' ! u = layers net ! u) \<and>
         (\<exists>ls. t' = net\<lparr>layers := ls\<rparr>)"
    using f P ex keep by simp
qed

text \<open>A source layer whose buffer count differs from its target's makes the load fail.\<close>

lemma load_fails:
  assumes "length (layers net) = length (layer_names net)"
    and "s \<in> set sources"
    and "find_target_layer (layer_names net) (lp_name s) < length (layer_names net)"
    and "length (layer_blobs (layers net ! find_target_layer (layer_names net) (lp_name s)))
           \<noteq> length (lp_blobs s)"
  shows "\<exists>e. fst (for_each_st CopyTrainedLayersFrom_layer sources net) = Some e \<and>
             ((\<exists>nm. e = IncompatibleNumberOfBlobs nm) \<or> (\<exists>j nm s1 s2. e = ShapeMismatch j nm s1 s2))"
  using assms
proof (induction sources arbitrary: net)
  case Nil
  then show ?case by simp
next
  case (Cons x xs)
  obtain q net1 where step: "CopyTrainedLayersFrom_layer x net = (q, net1)"
    by (cases "CopyTrainedLayersFrom_layer x net")
  show ?case
  proof (cases q)
    case (Some e)
    with step CopyTrainedLayersFrom_layer_error[OF _ Cons.prems(1)] show ?thesis by auto
  next
    case None
    note f = CopyTrainedLayersFrom_layer_frame[OF step]
    have "s \<noteq> x"
    proof
      assume "s = x"
      with CopyTrainedLayersFrom_layer_count[OF Cons.prems(1,3,4)] step None show False by simp
    qed
    with Cons.prems(2) have sxs: "s \<in> set xs" by simp
    have "\<exists>e. fst (for_each_st CopyTrainedLayersFrom_layer xs net1) = Some e \<and>
             ((\<exists>nm. e = IncompatibleNumberOfBlobs nm) \<or> (\<exists>j nm s1 s2. e = ShapeMismatch j nm s1 s2))"
      using f Cons.prems(1,3,4) by (intro Cons.IH[OF _ sxs]) auto
    with step None show ?thesis by simp
  qed
qed

lemma Init_weights: "Init id weights_CreateLayer example_param = Inr weights_net"
  unfolding Init_def FilterNet_example
  by (simp add: example_param_def example_layer_def weights_CreateLayer_def example_net_def
      weights_net_def
      Init_layer_def Init_bottom_def Init_top_def AppendBottom_def AppendTop_def
      map_subscript_def pin_blob_def build_index_def empty_Net_def upt_4 Let_def
      numeral_2_eq_2 numeral_3_eq_3)

lemma copied_all:
  "copied source_layer (length target_blobs) target_blobs =
     map (\<lambda>i. (target_blobs ! i)\<lparr>blob_data := bp_data (lp_blobs source_layer ! i)\<rparr>)
       [0..<length target_blobs]"
  by (simp add: copied_def cong: map_cong)

lemmas load_eval =
  CopyTrainedLayersFrom_def CopyTrainedLayersFrom_layer_def copy_blob_def ShapeEquals_def
  FromProto_def new_Blob_def Let_def upt_4
  weights_net_def example_net_def example_param_def example_layer_def weights_CreateLayer_def
  source_layer_of_def

text \<open>The loop that looks for a name stops at the first node of that name.\<close>

lemma find_target_layer_first:
  "u < find_target_layer names nm \<Longrightarrow> names ! u \<noteq> nm"
proof (induction names arbitrary: u)
  case Nil
  then show ?case by simp
next
  case (Cons n ns)
  show ?case
  proof (cases "n = nm")
    case True
    with Cons.prems show ?thesis by simp
  next
    case False
    show ?thesis
    proof (cases u)
      case 0
      with False show ?thesis by simp
    next
      case (Suc v)
      with Cons.prems False have "v < find_target_layer ns nm" by simp
      from Cons.IH[OF this] Suc show ?thesis by simp
    qed
  qed
qed

text \<open>A failure of the load is a failure of one of its foreign nodes, and carries its name.\<close>

lemma copy_loop_error_name:
  assumes "for_each_st (copy_blob source_layer) js target_blobs = (Some e, target_blobs')"
  shows "\<exists>j s1 s2. e = ShapeMismatch j (lp_name source_layer) s1 s2"
  using assms
  by (induction js arbitrary: target_blobs)
     (auto simp: copy_blob_def Let_def split: if_splits prod.splits option.splits)

lemma CopyTrainedLayersFrom_layer_error_name:
  assumes "CopyTrainedLayersFrom_layer source_layer net = (Some e, net')"
    and "length (layers net) = length (layer_names net)"
  shows "lp_name source_layer \<in> set (layer_names net) \<and>
         (e = IncompatibleNumberOfBlobs (lp_name source_layer) \<or>
          (\<exists>j s1 s2. e = ShapeMismatch j (lp_name source_layer) s1 s2))"
proof -
  have "lp_name source_layer \<in> set (layer_names net)"
  proof (rule ccontr)
    assume "lp_name source_layer \<notin> set (layer_names net)"
    from CopyTrainedLayersFrom_layer_skip[OF this] assms(1) show False by simp
  qed
  moreover have "e = IncompatibleNumberOfBlobs (lp_name source_layer) \<or>
          (\<exists>j s1 s2. e = ShapeMismatch j (lp_name source_layer) s1 s2)"
    using assms find_target_layer_le[of "layer_names net" "lp_name source_layer"]
    by (auto simp: CopyTrainedLayersFrom_layer_def Let_def split: if_splits prod.splits
        dest: copy_loop_error_name)
  ultimately show ?thesis by simp
qed

lemma load_error_name:
  assumes "for_each_st CopyTrainedLayersFrom_layer sources net = (Some e, net')"
    and "length (layers net) = length (layer_names net)"
  shows "\<exists>s\<in>set sources. lp_name s \<in> set (layer_names net) \<and>
           (e = IncompatibleNumberOfBlobs (lp_name s) \<or>
            (\<exists>j s1 s2. e = ShapeMismatch j (lp_name s) s1 s2))"
  using assms
proof (induction sources arbitrary: net)
  case Nil
  then show ?case by simp
next
  case (Cons x xs)
  obtain q net1 where step: "CopyTrainedLayersFrom_layer x net = (q, net1)"
    by (cases "CopyTrainedLayersFrom_layer x net")
  show ?case
  proof (cases q)
    case (Some e')
    with step Cons.prems(1) have "CopyTrainedLayersFrom_layer x net = (Some e, net1)" by simp
    from CopyTrainedLayersFrom_layer_error_name[OF this Cons.prems(2)] show ?thesis by simp
  next
    case None
    note f = CopyTrainedLayersFrom_layer_frame[OF step]
    from step None Cons.prems(1)
    have rest: "for_each_st CopyTrainedLayersFrom_layer xs net1 = (Some e, net')" by simp
    from f Cons.prems(2) have wf1: "length (layers net1) = length (layer_names net1)" by simp
    from Cons.IH[OF rest wf1] f show ?thesis by auto
  qed
qed

text \<open>
  C8.  The load handles the foreign nodes in order.  Take any foreign node
  \<open>source_layer\<close> such that the load of the nodes before it ends without failure, in
  the graph \<open>net1\<close>, and let \<open>t\<close> be the target node found for its name.  If no node of
  the graph has that name, the node is skipped: the load goes on with the foreign nodes
  after it on the unchanged graph.  If the node is matched, the buffer counts agree and
  \<open>j\<close> is the first position where the target buffer's shape differs from the foreign
  buffer's, the load fails with the shape-mismatch error that carries \<open>j\<close>, the node's
  name, the foreign shape and the target shape; no buffer is reshaped, and the buffers
  before \<open>j\<close> have taken the foreign data.  If the node is matched, the counts agree and
  all shapes agree, every buffer of the target node takes the foreign raw data and
  keeps its shape, and the load goes on with the foreign nodes after it.
\<close>

theorem weight_loading_step:
  assumes "length (layers net) = length (layer_names net)"
    and "np_layer param = earlier @ source_layer # rest"
    and "CopyTrainedLayersFrom (param\<lparr>np_layer := earlier\<rparr>) net = (None, net1)"
    and "t = find_target_layer (layer_names net1) (lp_name source_layer)"
    and "target_blobs = layer_blobs (layers net1 ! t)"
    and "source_blobs = lp_blobs source_layer"
  shows
    "(lp_name source_layer \<notin> set (layer_names net1) \<longrightarrow>
        CopyTrainedLayersFrom param net = CopyTrainedLayersFrom (param\<lparr>np_layer := rest\<rparr>) net1) \<and>
     (\<forall>j. lp_name source_layer \<in> set (layer_names net1) \<and>
          length target_blobs = length source_blobs \<and> j < length target_blobs \<and>
          (\<forall>i<j. blob_shape (target_blobs ! i) = bp_shape (source_blobs ! i)) \<and>
          blob_shape (target_blobs ! j) \<noteq> bp_shape (source_blobs ! j) \<longrightarrow>
        CopyTrainedLayersFrom param net =
          (Some (ShapeMismatch j (lp_name source_layer) (bp_shape (source_blobs ! j))
                   (blob_shape (target_blobs ! j))),
           net1\<lparr>layers := (layers net1)
             [t := (layers net1 ! t)\<lparr>layer_blobs :=
                map (\<lambda>i. if i < j then (target_blobs ! i)\<lparr>blob_data := bp_data (source_blobs ! i)\<rparr>
                          else target_blobs ! i) [0..<length target_blobs]\<rparr>]\<rparr>)) \<and>
     (lp_name source_layer \<in> set (layer_names net1) \<and>
      length target_blobs = length source_blobs \<and>
      (\<forall>i<length target_blobs. blob_shape (target_blobs ! i) = bp_shape (source_blobs ! i)) \<longrightarrow>
        CopyTrainedLayersFrom param net =
          CopyTrainedLayersFrom (param\<lparr>np_layer := rest\<rparr>)
            (net1\<lparr>layers := (layers net1)
              [t := (layers net1 ! t)\<lparr>layer_blobs :=
                 map (\<lambda>i. (target_blobs ! i)\<lparr>blob_data := bp_data (source_blobs ! i)\<rparr>)
                   [0..<length target_blobs]\<rparr>]\<rparr>))"
proof -
  from assms(3) have pre: "for_each_st CopyTrainedLayersFrom_layer earlier net = (None, net1)"
    by (simp add: CopyTrainedLayersFrom_def)
  from load_frame[OF pre] assms(1)
  have wf: "length (layers net1) = length (layer_names net1)" by simp
  have split: "CopyTrainedLayersFrom param net =
      (case CopyTrainedLayersFrom_layer source_layer net1 of
         (Some e, n) \<Rightarrow> (Some e, n)
       | (None, n) \<Rightarrow> CopyTrainedLayersFrom (param\<lparr>np_layer := rest\<rparr>) n)"
    using pre assms(2)
    by (auto simp: CopyTrainedLayersFrom_def for_each_st_append split: prod.splits option.splits)
  have hit: "t < length (layer_names net1)" if "lp_name source_layer \<in> set (layer_names net1)"
    using that assms(4) find_target_layer_miss[of "layer_names net1" "lp_name source_layer"]
      find_target_layer_le[of "layer_names net1" "lp_name source_layer"] by simp
  have skip: "CopyTrainedLayersFrom param net = CopyTrainedLayersFrom (param\<lparr>np_layer := rest\<rparr>) net1"
    if "lp_name source_layer \<notin> set (layer_names net1)"
    using CopyTrainedLayersFrom_layer_skip[OF that] split by simp
  have mismatch: "CopyTrainedLayersFrom param net =
          (Some (ShapeMismatch j (lp_name source_layer) (bp_shape (source_blobs ! j))
                   (blob_shape (target_blobs ! j))),
           net1\<lparr>layers := (layers net1)
             [t := (layers net1 ! t)\<lparr>layer_blobs :=
                map (\<lambda>i. if i < j then (target_blobs ! i)\<lparr>blob_data := bp_data (source_blobs ! i)\<rparr>
                          else target_blobs ! i) [0..<length target_blobs]\<rparr>]\<rparr>)"
    if "lp_name source_layer \<in> set (layer_names net1)"
      "length target_blobs = length source_blobs" "j < length target_blobs"
      "\<forall>i<j. blob_shape (target_blobs ! i) = bp_shape (source_blobs ! i)"
      "blob_shape (target_blobs ! j) \<noteq> bp_shape (source_blobs ! j)" for j
    using CopyTrainedLayersFrom_layer_shape[OF wf assms(4) hit[OF that(1)], of j]
      that split
    unfolding assms(5) assms(6)
    by (simp add: copied_def)
  have copy: "CopyTrainedLayersFrom param net =
          CopyTrainedLayersFrom (param\<lparr>np_layer := rest\<rparr>)
            (net1\<lparr>layers := (layers net1)
              [t := (layers net1 ! t)\<lparr>layer_blobs :=
                 map (\<lambda>i. (target_blobs ! i)\<lparr>blob_data := bp_data (source_blobs ! i)\<rparr>)
                   [0..<length target_blobs]\<rparr>]\<rparr>)"
    if "lp_name source_layer \<in> set (layer_names net1)"
      "length target_blobs = length source_blobs"
      "\<forall>i<length target_blobs. blob_shape (target_blobs ! i) = bp_shape (source_blobs ! i)"
    using CopyTrainedLayersFrom_layer_copy[OF wf assms(4) hit[OF that(1)]]
      that split copied_all[of source_layer "layer_blobs (layers net1 ! t)"]
    unfolding assms(5) assms(6)
    by simp
  from skip mismatch copy show ?thesis by blast
qed

text \<open>
  On the example graph: the description with the unknown layer "extra" loads, and
  "conv1" has the foreign data under its own shapes; the description whose bias has
  another shape fails at buffer 1 of "conv1".
\<close>

theorem weight_loading_step_witness:
  "Init id weights_CreateLayer example_param = Inr weights_net \<and>
   CopyTrainedLayersFrom (foreign_superset\<lparr>np_layer :=
       [source_layer_of ''extra'' [\<lparr>bp_shape = [7], bp_data = [9]\<rparr>]]\<rparr>) weights_net =
     (None, weights_net) \<and>
   fst (CopyTrainedLayersFrom foreign_superset weights_net) = None \<and>
   layer_blobs (layers (snd (CopyTrainedLayersFrom foreign_superset weights_net)) ! 1) =
     [\<lparr>blob_shape = [2], blob_data = [1, 2]\<rparr>, \<lparr>blob_shape = [1], blob_data = [3]\<rparr>] \<and>
   fst (CopyTrainedLayersFrom foreign_shape weights_net) =
     Some (ShapeMismatch 1 ''conv1'' [3] [1])"
proof -
  have wf: "length (layers weights_net) = length (layer_names weights_net)"
    by (simp add: load_eval)
  have sup: "np_layer foreign_superset =
      [source_layer_of ''extra'' [\<lparr>bp_shape = [7], bp_data = [9]\<rparr>]] @
      source_layer_of ''conv1''
        [\<lparr>bp_shape = [2], bp_data = [1, 2]\<rparr>, \<lparr>bp_shape = [1], bp_data = [3]\<rparr>] # []"
    by (simp add: foreign_superset_def)
  have extra: "CopyTrainedLayersFrom (foreign_superset\<lparr>np_layer :=
       [source_layer_of ''extra'' [\<lparr>bp_shape = [7], bp_data = [9]\<rparr>]]\<rparr>) weights_net =
     (None, weights_net)"
    by (simp add: load_eval foreign_superset_def)
  have shp: "np_layer foreign_shape =
      [] @ source_layer_of ''conv1''
        [\<lparr>bp_shape = [2], bp_data = [1, 2]\<rparr>, \<lparr>bp_shape = [3], bp_data = [3, 4, 5]\<rparr>] # []"
    by (simp add: foreign_shape_def)
  have none: "CopyTrainedLayersFrom (foreign_shape\<lparr>np_layer := []\<rparr>) weights_net =
     (None, weights_net)"
    by (simp add: CopyTrainedLayersFrom_def)
  note copy = weight_loading_step[OF wf sup extra refl refl refl, THEN conjunct2, THEN conjunct2]
  note mism = weight_loading_step[OF wf shp none refl refl refl, THEN conjunct2, THEN conjunct1,
      rule_format, of 1]
  have "fst (CopyTrainedLayersFrom foreign_superset weights_net) = None \<and>
    layer_blobs (layers (snd (CopyTrainedLayersFrom foreign_superset weights_net)) ! 1) =
     [\<lparr>blob_shape = [2], blob_data = [1, 2]\<rparr>, \<lparr>blob_shape = [1], blob_data = [3]\<rparr>]"
    using copy by (simp add: load_eval foreign_superset_def)
  moreover have "fst (CopyTrainedLayersFrom foreign_shape weights_net) =
     Some (ShapeMismatch 1 ''conv1'' [3] [1])"
    using mism by (simp add: load_eval foreign_shape_def)
  ultimately show ?thesis using Init_weights extra by simp
qed

text \<open>
  C1, as the code has it.  If a foreign node is matched by a target node whose
  learnable-buffer count differs, where the target node found for a name is the first
  node of the graph with that name, the load fails with a fatal weight-mismatch error.
  The error is that node's count error when the foreign nodes before it load without
  failure; otherwise it is the error at which the load of those earlier nodes fails,
  which is the count error or a shape error of an earlier foreign node that the graph
  matches, and carries that node's name.  The load is not atomic: it leaves the graph
  as the load of the foreign nodes before the mismatching one leaves it, so the target
  nodes that those earlier nodes name are already overwritten.  Every target node that
  none of the earlier foreign nodes names is as before, and a load changes nothing but
  learnable buffers of layers.
\<close>

theorem count_mismatch_aborts_load:
  assumes "length (layers net) = length (layer_names net)"
    and "np_layer param = earlier @ source_layer # later"
    and "lp_name source_layer \<in> set (layer_names net)"
    and "t = find_target_layer (layer_names net) (lp_name source_layer)"
    and "length (layer_blobs (layers net ! t)) \<noteq> length (lp_blobs source_layer)"
  shows
    "(t < length (layer_names net) \<and> layer_names net ! t = lp_name source_layer \<and>
      (\<forall>u<t. layer_names net ! u \<noteq> lp_name source_layer)) \<and>
     (\<exists>e. fst (CopyTrainedLayersFrom param net) = Some e \<and>
          ((\<exists>nm. e = IncompatibleNumberOfBlobs nm) \<or> (\<exists>j nm s1 s2. e = ShapeMismatch j nm s1 s2))) \<and>
     fst (CopyTrainedLayersFrom param net) =
       (case fst (CopyTrainedLayersFrom (param\<lparr>np_layer := earlier\<rparr>) net) of
          None \<Rightarrow> Some (IncompatibleNumberOfBlobs (lp_name source_layer))
        | Some e \<Rightarrow> Some e) \<and>
     (fst (CopyTrainedLayersFrom (param\<lparr>np_layer := earlier\<rparr>) net) = None \<longrightarrow>
        fst (CopyTrainedLayersFrom param net) =
          Some (IncompatibleNumberOfBlobs (lp_name source_layer))) \<and>
     (\<forall>e. fst (CopyTrainedLayersFrom (param\<lparr>np_layer := earlier\<rparr>) net) = Some e \<longrightarrow>
        fst (CopyTrainedLayersFrom param net) = Some e \<and>
        (\<exists>s\<in>set earlier. lp_name s \<in> set (layer_names net) \<and>
           (e = IncompatibleNumberOfBlobs (lp_name s) \<or>
            (\<exists>j s1 s2. e = ShapeMismatch j (lp_name s) s1 s2)))) \<and>
     snd (CopyTrainedLayersFrom param net) =
       snd (CopyTrainedLayersFrom (param\<lparr>np_layer := earlier\<rparr>) net) \<and>
     (\<forall>u. layer_names net ! u \<notin> lp_name ` set earlier \<longrightarrow>
        layers (snd (CopyTrainedLayersFrom param net)) ! u = layers net ! u) \<and>
     (\<exists>ls. snd (CopyTrainedLayersFrom param net) = net\<lparr>layers := ls\<rparr>)"
proof -
  have hit: "t < length (layer_names net)"
    using assms(3,4) find_target_layer_miss[of "layer_names net" "lp_name source_layer"]
      find_target_layer_le[of "layer_names net" "lp_name source_layer"] by simp
  have A: "\<exists>e. fst (CopyTrainedLayersFrom param net) = Some e \<and>
          ((\<exists>nm. e = IncompatibleNumberOfBlobs nm) \<or> (\<exists>j nm s1 s2. e = ShapeMismatch j nm s1 s2))"
    unfolding CopyTrainedLayersFrom_def
    using assms(2,4,5) hit by (intro load_fails[OF assms(1), of source_layer]) auto
  obtain r net1 where pre: "for_each_st CopyTrainedLayersFrom_layer earlier net = (r, net1)"
    by (cases "for_each_st CopyTrainedLayersFrom_layer earlier net")
  note f = load_frame[OF pre]
  have step: "CopyTrainedLayersFrom_layer source_layer net1 =
            (Some (IncompatibleNumberOfBlobs (lp_name source_layer)), net1)"
    using f assms(1,4,5) hit by (intro CopyTrainedLayersFrom_layer_count) auto
  have whole: "CopyTrainedLayersFrom param net =
      ((case r of None \<Rightarrow> Some (IncompatibleNumberOfBlobs (lp_name source_layer))
        | Some e \<Rightarrow> Some e), net1)"
    using pre step assms(2)
    by (cases r) (simp_all add: CopyTrainedLayersFrom_def for_each_st_append)
  have B: "fst (CopyTrainedLayersFrom param net) =
          Some (IncompatibleNumberOfBlobs (lp_name source_layer))"
    if "fst (CopyTrainedLayersFrom (param\<lparr>np_layer := earlier\<rparr>) net) = None"
    using that pre whole by (simp add: CopyTrainedLayersFrom_def)
  have B': "snd (CopyTrainedLayersFrom param net) =
       snd (CopyTrainedLayersFrom (param\<lparr>np_layer := earlier\<rparr>) net)"
    using pre whole by (simp add: CopyTrainedLayersFrom_def)
  have C: "\<forall>u. layer_names net ! u \<notin> lp_name ` set earlier \<longrightarrow>
        layers (snd (CopyTrainedLayersFrom param net)) ! u = layers net ! u"
    using f whole by simp
  have D: "\<exists>ls. snd (CopyTrainedLayersFrom param net) = net\<lparr>layers := ls\<rparr>"
    using f whole by simp
  have F: "t < length (layer_names net) \<and> layer_names net ! t = lp_name source_layer \<and>
      (\<forall>u<t. layer_names net ! u \<noteq> lp_name source_layer)"
    using hit assms(4) find_target_layer_hit[of "layer_names net" "lp_name source_layer"]
      find_target_layer_first[of _ "layer_names net" "lp_name source_layer"]
    by simp
  have E: "fst (CopyTrainedLayersFrom param net) =
       (case fst (CopyTrainedLayersFrom (param\<lparr>np_layer := earlier\<rparr>) net) of
          None \<Rightarrow> Some (IncompatibleNumberOfBlobs (lp_name source_layer))
        | Some e \<Rightarrow> Some e)"
    using pre whole by (simp add: CopyTrainedLayersFrom_def)
  have G: "\<forall>e. fst (CopyTrainedLayersFrom (param\<lparr>np_layer := earlier\<rparr>) net) = Some e \<longrightarrow>
        fst (CopyTrainedLayersFrom param net) = Some e \<and>
        (\<exists>s\<in>set earlier. lp_name s \<in> set (layer_names net) \<and>
           (e = IncompatibleNumberOfBlobs (lp_name s) \<or>
            (\<exists>j s1 s2. e = ShapeMismatch j (lp_name s) s1 s2)))"
  proof (intro allI impI)
    fix e
    assume "fst (CopyTrainedLayersFrom (param\<lparr>np_layer := earlier\<rparr>) net) = Some e"
    with pre have r: "r = Some e" by (simp add: CopyTrainedLayersFrom_def)
    with pre have "for_each_st CopyTrainedLayersFrom_layer earlier net = (Some e, net1)"
      by simp
    from load_error_name[OF this assms(1)] whole r
    show "fst (CopyTrainedLayersFrom param net) = Some e \<and>
        (\<exists>s\<in>set earlier. lp_name s \<in> set (layer_names net) \<and>
           (e = IncompatibleNumberOfBlobs (lp_name s) \<or>
            (\<exists>j s1 s2. e = ShapeMismatch j (lp_name s) s1 s2)))"
      by simp
  qed
  have B0: "fst (CopyTrainedLayersFrom (param\<lparr>np_layer := earlier\<rparr>) net) = None \<longrightarrow>
        fst (CopyTrainedLayersFrom param net) =
          Some (IncompatibleNumberOfBlobs (lp_name source_layer))"
    using B by (rule impI)
  note F1 = F[THEN conjunct1] and F2 = F[THEN conjunct2, THEN conjunct1]
    and F3 = F[THEN conjunct2, THEN conjunct2]
  from F1 F2 F3 A E B0 G B' C D show ?thesis by (intro conjI)
qed

text \<open>
  On the example graph the third description fails at the count check of "fc", after
  "conv1" has been loaded; the input layer, which the description does not name, is as
  before.
\<close>

theorem count_mismatch_aborts_load_witness:
  "Init id weights_CreateLayer example_param = Inr weights_net \<and>
   find_target_layer (layer_names weights_net) ''fc'' = 3 \<and>
   layer_names weights_net ! 3 = ''fc'' \<and>
   fst (CopyTrainedLayersFrom foreign_count weights_net) =
     Some (IncompatibleNumberOfBlobs ''fc'') \<and>
   snd (CopyTrainedLayersFrom foreign_count weights_net) =
      snd (CopyTrainedLayersFrom (foreign_count\<lparr>np_layer := [source_layer_of ''conv1''
           [\<lparr>bp_shape = [2], bp_data = [1, 2]\<rparr>, \<lparr>bp_shape = [1], bp_data = [3]\<rparr>]]\<rparr>)
         weights_net) \<and>
   layers (snd (CopyTrainedLayersFrom foreign_count weights_net)) ! 0 = layers weights_net ! 0"
proof -
  have wf: "length (layers weights_net) = length (layer_names weights_net)"
    by (simp add: load_eval)
  have cnt: "np_layer foreign_count =
      [source_layer_of ''conv1''
         [\<lparr>bp_shape = [2], bp_data = [1, 2]\<rparr>, \<lparr>bp_shape = [1], bp_data = [3]\<rparr>]] @
      source_layer_of ''fc'' [\<lparr>bp_shape = [2], bp_data = [4, 5]\<rparr>] # []"
    by (simp add: foreign_count_def)
  have nm: "lp_name (source_layer_of ''fc'' [\<lparr>bp_shape = [2], bp_data = [4, 5]\<rparr>])
      \<in> set (layer_names weights_net)"
    by (simp add: load_eval)
  have ne: "length (layer_blobs (layers weights_net !
        find_target_layer (layer_names weights_net)
          (lp_name (source_layer_of ''fc'' [\<lparr>bp_shape = [2], bp_data = [4, 5]\<rparr>])))) \<noteq>
      length (lp_blobs (source_layer_of ''fc'' [\<lparr>bp_shape = [2], bp_data = [4, 5]\<rparr>]))"
    by (simp add: load_eval)
  have ok: "fst (CopyTrainedLayersFrom (foreign_count\<lparr>np_layer := [source_layer_of ''conv1''
           [\<lparr>bp_shape = [2], bp_data = [1, 2]\<rparr>, \<lparr>bp_shape = [1], bp_data = [3]\<rparr>]]\<rparr>)
         weights_net) = None"
    by (simp add: load_eval foreign_count_def)
  have first: "layer_names weights_net ! 0 \<notin> lp_name ` set [source_layer_of ''conv1''
           [\<lparr>bp_shape = [2], bp_data = [1, 2]\<rparr>, \<lparr>bp_shape = [1], bp_data = [3]\<rparr>]]"
    by (simp add: load_eval)
  have pos: "find_target_layer (layer_names weights_net) ''fc'' = 3"
    by (simp add: load_eval)
  note t = count_mismatch_aborts_load[OF wf cnt nm refl ne]
  note t0 = t[THEN conjunct1, THEN conjunct2, THEN conjunct1]
  note r = t[THEN conjunct2, THEN conjunct2, THEN conjunct2]
  note t1 = r[THEN conjunct1, rule_format, OF ok]
  note t2 = r[THEN conjunct2, THEN conjunct2, THEN conjunct1]
  note t3 = r[THEN conjunct2, THEN conjunct2, THEN conjunct2, THEN conjunct1, rule_format,
      OF first]
  from t0 pos have t0': "layer_names weights_net ! 3 = ''fc''"
    by (simp add: source_layer_of_def)
  from t1 have t1': "fst (CopyTrainedLayersFrom foreign_count weights_net) =
     Some (IncompatibleNumberOfBlobs ''fc'')"
    by (simp add: source_layer_of_def)
  from Init_weights pos t0' t1' t2 t3 show ?thesis by (intro conjI)
qed

text \<open>
  C1 as stated asks that no node but the mismatching one be mutated.  On the example
  graph the load of the third description fails at the count check of "fc" and has
  overwritten both buffers of "conv1", which is not the mismatching node.
\<close>

theorem count_mismatch_mutates_earlier_node:
  "Init id weights_CreateLayer example_param = Inr weights_net \<and>
   fst (CopyTrainedLayersFrom foreign_count weights_net) = Some (IncompatibleNumberOfBlobs ''fc'') \<and>
   layer_names weights_net ! 1 = ''conv1'' \<and>
   layer_blobs (layers weights_net ! 1) =
     [\<lparr>blob_shape = [2], blob_data = [0, 0]\<rparr>, \<lparr>blob_shape = [1], blob_data = [0]\<rparr>] \<and>
   layer_blobs (layers (snd (CopyTrainedLayersFrom foreign_count weights_net)) ! 1) =
     [\<lparr>blob_shape = [2], blob_data = [1, 2]\<rparr>, \<lparr>blob_shape = [1], blob_data = [3]\<rparr>]"
  using Init_weights by (simp add: load_eval foreign_count_def)

section \<open>The failures of the assembly\<close>

lemma for_each_error:
  "for_each f xs s = Inl e \<Longrightarrow> \<exists>x t. x \<in> set xs \<and> f x t = Inl e"
proof (induction xs arbitrary: s)
  case Nil
  then show ?case by simp
next
  case (Cons x xs)
  show ?case
  proof (cases "f x s")
    case (Inl e')
    with Cons.prems show ?thesis by auto
  next
    case (Inr s')
    with Cons.prems have "for_each f xs s' = Inl e" by simp
    from Cons.IH[OF this] show ?thesis by auto
  qed
qed

lemma AppendBottom_error:
  "AppendBottom param L k a = Inl e \<Longrightarrow>
   e = OutOfRange \<or> (\<exists>nm ln. e = UnknownBottomBlob nm ln k)"
  by (auto simp: AppendBottom_def Let_def split: if_splits prod.splits)

lemma AppendTop_error:
  "AppendTop param L k a = Inl e \<Longrightarrow>
   e = OutOfRange \<or> (\<exists>nm. e = TopProducedByMultipleSources nm)"
  by (auto simp: AppendTop_def Let_def split: if_splits prod.splits)

lemma Init_layer_error:
  assumes "Init_layer CL param L a = Inl e"
  shows "e \<noteq> PhaseNotTest"
proof -
  obtain net av idx where a: "a = (net, av, idx)" by (cases a)
  from assms consider
    (bottom) s where "for_each (Init_bottom param L) [0..<length (lp_bottom (np_layer param ! L))] s = Inl e"
    | (top) s where "for_each (Init_top param L) [0..<length (lp_top (np_layer param ! L))] s = Inl e"
    by (auto simp: Init_layer_def a Let_def split: sum.splits)
  then show ?thesis
  proof cases
    case bottom
    from for_each_error[OF this] obtain k t where "Init_bottom param L k t = Inl e" by blast
    then have "\<exists>b. AppendBottom param L k t = Inl e"
      by (auto simp: Init_bottom_def split: sum.splits)
    then show ?thesis by (auto dest: AppendBottom_error)
  next
    case top
    from for_each_error[OF this] obtain k t where "Init_top param L k t = Inl e" by blast
    then have "AppendTop param L k t = Inl e \<or> e = OutOfRange"
      by (auto simp: Init_top_def Let_def split: sum.splits if_splits)
    then show ?thesis by (auto dest: AppendTop_error)
  qed
qed

lemma FilterNet_error: "FilterNet param = Inl e \<Longrightarrow> e = IncludeAndExclude"
  by (auto simp: FilterNet_def Let_def FilterNet_layer_def split: sum.splits if_splits
      dest!: for_each_error)

lemma Init_PhaseNotTest:
  assumes "Init IS CL in_param = Inl PhaseNotTest"
  shows "ns_phase (np_state in_param) \<noteq> TEST"
proof
  assume ph: "ns_phase (np_state in_param) = TEST"
  show False
  proof (cases "FilterNet in_param")
    case (Inl e)
    with assms ph FilterNet_error[OF Inl] show False by (simp add: Init_def)
  next
    case (Inr fp)
    let ?param = "IS fp"
    let ?a0 = "(empty_Net\<lparr>net_name := np_name ?param,
                  bottom_id_vecs := replicate (length (np_layer ?param)) [],
                  top_id_vecs := replicate (length (np_layer ?param)) []\<rparr>, {}, Map.empty)"
    show False
    proof (cases "for_each (Init_layer CL ?param) [0..<length (np_layer ?param)] ?a0")
      case (Inl e)
      from for_each_error[OF Inl] Init_layer_error have "e \<noteq> PhaseNotTest" by blast
      with assms ph Inr Inl show False by (simp add: Init_def Let_def)
    next
      case loop: (Inr a)
      obtain net av idx where a: "a = (net, av, idx)" by (cases a)
      show False
      proof (cases "for_each pin_blob (top_id_vecs net ! 0) net")
        case (Inl e)
        from for_each_error[OF Inl] have "e = OutOfRange"
          by (auto simp: pin_blob_def split: if_splits)
        with assms ph Inr loop a Inl show False
          by (simp add: Init_def Let_def split: if_splits)
      next
        case pin: (Inr n)
        with assms ph Inr loop a show False
          by (simp add: Init_def Let_def split: if_splits)
      qed
    qed
  qed
qed

text \<open>
  The filter evaluates every rule against the state of the description it is given; when
  that state has phase TEST, this is a state whose phase is TEST.
\<close>

lemma FilterNet_phase_TEST:
  assumes "ns_phase (np_state p) = TEST"
  shows "FilterNet p =
     (if \<exists>l\<in>set (np_layer p). lp_include l \<noteq> [] \<and> lp_exclude l \<noteq> []
      then Inl IncludeAndExclude
      else Inr (p\<lparr>np_layer :=
        filter (\<lambda>l. if lp_include l = []
                 then \<not> (\<exists>r\<in>set (lp_exclude l).
                        StateMeetsRule ((np_state p)\<lparr>ns_phase := TEST\<rparr>) r (lp_name l))
                 else (\<exists>r\<in>set (lp_include l).
                        StateMeetsRule ((np_state p)\<lparr>ns_phase := TEST\<rparr>) r (lp_name l)))
          (np_layer p)\<rparr>))"
proof -
  from assms have "(np_state p)\<lparr>ns_phase := TEST\<rparr> = np_state p" by simp
  then show ?thesis
    unfolding FilterNet_def Let_def for_each_FilterNet_layer by simp
qed

text \<open>The graph that Init returns has the layers that the filter keeps, in their order.\<close>

lemma Init_layers_of_filter:
  assumes "Init IS CL p = Inr net"
  shows "\<exists>fp. FilterNet p = Inr fp \<and>
           np_layer fp =
             filter (\<lambda>l. if lp_include l = []
                 then \<not> (\<exists>r\<in>set (lp_exclude l).
                        StateMeetsRule ((np_state p)\<lparr>ns_phase := TEST\<rparr>) r (lp_name l))
                 else (\<exists>r\<in>set (lp_include l).
                        StateMeetsRule ((np_state p)\<lparr>ns_phase := TEST\<rparr>) r (lp_name l)))
               (np_layer p) \<and>
           layer_names net = map lp_name (np_layer (IS fp)) \<and>
           layers net = map CL (np_layer (IS fp))"
proof -
  from Init_InrD[OF assms] obtain fp where ph: "ns_phase (np_state p) = TEST"
    and fp: "FilterNet p = Inr fp" and as: "assembled CL (np_layer (IS fp)) net"
    by blast
  have "np_layer fp =
             filter (\<lambda>l. if lp_include l = []
                 then \<not> (\<exists>r\<in>set (lp_exclude l).
                        StateMeetsRule ((np_state p)\<lparr>ns_phase := TEST\<rparr>) r (lp_name l))
                 else (\<exists>r\<in>set (lp_include l).
                        StateMeetsRule ((np_state p)\<lparr>ns_phase := TEST\<rparr>) r (lp_name l)))
               (np_layer p)"
  proof (cases "\<exists>l\<in>set (np_layer p). lp_include l \<noteq> [] \<and> lp_exclude l \<noteq> []")
    case True
    with fp FilterNet_phase_TEST[OF ph] show ?thesis by simp
  next
    case False
    from fp FilterNet_phase_TEST[OF ph] have "fp = p\<lparr>np_layer :=
        filter (\<lambda>l. if lp_include l = []
                 then \<not> (\<exists>r\<in>set (lp_exclude l).
                        StateMeetsRule ((np_state p)\<lparr>ns_phase := TEST\<rparr>) r (lp_name l))
                 else (\<exists>r\<in>set (lp_include l).
                        StateMeetsRule ((np_state p)\<lparr>ns_phase := TEST\<rparr>) r (lp_name l)))
          (np_layer p)\<rparr>"
      unfolding if_not_P[OF False] by simp
    then show ?thesis by (rule ssubst) simp
  qed
  moreover from as have "layer_names net = map lp_name (np_layer (IS fp))"
    and "layers net = map CL (np_layer (IS fp))"
    by (simp_all add: assembled_def)
  ultimately show ?thesis using fp by blast
qed

lemma FilterNet_train_file:
  "FilterNet (train_file_param\<lparr>np_state := (np_state train_file_param)\<lparr>ns_phase := TEST\<rparr>\<rparr>) =
     Inr example_param"
  by (simp add: FilterNet_def FilterNet_layer_def StateMeetsRule_def Let_def
      train_file_param_def example_param_def example_layer_def phase_rule_def)

lemma Net_ctor_train_file:
  "Net_ctor id example_CreateLayer train_file_param = Inr example_net"
proof -
  have "Init id example_CreateLayer
          (train_file_param\<lparr>np_state := (np_state train_file_param)\<lparr>ns_phase := TEST\<rparr>\<rparr>) =
        Init id example_CreateLayer example_param"
    unfolding Init_def FilterNet_train_file FilterNet_example
    by (simp add: train_file_param_def example_param_def)
  with Init_example show ?thesis by (simp add: Net_ctor_def)
qed

text \<open>
  C9.  The constructor runs Init on the description read from the file with the phase
  of its state set to TEST, and so never fails the phase check.  Init fails that check,
  before anything else, whenever the phase of the incoming description is not TEST.
  So whenever Init gets as far as the filter, the state that FilterNet hands to the rule
  evaluator has phase TEST: the result of FilterNet on the incoming description is the
  one obtained by evaluating every rule with StateMeetsRule against the state of the
  description with phase TEST, and a rule that asks for phase TRAIN is never met.  The
  graph that Init returns, and so the graph that the constructor returns whatever the
  phase in the file, has exactly the layers that InsertSplits makes of the layers that
  FilterNet keeps under phase TEST.
\<close>

theorem phase_is_TEST:
  "Net_ctor InsertSplits CreateLayer param =
     Init InsertSplits CreateLayer (param\<lparr>np_state := (np_state param)\<lparr>ns_phase := TEST\<rparr>\<rparr>) \<and>
   Net_ctor InsertSplits CreateLayer param \<noteq> Inl PhaseNotTest \<and>
   (ns_phase (np_state in_param) \<noteq> TEST \<longrightarrow>
      Init InsertSplits CreateLayer in_param = Inl PhaseNotTest) \<and>
   (Init InsertSplits CreateLayer in_param \<noteq> Inl PhaseNotTest \<longrightarrow>
      ns_phase (np_state in_param) = TEST \<and>
      (\<forall>rule layer_name. nsr_phase rule = Some TRAIN \<longrightarrow>
         \<not> StateMeetsRule (np_state in_param) rule layer_name) \<and>
      FilterNet in_param =
        (if \<exists>l\<in>set (np_layer in_param). lp_include l \<noteq> [] \<and> lp_exclude l \<noteq> []
         then Inl IncludeAndExclude
         else Inr (in_param\<lparr>np_layer :=
           filter (\<lambda>l. if lp_include l = []
                 then \<not> (\<exists>r\<in>set (lp_exclude l).
                        StateMeetsRule ((np_state in_param)\<lparr>ns_phase := TEST\<rparr>) r (lp_name l))
                 else (\<exists>r\<in>set (lp_include l).
                        StateMeetsRule ((np_state in_param)\<lparr>ns_phase := TEST\<rparr>) r (lp_name l)))
             (np_layer in_param)\<rparr>))) \<and>
   (\<forall>net. Init InsertSplits CreateLayer in_param = Inr net \<longrightarrow>
      (\<exists>fp. FilterNet in_param = Inr fp \<and>
         np_layer fp =
           filter (\<lambda>l. if lp_include l = []
                 then \<not> (\<exists>r\<in>set (lp_exclude l).
                        StateMeetsRule ((np_state in_param)\<lparr>ns_phase := TEST\<rparr>) r (lp_name l))
                 else (\<exists>r\<in>set (lp_include l).
                        StateMeetsRule ((np_state in_param)\<lparr>ns_phase := TEST\<rparr>) r (lp_name l)))
             (np_layer in_param) \<and>
         layer_names net = map lp_name (np_layer (InsertSplits fp)) \<and>
         layers net = map CreateLayer (np_layer (InsertSplits fp)))) \<and>
   (\<forall>net. Net_ctor InsertSplits CreateLayer param = Inr net \<longrightarrow>
      (\<exists>fp. FilterNet (param\<lparr>np_state := (np_state param)\<lparr>ns_phase := TEST\<rparr>\<rparr>) = Inr fp \<and>
         np_layer fp =
           filter (\<lambda>l. if lp_include l = []
                 then \<not> (\<exists>r\<in>set (lp_exclude l).
                        StateMeetsRule ((np_state param)\<lparr>ns_phase := TEST\<rparr>) r (lp_name l))
                 else (\<exists>r\<in>set (lp_include l).
                        StateMeetsRule ((np_state param)\<lparr>ns_phase := TEST\<rparr>) r (lp_name l)))
             (np_layer param) \<and>
         layer_names net = map lp_name (np_layer (InsertSplits fp)) \<and>
         layers net = map CreateLayer (np_layer (InsertSplits fp))))"
proof -
  have def: "Net_ctor InsertSplits CreateLayer param =
     Init InsertSplits CreateLayer (param\<lparr>np_state := (np_state param)\<lparr>ns_phase := TEST\<rparr>\<rparr>)"
    by (simp add: Net_ctor_def)
  have ctor: "Net_ctor InsertSplits CreateLayer param \<noteq> Inl PhaseNotTest"
    using Init_PhaseNotTest[of InsertSplits CreateLayer
        "param\<lparr>np_state := (np_state param)\<lparr>ns_phase := TEST\<rparr>\<rparr>"]
    by (auto simp: Net_ctor_def)
  have check: "ns_phase (np_state in_param) \<noteq> TEST \<longrightarrow>
      Init InsertSplits CreateLayer in_param = Inl PhaseNotTest"
    by (simp add: Init_def)
  have rules: "\<not> StateMeetsRule (np_state in_param) rule layer_name"
    if "ns_phase (np_state in_param) = TEST" "nsr_phase rule = Some TRAIN" for rule layer_name
    using that by (simp add: StateMeetsRule_def)
  have past: "Init InsertSplits CreateLayer in_param \<noteq> Inl PhaseNotTest \<longrightarrow>
      ns_phase (np_state in_param) = TEST \<and>
      (\<forall>rule layer_name. nsr_phase rule = Some TRAIN \<longrightarrow>
         \<not> StateMeetsRule (np_state in_param) rule layer_name) \<and>
      FilterNet in_param =
        (if \<exists>l\<in>set (np_layer in_param). lp_include l \<noteq> [] \<and> lp_exclude l \<noteq> []
         then Inl IncludeAndExclude
         else Inr (in_param\<lparr>np_layer :=
           filter (\<lambda>l. if lp_include l = []
                 then \<not> (\<exists>r\<in>set (lp_exclude l).
                        StateMeetsRule ((np_state in_param)\<lparr>ns_phase := TEST\<rparr>) r (lp_name l))
                 else (\<exists>r\<in>set (lp_include l).
                        StateMeetsRule ((np_state in_param)\<lparr>ns_phase := TEST\<rparr>) r (lp_name l)))
             (np_layer in_param)\<rparr>))"
  proof (intro impI conjI allI)
    assume "Init InsertSplits CreateLayer in_param \<noteq> Inl PhaseNotTest"
    with check show ph: "ns_phase (np_state in_param) = TEST" by blast
    from FilterNet_phase_TEST[OF ph]
    show "FilterNet in_param =
        (if \<exists>l\<in>set (np_layer in_param). lp_include l \<noteq> [] \<and> lp_exclude l \<noteq> []
         then Inl IncludeAndExclude
         else Inr (in_param\<lparr>np_layer :=
           filter (\<lambda>l. if lp_include l = []
                 then \<not> (\<exists>r\<in>set (lp_exclude l).
                        StateMeetsRule ((np_state in_param)\<lparr>ns_phase := TEST\<rparr>) r (lp_name l))
                 else (\<exists>r\<in>set (lp_include l).
                        StateMeetsRule ((np_state in_param)\<lparr>ns_phase := TEST\<rparr>) r (lp_name l)))
             (np_layer in_param)\<rparr>))" .
    fix rule :: NetStateRule and layer_name :: string
    assume "nsr_phase rule = Some TRAIN"
    with ph show "\<not> StateMeetsRule (np_state in_param) rule layer_name" by (rule rules)
  qed
  have graph: "\<forall>net. Init InsertSplits CreateLayer in_param = Inr net \<longrightarrow>
      (\<exists>fp. FilterNet in_param = Inr fp \<and>
         np_layer fp =
           filter (\<lambda>l. if lp_include l = []
                 then \<not> (\<exists>r\<in>set (lp_exclude l).
                        StateMeetsRule ((np_state in_param)\<lparr>ns_phase := TEST\<rparr>) r (lp_name l))
                 else (\<exists>r\<in>set (lp_include l).
                        StateMeetsRule ((np_state in_param)\<lparr>ns_phase := TEST\<rparr>) r (lp_name l)))
             (np_layer in_param) \<and>
         layer_names net = map lp_name (np_layer (InsertSplits fp)) \<and>
         layers net = map CreateLayer (np_layer (InsertSplits fp)))"
    by (intro allI impI) (rule Init_layers_of_filter)
  have cgraph: "\<forall>net. Net_ctor InsertSplits CreateLayer param = Inr net \<longrightarrow>
      (\<exists>fp. FilterNet (param\<lparr>np_state := (np_state param)\<lparr>ns_phase := TEST\<rparr>\<rparr>) = Inr fp \<and>
         np_layer fp =
           filter (\<lambda>l. if lp_include l = []
                 then \<not> (\<exists>r\<in>set (lp_exclude l).
                        StateMeetsRule ((np_state param)\<lparr>ns_phase := TEST\<rparr>) r (lp_name l))
                 else (\<exists>r\<in>set (lp_include l).
                        StateMeetsRule ((np_state param)\<lparr>ns_phase := TEST\<rparr>) r (lp_name l)))
             (np_layer param) \<and>
         layer_names net = map lp_name (np_layer (InsertSplits fp)) \<and>
         layers net = map CreateLayer (np_layer (InsertSplits fp)))"
  proof (intro allI impI)
    fix net
    assume "Net_ctor InsertSplits CreateLayer param = Inr net"
    with def have "Init InsertSplits CreateLayer
        (param\<lparr>np_state := (np_state param)\<lparr>ns_phase := TEST\<rparr>\<rparr>) = Inr net" by simp
    note d = Init_layers_of_filter[OF this]
    have st: "(np_state (param\<lparr>np_state := (np_state param)\<lparr>ns_phase := TEST\<rparr>\<rparr>))\<lparr>ns_phase := TEST\<rparr> =
        (np_state param)\<lparr>ns_phase := TEST\<rparr>" by simp
    have ly: "np_layer (param\<lparr>np_state := (np_state param)\<lparr>ns_phase := TEST\<rparr>\<rparr>) = np_layer param"
      by simp
    from d[unfolded st ly]
    show "\<exists>fp. FilterNet (param\<lparr>np_state := (np_state param)\<lparr>ns_phase := TEST\<rparr>\<rparr>) = Inr fp \<and>
         np_layer fp =
           filter (\<lambda>l. if lp_include l = []
                 then \<not> (\<exists>r\<in>set (lp_exclude l).
                        StateMeetsRule ((np_state param)\<lparr>ns_phase := TEST\<rparr>) r (lp_name l))
                 else (\<exists>r\<in>set (lp_include l).
                        StateMeetsRule ((np_state param)\<lparr>ns_phase := TEST\<rparr>) r (lp_name l)))
             (np_layer param) \<and>
         layer_names net = map lp_name (np_layer (InsertSplits fp)) \<and>
         layers net = map CreateLayer (np_layer (InsertSplits fp))" .
  qed
  from def ctor check past graph cgraph show ?thesis by (intro conjI)
qed

text \<open>
  The training file: Init on it as it is fails the phase check.  The constructor
  assembles from it the example graph: under phase TEST FilterNet drops the loss layer,
  which is included in phase TRAIN only, and keeps the four layers of the example.
\<close>

theorem phase_is_TEST_witness:
  "Init id example_CreateLayer train_file_param = Inl PhaseNotTest \<and>
   Net_ctor id example_CreateLayer train_file_param = Inr example_net \<and>
   FilterNet (train_file_param\<lparr>np_state := (np_state train_file_param)\<lparr>ns_phase := TEST\<rparr>\<rparr>) =
     Inr example_param \<and>
   map lp_name (np_layer train_file_param) = [''data'', ''conv1'', ''relu1'', ''fc'', ''loss''] \<and>
   layer_names example_net = [''data'', ''conv1'', ''relu1'', ''fc''] \<and>
   ns_phase (np_state example_param) = TEST \<and>
   Init id example_CreateLayer example_param = Inr example_net"
proof -
  note t = phase_is_TEST[of id example_CreateLayer train_file_param train_file_param]
  have tr: "ns_phase (np_state train_file_param) \<noteq> TEST"
    by (simp add: train_file_param_def)
  note fails = t[THEN conjunct2, THEN conjunct2, THEN conjunct1, rule_format, OF tr]
  note g = t[THEN conjunct2, THEN conjunct2, THEN conjunct2, THEN conjunct2, THEN conjunct2,
      rule_format, OF Net_ctor_train_file]
  from g FilterNet_train_file
  have names: "layer_names example_net = map lp_name (np_layer (id example_param))"
    by auto
  have n1: "layer_names example_net = [''data'', ''conv1'', ''relu1'', ''fc'']"
    using names by (simp add: example_param_def example_layer_def)
  have n2: "map lp_name (np_layer train_file_param) =
      [''data'', ''conv1'', ''relu1'', ''fc'', ''loss'']"
    by (simp add: train_file_param_def example_param_def example_layer_def)
  have ph: "ns_phase (np_state example_param) = TEST"
    by (simp add: example_param_def)
  from fails Net_ctor_train_file FilterNet_train_file n2 n1 ph Init_example
  show ?thesis by (intro conjI)
qed

lemma for_each_stops:
  assumes "j < n" and "for_each f [0..<j] s = Inr t" and "f j t = Inl e"
  shows "for_each f [0..<n] s = Inl e"
  using assms(1)
proof (induction n)
  case 0
  then show ?case by simp
next
  case (Suc n)
  show ?case
  proof (cases "j = n")
    case True
    with assms(2,3) show ?thesis by (simp add: for_each_append)
  next
    case False
    with Suc have "for_each f [0..<n] s = Inl e" by simp
    then show ?thesis by (simp add: for_each_append)
  qed
qed

lemma AppendBottom_unknown:
  assumes "L < length (np_layer param)" and "k < length (lp_bottom (np_layer param ! L))"
    and "lp_bottom (np_layer param ! L) ! k \<notin> av"
  shows "AppendBottom param L k (net, av, idx) =
           Inl (UnknownBottomBlob (lp_bottom (np_layer param ! L) ! k)
                  (lp_name (np_layer param ! L)) k)"
  using assms by (simp add: AppendBottom_def Let_def)

lemma AppendTop_duplicate:
  assumes "L < length (np_layer param)" and "k < length (lp_top (np_layer param ! L))"
    and "\<not> (k < length (lp_bottom (np_layer param ! L)) \<and>
            lp_top (np_layer param ! L) ! k = lp_bottom (np_layer param ! L) ! k)"
    and "idx (lp_top (np_layer param ! L) ! k) \<noteq> None"
  shows "AppendTop param L k (net, av, idx) =
           Inl (TopProducedByMultipleSources (lp_top (np_layer param ! L) ! k))"
  using assms by (auto simp: AppendTop_def Let_def)

text \<open>A failure in the loops of a layer that the loop over the layers reaches is Init's.\<close>

lemma Init_fails_in_layer:
  assumes "ns_phase (np_state in_param) = TEST"
    and "FilterNet in_param = Inr filtered_param"
    and "param = InsertSplits filtered_param"
    and "for_each (Init_layer CreateLayer param) [0..<L]
           (empty_Net\<lparr>net_name := np_name param,
              bottom_id_vecs := replicate (length (np_layer param)) [],
              top_id_vecs := replicate (length (np_layer param)) []\<rparr>, {}, Map.empty) = Inr a0"
    and "L < length (np_layer param)"
    and "Init_layer CreateLayer param L a0 = Inl e"
  shows "Init InsertSplits CreateLayer in_param = Inl e"
proof -
  from for_each_stops[OF assms(5) assms(4) assms(6)] assms(1,2,3)
  show ?thesis by (simp add: Init_def Let_def)
qed

text \<open>
  C7.  Let the loop over the layers of Init have wired the layers before \<open>L\<close>.  If the
  loop over the inputs of layer \<open>L\<close> has wired the inputs before \<open>k\<close> and the name of
  input \<open>k\<close> is not in the set of available names, then AppendBottom fails with "Unknown
  bottom blob", which carries the name, the layer's name and \<open>k\<close>, and so does Init.  If
  all inputs of layer \<open>L\<close> and its outputs before \<open>k\<close> are wired, output \<open>k\<close> is not in
  place and its name is already a key of the map from names to ids, then AppendTop
  fails with "Top blob produced by multiple sources", which carries the name, and so
  does Init.
\<close>

theorem assembly_failures:
  assumes "ns_phase (np_state in_param) = TEST"
    and "FilterNet in_param = Inr filtered_param"
    and "param = InsertSplits filtered_param"
    and "for_each (Init_layer CreateLayer param) [0..<L]
           (empty_Net\<lparr>net_name := np_name param,
              bottom_id_vecs := replicate (length (np_layer param)) [],
              top_id_vecs := replicate (length (np_layer param)) []\<rparr>, {}, Map.empty) =
         Inr (net0, available0, idx0)"
    and "L < length (np_layer param)"
    and "layer_param = np_layer param ! L"
    and "start = (net0\<lparr>layers := layers net0 @ [CreateLayer layer_param],
                       layer_names := layer_names net0 @ [lp_name layer_param]\<rparr>,
                  available0, idx0)"
  shows
    "(\<forall>k net available_blobs blob_name_to_idx.
        for_each (Init_bottom param L) [0..<k] start =
          Inr (net, available_blobs, blob_name_to_idx) \<and>
        k < length (lp_bottom layer_param) \<and> lp_bottom layer_param ! k \<notin> available_blobs \<longrightarrow>
        AppendBottom param L k (net, available_blobs, blob_name_to_idx) =
          Inl (UnknownBottomBlob (lp_bottom layer_param ! k) (lp_name layer_param) k) \<and>
        Init InsertSplits CreateLayer in_param =
          Inl (UnknownBottomBlob (lp_bottom layer_param ! k) (lp_name layer_param) k)) \<and>
     (\<forall>k wired_bottoms net available_blobs blob_name_to_idx.
        for_each (Init_bottom param L) [0..<length (lp_bottom layer_param)] start =
          Inr wired_bottoms \<and>
        for_each (Init_top param L) [0..<k] wired_bottoms =
          Inr (net, available_blobs, blob_name_to_idx) \<and>
        k < length (lp_top layer_param) \<and>
        \<not> (k < length (lp_bottom layer_param) \<and> lp_top layer_param ! k = lp_bottom layer_param ! k) \<and>
        blob_name_to_idx (lp_top layer_param ! k) \<noteq> None \<longrightarrow>
        AppendTop param L k (net, available_blobs, blob_name_to_idx) =
          Inl (TopProducedByMultipleSources (lp_top layer_param ! k)) \<and>
        Init InsertSplits CreateLayer in_param =
          Inl (TopProducedByMultipleSources (lp_top layer_param ! k)))"
proof -
  note reach = Init_fails_in_layer[where InsertSplits = InsertSplits and in_param = in_param
      and CreateLayer = CreateLayer and param = param and filtered_param = filtered_param,
      OF assms(1-5)]
  have bottom: "AppendBottom param L k (net, av, idx) =
          Inl (UnknownBottomBlob (lp_bottom layer_param ! k) (lp_name layer_param) k) \<and>
        Init InsertSplits CreateLayer in_param =
          Inl (UnknownBottomBlob (lp_bottom layer_param ! k) (lp_name layer_param) k)"
    if pre: "for_each (Init_bottom param L) [0..<k] start = Inr (net, av, idx)"
      and k: "k < length (lp_bottom layer_param)"
      and un: "lp_bottom layer_param ! k \<notin> av" for k net av idx
  proof -
    have ab: "AppendBottom param L k (net, av, idx) =
          Inl (UnknownBottomBlob (lp_bottom layer_param ! k) (lp_name layer_param) k)"
      using AppendBottom_unknown[OF assms(5), of k av net idx] k un assms(6) by simp
    then have "Init_bottom param L k (net, av, idx) =
          Inl (UnknownBottomBlob (lp_bottom layer_param ! k) (lp_name layer_param) k)"
      by (simp add: Init_bottom_def)
    from for_each_stops[OF k pre this]
    have "Init_layer CreateLayer param L (net0, available0, idx0) =
          Inl (UnknownBottomBlob (lp_bottom layer_param ! k) (lp_name layer_param) k)"
      using assms(6,7) by (simp add: Init_layer_def Let_def)
    from reach[OF this] ab show ?thesis by simp
  qed
  have top: "AppendTop param L k (net, av, idx) =
          Inl (TopProducedByMultipleSources (lp_top layer_param ! k)) \<and>
        Init InsertSplits CreateLayer in_param =
          Inl (TopProducedByMultipleSources (lp_top layer_param ! k))"
    if bots: "for_each (Init_bottom param L) [0..<length (lp_bottom layer_param)] start = Inr a1"
      and pre: "for_each (Init_top param L) [0..<k] a1 = Inr (net, av, idx)"
      and k: "k < length (lp_top layer_param)"
      and np: "\<not> (k < length (lp_bottom layer_param) \<and>
                  lp_top layer_param ! k = lp_bottom layer_param ! k)"
      and dup: "idx (lp_top layer_param ! k) \<noteq> None" for k a1 net av idx
  proof -
    have at: "AppendTop param L k (net, av, idx) =
          Inl (TopProducedByMultipleSources (lp_top layer_param ! k))"
      using AppendTop_duplicate[OF assms(5), of k idx net av] k np dup assms(6) by simp
    then have "Init_top param L k (net, av, idx) =
          Inl (TopProducedByMultipleSources (lp_top layer_param ! k))"
      by (simp add: Init_top_def)
    from for_each_stops[OF k pre this] bots
    have "Init_layer CreateLayer param L (net0, available0, idx0) =
          Inl (TopProducedByMultipleSources (lp_top layer_param ! k))"
      using assms(6,7) by (simp add: Init_layer_def Let_def)
    from reach[OF this] at show ?thesis by simp
  qed
  from bottom top show ?thesis by blast
qed

section \<open>The failing examples\<close>

lemmas assembly_eval =
  example_layer_def example_CreateLayer_def
  Init_layer_def Init_bottom_def Init_top_def AppendBottom_def AppendTop_def
  map_subscript_def pin_blob_def build_index_def empty_Net_def upt_4 Let_def
  numeral_2_eq_2 numeral_3_eq_3

lemma FilterNet_fanout: "FilterNet fanout_param = Inr fanout_param"
  by (simp add: FilterNet_def fanout_param_def example_layer_def FilterNet_layer_def)

lemma FilterNet_duplicate: "FilterNet duplicate_param = Inr duplicate_param"
  by (simp add: FilterNet_def duplicate_param_def example_layer_def FilterNet_layer_def)

lemma fanout_two_layers:
  "for_each (Init_layer example_CreateLayer fanout_param) [0..<2]
     (empty_Net\<lparr>net_name := np_name fanout_param,
        bottom_id_vecs := replicate (length (np_layer fanout_param)) [],
        top_id_vecs := replicate (length (np_layer fanout_param)) []\<rparr>, {}, Map.empty) =
   Inr (fanout_net, {''a''}, [''data'' \<mapsto> 0, ''a'' \<mapsto> 1])"
  by (auto simp: fanout_param_def fanout_net_def assembly_eval)

lemma duplicate_one_layer:
  "for_each (Init_layer example_CreateLayer duplicate_param) [0..<1]
     (empty_Net\<lparr>net_name := np_name duplicate_param,
        bottom_id_vecs := replicate (length (np_layer duplicate_param)) [],
        top_id_vecs := replicate (length (np_layer duplicate_param)) []\<rparr>, {}, Map.empty) =
   Inr (duplicate_net, {''data''}, [''data'' \<mapsto> 0])"
  by (auto simp: duplicate_param_def duplicate_net_def assembly_eval)

text \<open>
  On the description without a split, Init fails at the input of "b"; on the one with
  two producers of "data", Init fails at the output of the second.
\<close>

theorem assembly_failures_witness:
  "Init id example_CreateLayer fanout_param = Inl (UnknownBottomBlob ''data'' ''b'' 0) \<and>
   Init id example_CreateLayer duplicate_param = Inl (TopProducedByMultipleSources ''data'')"
proof -
  have t: "ns_phase (np_state fanout_param) = TEST" "ns_phase (np_state duplicate_param) = TEST"
    by (simp_all add: fanout_param_def duplicate_param_def)
  have L: "2 < length (np_layer fanout_param)" "1 < length (np_layer duplicate_param)"
    by (simp_all add: fanout_param_def duplicate_param_def)
  have f: "fanout_param = id fanout_param" "duplicate_param = id duplicate_param" by simp_all
  note b = assembly_failures[where InsertSplits = id and in_param = fanout_param
      and filtered_param = fanout_param and param = fanout_param
      and CreateLayer = example_CreateLayer and L = 2,
      OF t(1) FilterNet_fanout f(1) fanout_two_layers L(1) refl refl,
      THEN conjunct1, rule_format, where k = 0]
  note d = assembly_failures[where InsertSplits = id and in_param = duplicate_param
      and filtered_param = duplicate_param and param = duplicate_param
      and CreateLayer = example_CreateLayer and L = 1,
      OF t(2) FilterNet_duplicate f(2) duplicate_one_layer L(2) refl refl,
      THEN conjunct2, rule_format, where k = 0]
  let ?sf = "(fanout_net\<lparr>layers := layers fanout_net @
                   [example_CreateLayer (np_layer fanout_param ! 2)],
                 layer_names := layer_names fanout_net @
                   [lp_name (np_layer fanout_param ! 2)]\<rparr>,
              {''a''}, [''data'' \<mapsto> 0, ''a'' \<mapsto> 1])"
  let ?sd = "(duplicate_net\<lparr>layers := layers duplicate_net @
                   [example_CreateLayer (np_layer duplicate_param ! 1)],
                 layer_names := layer_names duplicate_net @
                   [lp_name (np_layer duplicate_param ! 1)]\<rparr>,
              {''data''}, [''data'' \<mapsto> 0::nat])"
  have pb: "for_each (Init_bottom fanout_param 2) [0..<0] ?sf = Inr ?sf \<and>
        0 < length (lp_bottom (np_layer fanout_param ! 2)) \<and>
        lp_bottom (np_layer fanout_param ! 2) ! 0 \<notin> {''a''}"
    by (simp add: fanout_param_def example_layer_def)
  have pd: "for_each (Init_bottom duplicate_param 1)
          [0..<length (lp_bottom (np_layer duplicate_param ! 1))] ?sd = Inr ?sd \<and>
        for_each (Init_top duplicate_param 1) [0..<0] ?sd = Inr ?sd \<and>
        0 < length (lp_top (np_layer duplicate_param ! 1)) \<and>
        \<not> (0 < length (lp_bottom (np_layer duplicate_param ! 1)) \<and>
           lp_top (np_layer duplicate_param ! 1) ! 0 =
           lp_bottom (np_layer duplicate_param ! 1) ! 0) \<and>
        [''data'' \<mapsto> 0::nat] (lp_top (np_layer duplicate_param ! 1) ! 0) \<noteq> None"
    by (simp add: duplicate_param_def example_layer_def)
  have "Init id example_CreateLayer fanout_param = Inl (UnknownBottomBlob ''data'' ''b'' 0)"
    using b[OF pb] by (simp add: fanout_param_def example_layer_def)
  moreover
  have "Init id example_CreateLayer duplicate_param = Inl (TopProducedByMultipleSources ''data'')"
    using d[OF pd] by (simp add: duplicate_param_def example_layer_def)
  ultimately show ?thesis by simp
qed

section \<open>One consumption per production\<close>

lemma map_subscript_bound: "snd (map_subscript m key) key \<noteq> None"
  by (simp add: map_subscript_def split: option.splits)

text \<open>
  C10.  A successful AppendBottom removes the name it consumes from the set of
  available names and leaves it a key of the map from names to ids; so a second
  AppendBottom of that name on the state it leaves fails with "Unknown bottom blob".
  More generally AppendBottom fails so in every state whose available set lacks the
  name, whatever the map holds.  A successful AppendTop, in place or not, puts the name it
  produces into the available set.  Hence in every graph that Init assembles, between
  two consumptions of one name (in the order of the wiring: by an earlier layer, or by
  the same layer at an earlier position) some layer from the first consumer on and
  before the second produces that name.
\<close>

theorem one_consumption_per_production:
  "(AppendBottom param L k (net, available_blobs, blob_name_to_idx) =
      Inr (blob_id, net', available_blobs', blob_name_to_idx') \<longrightarrow>
      available_blobs' = available_blobs - {lp_bottom (np_layer param ! L) ! k} \<and>
      lp_bottom (np_layer param ! L) ! k \<notin> available_blobs' \<and>
      blob_name_to_idx' (lp_bottom (np_layer param ! L) ! k) \<noteq> None \<and>
      (\<forall>L2 k2. L2 < length (np_layer param) \<and> k2 < length (lp_bottom (np_layer param ! L2)) \<and>
         lp_bottom (np_layer param ! L2) ! k2 = lp_bottom (np_layer param ! L) ! k \<longrightarrow>
         AppendBottom param L2 k2 (net', available_blobs', blob_name_to_idx') =
           Inl (UnknownBottomBlob (lp_bottom (np_layer param ! L) ! k)
                  (lp_name (np_layer param ! L2)) k2))) \<and>
   (L < length (np_layer param) \<and> k < length (lp_bottom (np_layer param ! L)) \<and>
    lp_bottom (np_layer param ! L) ! k \<notin> available_blobs \<longrightarrow>
      AppendBottom param L k (net, available_blobs, blob_name_to_idx) =
        Inl (UnknownBottomBlob (lp_bottom (np_layer param ! L) ! k)
               (lp_name (np_layer param ! L)) k)) \<and>
   (AppendTop param L k (net, available_blobs, blob_name_to_idx) =
      Inr (net', available_blobs', blob_name_to_idx') \<and>
    k < length (lp_top (np_layer param ! L)) \<longrightarrow>
      available_blobs' = insert (lp_top (np_layer param ! L) ! k) available_blobs) \<and>
   (Init InsertSplits CreateLayer in_param = Inr graph \<and>
    FilterNet in_param = Inr filtered_param \<and> ls = np_layer (InsertSplits filtered_param) \<longrightarrow>
      (\<forall>i1 k1 i2 k2.
         i1 < length ls \<and> i2 < length ls \<and>
         k1 < length (lp_bottom (ls ! i1)) \<and> k2 < length (lp_bottom (ls ! i2)) \<and>
         lp_bottom (ls ! i1) ! k1 = lp_bottom (ls ! i2) ! k2 \<and>
         (i1 < i2 \<or> (i1 = i2 \<and> k1 < k2)) \<longrightarrow>
         (\<exists>i. i1 \<le> i \<and> i < i2 \<and> lp_bottom (ls ! i1) ! k1 \<in> set (lp_top (ls ! i)))))"
proof -
  have fail: "AppendBottom param L k (net, av, idx) =
        Inl (UnknownBottomBlob (lp_bottom (np_layer param ! L) ! k)
               (lp_name (np_layer param ! L)) k)"
    if "L < length (np_layer param)" "k < length (lp_bottom (np_layer param ! L))"
      "lp_bottom (np_layer param ! L) ! k \<notin> av" for L k net av idx
    using that by (rule AppendBottom_unknown)
  have consume: "available_blobs' = available_blobs - {lp_bottom (np_layer param ! L) ! k} \<and>
      lp_bottom (np_layer param ! L) ! k \<notin> available_blobs' \<and>
      blob_name_to_idx' (lp_bottom (np_layer param ! L) ! k) \<noteq> None \<and>
      (\<forall>L2 k2. L2 < length (np_layer param) \<and> k2 < length (lp_bottom (np_layer param ! L2)) \<and>
         lp_bottom (np_layer param ! L2) ! k2 = lp_bottom (np_layer param ! L) ! k \<longrightarrow>
         AppendBottom param L2 k2 (net', available_blobs', blob_name_to_idx') =
           Inl (UnknownBottomBlob (lp_bottom (np_layer param ! L) ! k)
                  (lp_name (np_layer param ! L2)) k2))"
    if ab: "AppendBottom param L k (net, available_blobs, blob_name_to_idx) =
      Inr (blob_id, net', available_blobs', blob_name_to_idx')"
  proof -
    note d = AppendBottom_InrD[OF ab]
    from d have av': "available_blobs' = available_blobs - {lp_bottom (np_layer param ! L) ! k}"
      and idx': "blob_name_to_idx' =
                   snd (map_subscript blob_name_to_idx (lp_bottom (np_layer param ! L) ! k))"
      by simp_all
    from av' have gone: "lp_bottom (np_layer param ! L) ! k \<notin> available_blobs'" by simp
    have again: "AppendBottom param L2 k2 (net', available_blobs', blob_name_to_idx') =
           Inl (UnknownBottomBlob (lp_bottom (np_layer param ! L) ! k)
                  (lp_name (np_layer param ! L2)) k2)"
      if "L2 < length (np_layer param)" "k2 < length (lp_bottom (np_layer param ! L2))"
        "lp_bottom (np_layer param ! L2) ! k2 = lp_bottom (np_layer param ! L) ! k" for L2 k2
      using fail[OF that(1,2), of available_blobs' net' blob_name_to_idx'] gone that(3) by simp
    from av' gone idx' again show ?thesis by (simp add: map_subscript_bound)
  qed
  have produce: "available_blobs' = insert (lp_top (np_layer param ! L) ! k) available_blobs"
    if "AppendTop param L k (net, available_blobs, blob_name_to_idx) =
      Inr (net', available_blobs', blob_name_to_idx')"
      "k < length (lp_top (np_layer param ! L))"
    using AppendTop_InrD[OF that] by (auto simp: Let_def split: if_splits)
  have graph: "\<exists>i. i1 \<le> i \<and> i < i2 \<and> lp_bottom (ls ! i1) ! k1 \<in> set (lp_top (ls ! i))"
    if init: "Init InsertSplits CreateLayer in_param = Inr graph"
      and fp: "FilterNet in_param = Inr filtered_param"
      and ls: "ls = np_layer (InsertSplits filtered_param)"
      and i: "i1 < length ls" "i2 < length ls"
      and k: "k1 < length (lp_bottom (ls ! i1))" "k2 < length (lp_bottom (ls ! i2))"
      and eq: "lp_bottom (ls ! i1) ! k1 = lp_bottom (ls ! i2) ! k2"
      and ord: "i1 < i2 \<or> (i1 = i2 \<and> k1 < k2)" for i1 k1 i2 k2
  proof -
    from Init_InrD[OF init] fp ls have "assembled CreateLayer ls graph" by auto
    then obtain av where
      "consumed_once (\<lambda>i. if i < length ls then lp_bottom (ls ! i) else [])
         (\<lambda>i. if i < length ls then lp_top (ls ! i) else []) av"
      by (auto simp: assembled_def)
    then have K: "\<And>i1 k1 i2 k2.
        k1 < length (if i1 < length ls then lp_bottom (ls ! i1) else []) \<Longrightarrow>
        k2 < length (if i2 < length ls then lp_bottom (ls ! i2) else []) \<Longrightarrow>
        (if i1 < length ls then lp_bottom (ls ! i1) else []) ! k1 =
        (if i2 < length ls then lp_bottom (ls ! i2) else []) ! k2 \<Longrightarrow>
        i1 < i2 \<or> (i1 = i2 \<and> k1 < k2) \<Longrightarrow>
        \<exists>i. i1 \<le> i \<and> i < i2 \<and>
            (if i1 < length ls then lp_bottom (ls ! i1) else []) ! k1 \<in>
            set (if i < length ls then lp_top (ls ! i) else [])"
      unfolding consumed_once_def by blast
    from K[of k1 i1 k2 i2] i k eq ord
    obtain j where "i1 \<le> j" "j < i2"
      "lp_bottom (ls ! i1) ! k1 \<in> set (if j < length ls then lp_top (ls ! j) else [])"
      by auto
    moreover from this i have "j < length ls" by simp
    ultimately show ?thesis by auto
  qed
  show ?thesis
  proof (intro conjI impI allI)
    assume "AppendBottom param L k (net, available_blobs, blob_name_to_idx) =
      Inr (blob_id, net', available_blobs', blob_name_to_idx')"
    note c = consume[OF this]
    from c show "available_blobs' = available_blobs - {lp_bottom (np_layer param ! L) ! k}"
      by (rule conjunct1)
    from c show "lp_bottom (np_layer param ! L) ! k \<notin> available_blobs'"
      by (elim conjE)
    from c show "blob_name_to_idx' (lp_bottom (np_layer param ! L) ! k) \<noteq> None"
      by (elim conjE)
    fix L2 k2
    assume "L2 < length (np_layer param) \<and> k2 < length (lp_bottom (np_layer param ! L2)) \<and>
         lp_bottom (np_layer param ! L2) ! k2 = lp_bottom (np_layer param ! L) ! k"
    with c show "AppendBottom param L2 k2 (net', available_blobs', blob_name_to_idx') =
           Inl (UnknownBottomBlob (lp_bottom (np_layer param ! L) ! k)
                  (lp_name (np_layer param ! L2)) k2)"
      by (elim conjE allE[of _ L2] allE[of _ k2]) simp
  next
    assume "L < length (np_layer param) \<and> k < length (lp_bottom (np_layer param ! L)) \<and>
      lp_bottom (np_layer param ! L) ! k \<notin> available_blobs"
    then show "AppendBottom param L k (net, available_blobs, blob_name_to_idx) =
        Inl (UnknownBottomBlob (lp_bottom (np_layer param ! L) ! k)
               (lp_name (np_layer param ! L)) k)"
      by (elim conjE) (rule fail)
  next
    assume "AppendTop param L k (net, available_blobs, blob_name_to_idx) =
      Inr (net', available_blobs', blob_name_to_idx') \<and>
      k < length (lp_top (np_layer param ! L))"
    then show "available_blobs' = insert (lp_top (np_layer param ! L) ! k) available_blobs"
      by (elim conjE) (rule produce)
  next
    fix i1 k1 i2 k2
    assume "Init InsertSplits CreateLayer in_param = Inr graph \<and>
      FilterNet in_param = Inr filtered_param \<and> ls = np_layer (InsertSplits filtered_param)"
      and "i1 < length ls \<and> i2 < length ls \<and>
         k1 < length (lp_bottom (ls ! i1)) \<and> k2 < length (lp_bottom (ls ! i2)) \<and>
         lp_bottom (ls ! i1) ! k1 = lp_bottom (ls ! i2) ! k2 \<and>
         (i1 < i2 \<or> (i1 = i2 \<and> k1 < k2))"
    then show "\<exists>i. i1 \<le> i \<and> i < i2 \<and> lp_bottom (ls ! i1) ! k1 \<in> set (lp_top (ls ! i))"
      by (elim conjE) (rule graph)
  qed
qed

text \<open>
  On the description without a split, after "a" has consumed "data" the name is not
  available though the map holds it, and the consumption by "b" fails, and so does Init.
  In the example graph "conv1" is consumed by layers 2 and 3, and layer 2 produces it.
\<close>

theorem one_consumption_per_production_witness:
  "AppendBottom fanout_param 1 0 (fanout_at_a, {''data''}, [''data'' \<mapsto> 0]) =
     Inr (0, fanout_at_a\<lparr>bottom_id_vecs := [[], [0], []]\<rparr>, {}, [''data'' \<mapsto> 0]) \<and>
   AppendBottom fanout_param 2 0
     (fanout_at_a\<lparr>bottom_id_vecs := [[], [0], []]\<rparr>, {}, [''data'' \<mapsto> 0]) =
     Inl (UnknownBottomBlob ''data'' ''b'' 0) \<and>
   Init id example_CreateLayer fanout_param = Inl (UnknownBottomBlob ''data'' ''b'' 0) \<and>
   Init id example_CreateLayer example_param = Inr example_net \<and>
   (\<exists>i. 2 \<le> i \<and> i < 3 \<and>
      lp_bottom (np_layer example_param ! 2) ! 0 \<in> set (lp_top (np_layer example_param ! i)))"
proof -
  let ?s = "(fanout_at_a, {''data''}, [''data'' \<mapsto> 0::nat])"
  let ?n' = "fanout_at_a\<lparr>bottom_id_vecs := [[], [0], []]\<rparr>"
  have first: "AppendBottom fanout_param 1 0 ?s = Inr (0, ?n', {}, [''data'' \<mapsto> 0])"
    by (auto simp: AppendBottom_def fanout_param_def fanout_at_a_def example_layer_def
        map_subscript_def Let_def)
  note t = one_consumption_per_production[where param = fanout_param and L = 1 and k = 0
      and net = "fst ?s" and available_blobs = "{''data''}"
      and blob_name_to_idx = "[''data'' \<mapsto> 0]" and blob_id = 0 and net' = ?n'
      and available_blobs' = "{}" and blob_name_to_idx' = "[''data'' \<mapsto> 0]"
      and InsertSplits = id and CreateLayer = example_CreateLayer
      and in_param = example_param and graph = example_net
      and filtered_param = example_param and ls = "np_layer example_param"]
  have first': "AppendBottom fanout_param 1 0 (fst ?s, {''data''}, [''data'' \<mapsto> 0]) =
      Inr (0, ?n', {}, [''data'' \<mapsto> 0])"
    using first by simp
  note again = t[THEN conjunct1, rule_format, OF first', THEN conjunct2, THEN conjunct2,
      THEN conjunct2, rule_format, of 2 0]
  have "2 < length (np_layer fanout_param) \<and>
         0 < length (lp_bottom (np_layer fanout_param ! 2)) \<and>
         lp_bottom (np_layer fanout_param ! 2) ! 0 = lp_bottom (np_layer fanout_param ! 1) ! 0"
    by (simp add: fanout_param_def example_layer_def)
  from again[OF this] have second: "AppendBottom fanout_param 2 0 (?n', {}, [''data'' \<mapsto> 0]) =
           Inl (UnknownBottomBlob ''data'' ''b'' 0)"
    by (simp add: fanout_param_def example_layer_def)
  have hyp: "Init id example_CreateLayer example_param = Inr example_net \<and>
      FilterNet example_param = Inr example_param \<and>
      np_layer example_param = np_layer (id example_param)"
    using Init_example FilterNet_example by simp
  note graph = t[THEN conjunct2, THEN conjunct2, THEN conjunct2, rule_format, OF hyp,
      of 2 3 0 0]
  have "2 < length (np_layer example_param) \<and> 3 < length (np_layer example_param) \<and>
         0 < length (lp_bottom (np_layer example_param ! 2)) \<and>
         0 < length (lp_bottom (np_layer example_param ! 3)) \<and>
         lp_bottom (np_layer example_param ! 2) ! 0 = lp_bottom (np_layer example_param ! 3) ! 0 \<and>
         ((2::nat) < 3 \<or> ((2::nat) = 3 \<and> (0::nat) < 0))"
    by (simp add: example_param_def example_layer_def)
  from graph[OF this] have between: "\<exists>i. 2 \<le> i \<and> i < 3 \<and>
      lp_bottom (np_layer example_param ! 2) ! 0 \<in> set (lp_top (np_layer example_param ! i))" .
  have fan: "Init id example_CreateLayer fanout_param = Inl (UnknownBottomBlob ''data'' ''b'' 0)"
    unfolding Init_def FilterNet_fanout
    by (simp add: fanout_param_def assembly_eval)
  from first second between fan Init_example show ?thesis by blast
qed

end
